theory Spec2Isabelle
  imports Complex_Main
begin

section \<open>The points ledger of the loyalty programme backend\<close>

text \<open>
  The backend is an Express application over a relational store. Two copies of it are in
  the repository: the file appended to \<^verbatim>\<open>backend/prisma/createsu.js\<close> (from its line 183,
  called the backend below) and \<^verbatim>\<open>unnamed/part_003\<close> (called the second copy). Handlers
  that read the same in both copies are embedded once; handlers that differ are embedded
  twice, the second copy's definition carrying the suffix \<open>_p3\<close>.

  Conventions of the embedding.
  \<^item> A handler is a function from the request's fields and the store to a pair of the
    reply and the store afterwards. The reply is \<open>Inl\<close> of the HTTP error or \<open>Inr\<close> of what
    a success returns. Nothing in the type says that an error leaves the store alone.
  \<^item> A JavaScript number of a request body is a \<open>rat option\<close>: \<open>None\<close> when the field
    is not a finite number. Integers of the store are \<open>int\<close>. A product or a quotient
    of fractional numbers is the IEEE 754 double nearest to the exact result
    (\<open>to_double\<close>, \<open>times_d\<close>, \<open>divide_d\<close>); the range of the exponent is not modelled,
    so that nothing overflows to \<^verbatim>\<open>Infinity\<close>.
  \<^item> A block run under \<^verbatim>\<open>prisma.$transaction\<close> commits all its writes or none: a write
    that throws (an update of a missing row, a second row under a primary key) gives
    status 500 and the store as it was.
  \<^item> \<^verbatim>\<open>now()\<close> is an argument of the handler, in milliseconds: the few reads of the clock
    inside one request are taken to give one value.
  \<^item> Authentication and the role check of \<^verbatim>\<open>requireRole\<close> come before a handler; a
    handler takes the role and the id of the authenticated user as arguments.
  \<^item> The store is the tables as lists of rows, with the autoincrement counters of the
    tables whose ids matter. Of its constraints, the primary keys that the handlers can
    violate are modelled, and so are the columns of \<^verbatim>\<open>Transaction\<close> and its foreign keys
    to \<^verbatim>\<open>User\<close> (\<^verbatim>\<open>userId\<close>, \<^verbatim>\<open>createdById\<close>, \<^verbatim>\<open>processedById\<close>): a write that names
    an unknown column, or a user without a row, throws. The 32-bit range of the integer
    columns is not modelled.
\<close>

subsection \<open>Numbers\<close>

definition Math_trunc :: "rat \<Rightarrow> int" where
  "Math_trunc x = (if 0 \<le> x then \<lfloor>x\<rfloor> else \<lceil>x\<rceil>)"

definition Math_round :: "rat \<Rightarrow> int" where
  "Math_round x = \<lfloor>x + 1 / 2\<rfloor>"

definition Number_isInteger :: "rat \<Rightarrow> bool" where
  "Number_isInteger x = (of_int \<lfloor>x\<rfloor> = x)"

text \<open>
  Doubles. \<open>bits n\<close> is the number of binary digits of a positive integer, \<open>exponent x\<close>
  the integer part of the binary logarithm of \<open>\<bar>x\<bar>\<close>, and \<open>to_double x\<close> the number
  with a significand of 53 bits nearest to \<open>x\<close>, the even significand on a tie. The
  product \<open>times_d\<close>, the quotient \<open>divide_d\<close> and the comparison \<open>less_d\<close> round their
  operands first, so that they are defined on every rational and take a decimal literal
  to the double it denotes.
\<close>

function bits :: "int \<Rightarrow> nat" where
  "bits n = (if n \<le> 0 then 0 else Suc (bits (n div 2)))"
  by pat_completeness auto
termination
  by (relation "measure nat") auto

declare bits.simps [simp del]

definition pow2 :: "int \<Rightarrow> rat" where
  "pow2 k = (if 0 \<le> k then 2 ^ nat k else 1 / 2 ^ nat (- k))"

definition exponent :: "rat \<Rightarrow> int" where
  "exponent x =
     (case quotient_of \<bar>x\<bar> of
        (a, b) \<Rightarrow>
          let k = int (bits a) - int (bits b)
          in if pow2 k \<le> \<bar>x\<bar> then k else k - 1)"

definition round_half_even :: "rat \<Rightarrow> int" where
  "round_half_even m =
     (let f = \<lfloor>m\<rfloor>; r = m - of_int f
      in if r < 1 / 2 then f
         else if 1 / 2 < r then f + 1
         else if even f then f else f + 1)"

definition to_double :: "rat \<Rightarrow> rat" where
  "to_double x =
     (if x = 0 then 0
      else
        let e = exponent x - 52
        in of_int (round_half_even (x / pow2 e)) * pow2 e)"

definition times_d :: "rat \<Rightarrow> rat \<Rightarrow> rat" where
  "times_d x y = to_double (to_double x * to_double y)"

definition divide_d :: "rat \<Rightarrow> rat \<Rightarrow> rat" where
  "divide_d x y = to_double (to_double x / to_double y)"

definition less_d :: "rat \<Rightarrow> rat \<Rightarrow> bool" where
  "less_d x y = (to_double x < to_double y)"

text \<open>\<^verbatim>\<open>const ceilInt = (x) => Math.trunc(x);\<close> (second copy, line 64)\<close>

definition ceilInt :: "rat \<Rightarrow> int" where
  "ceilInt x = Math_trunc x"

text \<open>\<^verbatim>\<open>const basePoints = (spent) => Math.round(Number(spent) / 0.25);\<close>\<close>

definition basePoints :: "rat \<Rightarrow> int" where
  "basePoints spent = Math_round (divide_d spent (1 / 4))"

subsection \<open>Roles and errors\<close>

datatype role = Regular | Cashier | Manager | Superuser

fun ORDER :: "role \<Rightarrow> int" where
  "ORDER Regular = 0"
| "ORDER Cashier = 1"
| "ORDER Manager = 2"
| "ORDER Superuser = 3"

datatype error =
    BadRequest
  | Forbidden
  | NotFound
  | Gone
  | InternalError

fun status_of :: "error \<Rightarrow> nat" where
  "status_of BadRequest = 400"
| "status_of Forbidden = 403"
| "status_of NotFound = 404"
| "status_of Gone = 410"
| "status_of InternalError = 500"

subsection \<open>Tables\<close>

record user =
  u_id :: int
  u_utorid :: string
  u_points :: int
  u_verified :: bool
  u_suspicious :: bool

datatype tx_type = Purchase | Adjustment | Transfer | Redemption | EventTx

text \<open>
  A row of \<^verbatim>\<open>Transaction\<close>, with the columns of the migration (lines 92-107 of
  \<^verbatim>\<open>createsu.js\<close>) that the handlers write. The column \<^verbatim>\<open>suspicious\<close> is a nullable
  boolean with no default.
\<close>

record tx =
  t_id :: int
  t_userId :: int
  t_type :: tx_type
  t_amount :: int
  t_spent :: "rat option"
  t_remark :: string
  t_suspicious :: "bool option"
  t_relatedId :: "int option"
  t_createdById :: int
  t_processedById :: "int option"

datatype promo_type = Automatic | Onetime

record promotion =
  p_id :: int
  p_type :: promo_type
  p_startTime :: int
  p_endTime :: int
  p_minSpending :: "rat option"
  p_rate :: "rat option"
  p_points :: "int option"

record event =
  e_id :: int
  e_name :: string
  e_description :: string
  e_location :: string
  e_startTime :: int
  e_endTime :: int
  e_capacity :: "int option"
  e_published :: bool
  e_pointsTotal :: int
  e_pointsRemain :: int
  e_pointsAwarded :: int

text \<open>
  The store. \<open>usages\<close> holds the pairs (user, promotion) of \<^verbatim>\<open>UserPromotionUsage\<close> whose
  \<^verbatim>\<open>usedAt\<close> is set, \<open>txPromotions\<close> the pairs (transaction, promotion), \<open>organizers\<close> and
  \<open>guests\<close> the pairs (event, user). \<open>tx_seq\<close> and \<open>event_seq\<close> are the next
  autoincrement keys.
\<close>

record db =
  users :: "user list"
  transactions :: "tx list"
  promotions :: "promotion list"
  usages :: "(int \<times> int) list"
  txPromotions :: "(int \<times> int) list"
  events :: "event list"
  organizers :: "(int \<times> int) list"
  guests :: "(int \<times> int) list"
  tx_seq :: int
  event_seq :: int

definition find_user :: "int \<Rightarrow> db \<Rightarrow> user option" where
  "find_user i d = find (\<lambda>u. u_id u = i) (users d)"

definition find_user_by_utorid :: "string \<Rightarrow> db \<Rightarrow> user option" where
  "find_user_by_utorid s d = find (\<lambda>u. u_utorid u = s) (users d)"

definition find_tx :: "int \<Rightarrow> db \<Rightarrow> tx option" where
  "find_tx i d = find (\<lambda>t. t_id t = i) (transactions d)"

definition find_event :: "int \<Rightarrow> db \<Rightarrow> event option" where
  "find_event i d = find (\<lambda>e. e_id e = i) (events d)"

text \<open>
  \<^verbatim>\<open>createdById\<close> and \<^verbatim>\<open>processedById\<close> of a transaction reference \<^verbatim>\<open>User.id\<close>: a write
  that names a user without a row throws. The handlers below test it where they write the
  id of the authenticated user, which comes from the token and was not looked up.
\<close>

definition user_exists :: "int \<Rightarrow> db \<Rightarrow> bool" where
  "user_exists i d = (find_user i d \<noteq> None)"

text \<open>
  The columns of \<^verbatim>\<open>Transaction\<close>, from the migration (lines 92-107 of \<^verbatim>\<open>createsu.js\<close>), the
  only schema in the repository. \<^verbatim>\<open>transaction.create\<close> throws on a key that is no column.
\<close>

definition Transaction_columns :: "string list" where
  "Transaction_columns =
     [''id'', ''userId'', ''type'', ''amount'', ''spent'', ''remark'', ''suspicious'',
      ''relatedId'', ''createdById'', ''processedById'', ''createdAt'']"

definition known_columns :: "string list \<Rightarrow> bool" where
  "known_columns keys = (set keys \<subseteq> set Transaction_columns)"

text \<open>\<^verbatim>\<open>user.update({ where: { id }, data: { points: { increment: n } } })\<close>\<close>

definition increment_points :: "int \<Rightarrow> int \<Rightarrow> db \<Rightarrow> db" where
  "increment_points i n d =
     d\<lparr>users := map (\<lambda>u. if u_id u = i then u\<lparr>u_points := u_points u + n\<rparr> else u) (users d)\<rparr>"

text \<open>\<^verbatim>\<open>transaction.create({ data })\<close>: the row takes the next key.\<close>

definition create_tx :: "tx \<Rightarrow> db \<Rightarrow> db" where
  "create_tx t d =
     d\<lparr>transactions := transactions d @ [t\<lparr>t_id := tx_seq d\<rparr>], tx_seq := tx_seq d + 1\<rparr>"

definition update_tx :: "int \<Rightarrow> (tx \<Rightarrow> tx) \<Rightarrow> db \<Rightarrow> db" where
  "update_tx i f d =
     d\<lparr>transactions := map (\<lambda>t. if t_id t = i then f t else t) (transactions d)\<rparr>"

definition update_event :: "int \<Rightarrow> (event \<Rightarrow> event) \<Rightarrow> db \<Rightarrow> db" where
  "update_event i f d =
     d\<lparr>events := map (\<lambda>e. if e_id e = i then f e else e) (events d)\<rparr>"

text \<open>The balance of a user, when the row exists.\<close>

definition balance :: "db \<Rightarrow> int \<Rightarrow> int option" where
  "balance d i = map_option u_points (find_user i d)"

subsection \<open>Transfer\<close>

text \<open>
  \<^verbatim>\<open>POST /users/:userId/transactions\<close> (backend lines 2386-2457, second copy lines
  1512-1543; the two read the same). \<open>recipientId\<close> is \<^verbatim>\<open>Number(req.params.userId)\<close>,
  \<open>None\<close> when that is no integer, on which the lookup of the recipient throws.
\<close>

definition post_users_userId_transactions ::
  "int \<Rightarrow> int option \<Rightarrow> string \<Rightarrow> rat option \<Rightarrow> string \<Rightarrow> db \<Rightarrow> (error + nat) \<times> db" where
  "post_users_userId_transactions authId recipientId type amount remark d =
     (case amount of
        None \<Rightarrow> (Inl BadRequest, d)
      | Some a \<Rightarrow>
          if type \<noteq> ''transfer'' \<or> a \<le> 0 then (Inl BadRequest, d)
          else if recipientId = Some authId then (Inl BadRequest, d)
          else
            (case recipientId of
               None \<Rightarrow> (Inl InternalError, d)
             | Some rid \<Rightarrow>
                 (case find_user rid d of
                    None \<Rightarrow> (Inl NotFound, d)
                  | Some recipient \<Rightarrow>
                      (case find_user authId d of
                         None \<Rightarrow> (Inl InternalError, d)
                       | Some sender \<Rightarrow>
                           if \<not> u_verified sender then (Inl Forbidden, d)
                           else
                             let intAmount = Math_trunc a in
                             if u_points sender < intAmount then (Inl BadRequest, d)
                             else
                               let d1 = create_tx
                                     \<lparr>t_id = 0, t_userId = u_id sender, t_type = Transfer,
                                      t_amount = - intAmount, t_spent = None,
                                      t_remark = remark, t_suspicious = None,
                                      t_relatedId = Some (u_id recipient),
                                      t_createdById = u_id sender,
                                      t_processedById = Some (u_id sender)\<rparr> d;
                                   d2 = create_tx
                                     \<lparr>t_id = 0, t_userId = u_id recipient, t_type = Transfer,
                                      t_amount = intAmount, t_spent = None,
                                      t_remark = remark, t_suspicious = None,
                                      t_relatedId = Some (u_id sender),
                                      t_createdById = u_id sender,
                                      t_processedById = Some (u_id sender)\<rparr> d1;
                                   d3 = increment_points (u_id sender) (- intAmount) d2;
                                   d4 = increment_points (u_id recipient) intAmount d3
                               in (Inr 201, d4)))))"

subsection \<open>Redemption: request and processing\<close>

text \<open>
  \<^verbatim>\<open>POST /users/me/transactions\<close>, backend lines 2271-2309. The row is pending
  (\<^verbatim>\<open>processedById: null\<close>), stores the truncated amount, and no balance is written.
\<close>

definition post_users_me_transactions ::
  "int \<Rightarrow> string \<Rightarrow> rat option \<Rightarrow> string \<Rightarrow> db \<Rightarrow> (error + nat) \<times> db" where
  "post_users_me_transactions authId type amount remark d =
     (case amount of
        None \<Rightarrow> (Inl BadRequest, d)
      | Some a \<Rightarrow>
          if type \<noteq> ''redemption'' \<or> a \<le> 0 then (Inl BadRequest, d)
          else
            (case find_user authId d of
               None \<Rightarrow> (Inl InternalError, d)
             | Some me \<Rightarrow>
                 if \<not> u_verified me then (Inl Forbidden, d)
                 else
                   let intAmount = Math_trunc a in
                   if u_points me < intAmount then (Inl BadRequest, d)
                   else
                     (Inr 201,
                      create_tx
                        \<lparr>t_id = 0, t_userId = u_id me, t_type = Redemption,
                         t_amount = intAmount, t_spent = None,
                         t_remark = remark, t_suspicious = None, t_relatedId = None,
                         t_createdById = u_id me, t_processedById = None\<rparr> d)))"

text \<open>The second copy, lines 1446-1468, stores the amount negated.\<close>

definition post_users_me_transactions_p3 ::
  "int \<Rightarrow> string \<Rightarrow> rat option \<Rightarrow> string \<Rightarrow> db \<Rightarrow> (error + nat) \<times> db" where
  "post_users_me_transactions_p3 authId type amount remark d =
     (case amount of
        None \<Rightarrow> (Inl BadRequest, d)
      | Some a \<Rightarrow>
          if type \<noteq> ''redemption'' \<or> a \<le> 0 then (Inl BadRequest, d)
          else
            (case find_user authId d of
               None \<Rightarrow> (Inl InternalError, d)
             | Some me \<Rightarrow>
                 if \<not> u_verified me then (Inl Forbidden, d)
                 else if u_points me < Math_trunc a then (Inl BadRequest, d)
                 else
                   (Inr 201,
                    create_tx
                      \<lparr>t_id = 0, t_userId = u_id me, t_type = Redemption,
                       t_amount = - Math_trunc a, t_spent = None,
                       t_remark = remark, t_suspicious = None, t_relatedId = None,
                       t_createdById = u_id me, t_processedById = None\<rparr> d)))"

text \<open>A nullable key read as a condition: \<^verbatim>\<open>null\<close> and \<^verbatim>\<open>0\<close> are falsy.\<close>

definition truthy_id :: "int option \<Rightarrow> bool" where
  "truthy_id x = (x \<noteq> None \<and> x \<noteq> Some 0)"

text \<open>
  \<^verbatim>\<open>PATCH /transactions/:id/processed\<close> behind \<^verbatim>\<open>needRole('cashier')\<close>, backend lines
  2334-2383. \<open>txId\<close> is \<^verbatim>\<open>Number(req.params.id)\<close>, \<open>None\<close> when no integer. The block
  writes \<^verbatim>\<open>processedById: req.auth.id\<close> and rolls back when that user has no row.
\<close>

definition patch_transactions_id_processed ::
  "role \<Rightarrow> int \<Rightarrow> int option \<Rightarrow> db \<Rightarrow> (error + nat) \<times> db" where
  "patch_transactions_id_processed authRole authId txId d =
     (if ORDER authRole < ORDER Cashier then (Inl Forbidden, d)
      else
        (case txId of
           None \<Rightarrow> (Inl InternalError, d)
         | Some i \<Rightarrow>
             (case find_tx i d of
                None \<Rightarrow> (Inl NotFound, d)
              | Some t \<Rightarrow>
                  if t_type t \<noteq> Redemption \<or> truthy_id (t_processedById t)
                  then (Inl BadRequest, d)
                  else
                    (case find_user (t_userId t) d of
                       None \<Rightarrow> (Inl InternalError, d)
                     | Some u \<Rightarrow>
                         if u_points u < t_amount t then (Inl BadRequest, d)
                         else if \<not> user_exists authId d then (Inl InternalError, d)
                         else
                           let d1 = increment_points (t_userId t) (- t_amount t) d;
                               d2 = update_tx i (\<lambda>r. r\<lparr>t_processedById := Some authId\<rparr>) d1
                           in (Inr 200, d2)))))"

text \<open>
  The second copy, lines 1493-1510: the stored amount is negative, the guard and the
  debit use \<^verbatim>\<open>-t.amount\<close>.
\<close>

definition patch_transactions_id_processed_p3 ::
  "role \<Rightarrow> int \<Rightarrow> int option \<Rightarrow> db \<Rightarrow> (error + nat) \<times> db" where
  "patch_transactions_id_processed_p3 authRole authId txId d =
     (if ORDER authRole < ORDER Cashier then (Inl Forbidden, d)
      else
        (case txId of
           None \<Rightarrow> (Inl InternalError, d)
         | Some i \<Rightarrow>
             (case find_tx i d of
                None \<Rightarrow> (Inl NotFound, d)
              | Some t \<Rightarrow>
                  if t_type t \<noteq> Redemption \<or> truthy_id (t_processedById t)
                  then (Inl BadRequest, d)
                  else
                    (case find_user (t_userId t) d of
                       None \<Rightarrow> (Inl InternalError, d)
                     | Some u \<Rightarrow>
                         if u_points u < - t_amount t then (Inl BadRequest, d)
                         else if \<not> user_exists authId d then (Inl InternalError, d)
                         else
                           let d1 = increment_points (t_userId t) (- (- t_amount t)) d;
                               d2 = update_tx i (\<lambda>r. r\<lparr>t_processedById := Some authId\<rparr>) d1
                           in (Inr 200, d2)))))"

subsection \<open>Suspicious toggle\<close>

text \<open>
  \<^verbatim>\<open>PATCH /transactions/:id/suspicious\<close> behind \<^verbatim>\<open>needRole('manager')\<close>, backend lines
  2209-2269 and second copy lines 1425-1444; the two differ only in how the returned row
  is formatted. \<open>suspicious\<close> is \<open>None\<close> when the body's field is no boolean. The update
  of the owner's points throws when the row is missing, and the block rolls back.
\<close>

definition patch_transactions_id_suspicious ::
  "role \<Rightarrow> int option \<Rightarrow> bool option \<Rightarrow> db \<Rightarrow> (error + tx) \<times> db" where
  "patch_transactions_id_suspicious authRole txId suspicious d =
     (if ORDER authRole < ORDER Manager then (Inl Forbidden, d)
      else
        (case suspicious of
           None \<Rightarrow> (Inl BadRequest, d)
         | Some s \<Rightarrow>
             (case txId of
                None \<Rightarrow> (Inl InternalError, d)
              | Some i \<Rightarrow>
                  (case find_tx i d of
                     None \<Rightarrow> (Inl NotFound, d)
                   | Some t \<Rightarrow>
                       if t_suspicious t = Some s then (Inr t, d)
                       else
                         (case find_user (t_userId t) d of
                            None \<Rightarrow> (Inl InternalError, d)
                          | Some u \<Rightarrow>
                              let d1 = update_tx i (\<lambda>r. r\<lparr>t_suspicious := Some s\<rparr>) d;
                                  delta = (if s then - t_amount t else t_amount t);
                                  d2 = increment_points (t_userId t) delta d1
                              in (case find_tx i d2 of
                                    None \<Rightarrow> (Inl InternalError, d2)
                                  | Some updated \<Rightarrow> (Inr updated, d2)))))))"

subsection \<open>Events: creation\<close>

text \<open>
  An optional field of a request body: \<open>Absent\<close> when the handler passes it over,
  \<open>Bad\<close> when it is there and fails the handler's test of its type or format, \<open>Val\<close>
  with the value otherwise.
\<close>

datatype 'a field = Absent | Bad | Val 'a

text \<open>
  \<^verbatim>\<open>POST /events\<close> behind \<^verbatim>\<open>needRole('manager')\<close>, backend lines 1096-1152, second copy
  lines 672-727; the two read the same. A time is \<open>None\<close> when the field is missing or is
  no date. The column \<^verbatim>\<open>capacity\<close> is an integer: the store refuses any other number.
\<close>

definition new_event ::
  "string \<Rightarrow> string \<Rightarrow> string \<Rightarrow> int \<Rightarrow> int \<Rightarrow> int option \<Rightarrow> int \<Rightarrow> event" where
  "new_event name description location st et cap points =
     \<lparr>e_id = 0, e_name = name, e_description = description, e_location = location,
      e_startTime = st, e_endTime = et, e_capacity = cap, e_published = False,
      e_pointsTotal = points, e_pointsRemain = points, e_pointsAwarded = 0\<rparr>"

text \<open>\<^verbatim>\<open>event.create({ data })\<close>: the row takes the next key.\<close>

definition create_event :: "event \<Rightarrow> db \<Rightarrow> db" where
  "create_event e d =
     d\<lparr>events := events d @ [e\<lparr>e_id := event_seq d\<rparr>], event_seq := event_seq d + 1\<rparr>"

definition post_events ::
  "role \<Rightarrow> string \<Rightarrow> string \<Rightarrow> string \<Rightarrow> int option \<Rightarrow> int option \<Rightarrow> rat field \<Rightarrow>
   rat option \<Rightarrow> db \<Rightarrow> (error + nat) \<times> db" where
  "post_events authRole name description location startTime endTime capacity points d =
     (if ORDER authRole < ORDER Manager then (Inl Forbidden, d)
      else
        (case (startTime, endTime, points) of
           (Some st, Some et, Some p) \<Rightarrow>
             if name = [] \<or> description = [] \<or> location = []
                \<or> \<not> Number_isInteger p \<or> p \<le> 0
             then (Inl BadRequest, d)
             else if \<not> (et > st) then (Inl BadRequest, d)
             else
               (case capacity of
                  Bad \<Rightarrow> (Inl BadRequest, d)
                | Val c \<Rightarrow>
                    if c \<le> 0 then (Inl BadRequest, d)
                    else if \<not> Number_isInteger c then (Inl InternalError, d)
                    else
                      (Inr 201,
                       create_event
                         (new_event name description location st et (Some \<lfloor>c\<rfloor>) \<lfloor>p\<rfloor>) d)
                | Absent \<Rightarrow>
                    (Inr 201,
                     create_event (new_event name description location st et None \<lfloor>p\<rfloor>) d))
         | _ \<Rightarrow> (Inl BadRequest, d)))"

subsection \<open>Events: awards\<close>

definition guests_of :: "int \<Rightarrow> db \<Rightarrow> int list" where
  "guests_of eventId d = map snd (filter (\<lambda>g. fst g = eventId) (guests d))"

definition is_organizer :: "int \<Rightarrow> int \<Rightarrow> db \<Rightarrow> bool" where
  "is_organizer eventId userId d = ((eventId, userId) \<in> set (organizers d))"

definition is_guest :: "int \<Rightarrow> int \<Rightarrow> db \<Rightarrow> bool" where
  "is_guest eventId userId d = ((eventId, userId) \<in> set (guests d))"

text \<open>The row an award writes.\<close>

definition event_row :: "int \<Rightarrow> int \<Rightarrow> string \<Rightarrow> int \<Rightarrow> int \<Rightarrow> tx" where
  "event_row owner award remark eventId actor =
     \<lparr>t_id = 0, t_userId = owner, t_type = EventTx, t_amount = award, t_spent = None,
      t_remark = remark, t_suspicious = None, t_relatedId = Some eventId,
      t_createdById = actor, t_processedById = Some actor\<rparr>"

text \<open>
  The loop \<^verbatim>\<open>for (const g of guests)\<close> of the all-guests award: a row and a credit for
  each guest in turn; \<open>None\<close> when a guest's user row is missing, on which the block throws.
\<close>

fun award_guests :: "int list \<Rightarrow> int \<Rightarrow> string \<Rightarrow> int \<Rightarrow> int \<Rightarrow> db \<Rightarrow> db option" where
  "award_guests [] award remark eventId actor d = Some d"
| "award_guests (g # gs) award remark eventId actor d =
     (case find_user g d of
        None \<Rightarrow> None
      | Some u \<Rightarrow>
          award_guests gs award remark eventId actor
            (increment_points g award (create_tx (event_row g award remark eventId actor) d)))"

text \<open>
  \<^verbatim>\<open>event.update({ data: { pointsRemain: { decrement: n }, pointsAwarded: { increment: n } } })\<close>
\<close>

definition spend_budget :: "int \<Rightarrow> int \<Rightarrow> db \<Rightarrow> db" where
  "spend_budget eventId n d =
     update_event eventId
       (\<lambda>e. e\<lparr>e_pointsRemain := e_pointsRemain e - n, e_pointsAwarded := e_pointsAwarded e + n\<rparr>) d"

text \<open>
  \<^verbatim>\<open>POST /events/:id/transactions\<close>, backend lines 1727-1876. \<open>eventId\<close> is
  \<^verbatim>\<open>Number(req.params.id)\<close>, \<open>None\<close> when no integer; \<open>amount\<close> is \<^verbatim>\<open>Number(amount)\<close>,
  \<open>None\<close> when not finite; \<open>utorid\<close> is empty when the body has no non-empty string there,
  which selects the award to all guests. Every row written names the authenticated user
  as creator and processor, and the block rolls back when that user has no row. The
  handler reads neither the event's \<^verbatim>\<open>published\<close> flag nor its times, and calls no clock.
\<close>

definition post_events_id_transactions ::
  "role \<Rightarrow> int \<Rightarrow> int option \<Rightarrow> string \<Rightarrow> string \<Rightarrow> rat option \<Rightarrow> string \<Rightarrow> db \<Rightarrow>
   (error + nat) \<times> db" where
  "post_events_id_transactions authRole authId eventId type utorid amount remark d =
     (case eventId of
        None \<Rightarrow> (Inl NotFound, d)
      | Some eid \<Rightarrow>
          if eid \<le> 0 then (Inl NotFound, d)
          else if type \<noteq> ''event'' then (Inl BadRequest, d)
          else
            (case amount of
               None \<Rightarrow> (Inl BadRequest, d)
             | Some a \<Rightarrow>
                 if \<not> Number_isInteger a \<or> a \<le> 0 then (Inl BadRequest, d)
                 else
                   let award = \<lfloor>a\<rfloor> in
                   (case find_event eid d of
                      None \<Rightarrow> (Inl NotFound, d)
                    | Some e \<Rightarrow>
                        let isManager = (ORDER authRole \<ge> ORDER Manager);
                            isOrganizer = is_organizer eid authId d
                        in
                        if \<not> isManager \<and> \<not> isOrganizer then (Inl Forbidden, d)
                        else if utorid = [] then
                          let gs = guests_of eid d;
                              needed = award * int (length gs)
                          in
                          if e_pointsRemain e < needed then (Inl BadRequest, d)
                          else if length gs = 0 then (Inr 200, d)
                          else if \<not> user_exists authId d then (Inl InternalError, d)
                          else
                            (case award_guests gs award remark eid authId d of
                               None \<Rightarrow> (Inl InternalError, d)
                             | Some d1 \<Rightarrow> (Inr 200, spend_budget eid needed d1))
                        else
                          (case find_user_by_utorid utorid d of
                             None \<Rightarrow> (Inl NotFound, d)
                           | Some u \<Rightarrow>
                               if \<not> is_guest eid (u_id u) d then (Inl BadRequest, d)
                               else if e_pointsRemain e < award then (Inl BadRequest, d)
                               else if \<not> user_exists authId d then (Inl InternalError, d)
                               else
                                 let d1 = create_tx (event_row (u_id u) award remark eid authId) d;
                                     d2 = increment_points (u_id u) award d1
                                 in (Inr 201, spend_budget eid award d2)))))"

text \<open>
  The second copy, lines 1092-1149: the amount must be a positive number and is truncated
  by \<open>ceilInt\<close>, the body's \<^verbatim>\<open>allGuests\<close> selects the award to all guests, and a path
  parameter that is no integer makes the lookup of the event throw.
\<close>

definition post_events_id_transactions_p3 ::
  "role \<Rightarrow> int \<Rightarrow> int option \<Rightarrow> string \<Rightarrow> bool \<Rightarrow> rat option \<Rightarrow> string \<Rightarrow> db \<Rightarrow>
   (error + nat) \<times> db" where
  "post_events_id_transactions_p3 authRole authId eventId utorid allGuests amount remark d =
     (case amount of
        None \<Rightarrow> (Inl BadRequest, d)
      | Some a \<Rightarrow>
          if a \<le> 0 then (Inl BadRequest, d)
          else
            (case eventId of
               None \<Rightarrow> (Inl InternalError, d)
             | Some eid \<Rightarrow>
                 (case find_event eid d of
                    None \<Rightarrow> (Inl NotFound, d)
                  | Some e \<Rightarrow>
                      let isManager = (ORDER authRole \<ge> ORDER Manager);
                          isOrganizer = is_organizer eid authId d
                      in
                      if \<not> isManager \<and> \<not> isOrganizer then (Inl Forbidden, d)
                      else if allGuests then
                        let gs = guests_of eid d;
                            needed = ceilInt a * int (length gs)
                        in
                        if e_pointsRemain e < needed then (Inl BadRequest, d)
                        else if gs \<noteq> [] \<and> \<not> user_exists authId d then (Inl InternalError, d)
                        else
                          (case award_guests gs (ceilInt a) remark eid authId d of
                             None \<Rightarrow> (Inl InternalError, d)
                           | Some d1 \<Rightarrow> (Inr 200, spend_budget eid needed d1))
                      else if utorid = [] then (Inl BadRequest, d)
                      else
                        (case find_user_by_utorid utorid d of
                           None \<Rightarrow> (Inl NotFound, d)
                         | Some u \<Rightarrow>
                             if \<not> is_guest eid (u_id u) d then (Inl BadRequest, d)
                             else if e_pointsRemain e < ceilInt a then (Inl BadRequest, d)
                             else if \<not> user_exists authId d then (Inl InternalError, d)
                             else
                               let d1 = create_tx
                                          (event_row (u_id u) (ceilInt a) remark eid authId) d;
                                   d2 = increment_points (u_id u) (ceilInt a) d1
                               in (Inr 200, spend_budget eid (ceilInt a) d2)))))"

subsection \<open>Events: update\<close>

text \<open>
  \<^verbatim>\<open>PATCH /events/:id\<close>. The handler goes through the body's fields in a fixed order,
  fills the object \<^verbatim>\<open>data\<close> and returns at the first field it refuses. \<open>event_patch\<close>
  is the body, \<open>patch_data\<close> the object \<^verbatim>\<open>data\<close>.

  In the backend (lines 1327-1478) a field is \<open>Absent\<close> when the key is missing or its
  value is null, and \<open>b_capacity\<close> is never \<open>Val None\<close>. In the second copy (lines
  858-939) a field is \<open>Absent\<close> only when the key is missing; \<open>b_published\<close> is \<open>Val\<close> of
  the flag the handler computes, \<open>b_capacity\<close> is \<open>Val None\<close> for a null, and a name,
  description or location that is no string is \<open>Bad\<close>, which the handler hands to the
  store, where the update throws.
\<close>

record event_patch =
  b_published :: "bool field"
  b_name :: "string field"
  b_description :: "string field"
  b_location :: "string field"
  b_startTime :: "int field"
  b_endTime :: "int field"
  b_capacity :: "rat option field"
  b_points :: "rat field"

record patch_data =
  d_published :: "bool option"
  d_name :: "string field"
  d_description :: "string field"
  d_location :: "string field"
  d_startTime :: "int option"
  d_endTime :: "int option"
  d_capacity :: "rat option option"
  d_pointsTotal :: "int option"
  d_pointsRemain :: "int option"

definition empty_data :: patch_data where
  "empty_data =
     \<lparr>d_published = None, d_name = Absent, d_description = Absent, d_location = Absent,
      d_startTime = None, d_endTime = None, d_capacity = None, d_pointsTotal = None,
      d_pointsRemain = None\<rparr>"

fun and_then :: "error + 'a \<Rightarrow> ('a \<Rightarrow> error + 'b) \<Rightarrow> error + 'b" where
  "and_then (Inl e) f = Inl e"
| "and_then (Inr x) f = f x"

definition step_published :: "bool \<Rightarrow> bool field \<Rightarrow> patch_data \<Rightarrow> error + patch_data" where
  "step_published isManager f dt =
     (case f of
        Absent \<Rightarrow> Inr dt
      | Bad \<Rightarrow> if \<not> isManager then Inl Forbidden else Inl BadRequest
      | Val pv \<Rightarrow>
          if \<not> isManager then Inl Forbidden
          else if \<not> pv then Inl BadRequest
          else Inr (dt\<lparr>d_published := Some True\<rparr>))"

definition step_name :: "bool \<Rightarrow> string field \<Rightarrow> patch_data \<Rightarrow> error + patch_data" where
  "step_name afterStart f dt =
     (case f of
        Absent \<Rightarrow> Inr dt
      | Bad \<Rightarrow> Inl BadRequest
      | Val s \<Rightarrow>
          if afterStart then Inl BadRequest
          else if s = [] then Inl BadRequest
          else Inr (dt\<lparr>d_name := Val s\<rparr>))"

definition step_description :: "bool \<Rightarrow> string field \<Rightarrow> patch_data \<Rightarrow> error + patch_data" where
  "step_description afterStart f dt =
     (case f of
        Absent \<Rightarrow> Inr dt
      | Bad \<Rightarrow> Inl BadRequest
      | Val s \<Rightarrow>
          if afterStart then Inl BadRequest
          else Inr (dt\<lparr>d_description := Val s\<rparr>))"

definition step_location :: "bool \<Rightarrow> string field \<Rightarrow> patch_data \<Rightarrow> error + patch_data" where
  "step_location afterStart f dt =
     (case f of
        Absent \<Rightarrow> Inr dt
      | Bad \<Rightarrow> Inl BadRequest
      | Val s \<Rightarrow>
          if afterStart then Inl BadRequest
          else if s = [] then Inl BadRequest
          else Inr (dt\<lparr>d_location := Val s\<rparr>))"

definition step_startTime :: "bool \<Rightarrow> int \<Rightarrow> int field \<Rightarrow> patch_data \<Rightarrow> error + patch_data" where
  "step_startTime afterStart now f dt =
     (case f of
        Absent \<Rightarrow> Inr dt
      | Bad \<Rightarrow> Inl BadRequest
      | Val st \<Rightarrow>
          if afterStart then Inl BadRequest
          else if \<not> (st > now) then Inl BadRequest
          else Inr (dt\<lparr>d_startTime := Some st\<rparr>))"

definition step_endTime :: "bool \<Rightarrow> event \<Rightarrow> int field \<Rightarrow> patch_data \<Rightarrow> error + patch_data" where
  "step_endTime afterEnd e f dt =
     (case f of
        Absent \<Rightarrow> Inr dt
      | Bad \<Rightarrow> Inl BadRequest
      | Val et \<Rightarrow>
          if afterEnd then Inl BadRequest
          else
            let stBase = (case d_startTime dt of Some st \<Rightarrow> st | None \<Rightarrow> e_startTime e) in
            if \<not> (et > stBase) then Inl BadRequest
            else Inr (dt\<lparr>d_endTime := Some et\<rparr>))"

definition step_capacity ::
  "bool \<Rightarrow> nat \<Rightarrow> rat option field \<Rightarrow> patch_data \<Rightarrow> error + patch_data" where
  "step_capacity afterStart numGuests f dt =
     (case f of
        Absent \<Rightarrow> Inr dt
      | Bad \<Rightarrow> Inl BadRequest
      | Val None \<Rightarrow> Inr dt
      | Val (Some newCap) \<Rightarrow>
          if afterStart then Inl BadRequest
          else if newCap \<le> 0 then Inl BadRequest
          else if newCap < of_nat numGuests then Inl BadRequest
          else Inr (dt\<lparr>d_capacity := Some (Some newCap)\<rparr>))"

text \<open>The branch \<^verbatim>\<open>points\<close>: backend lines 1451-1467, second copy lines 923-933.\<close>

definition step_points :: "bool \<Rightarrow> event \<Rightarrow> rat field \<Rightarrow> patch_data \<Rightarrow> error + patch_data" where
  "step_points isManager e f dt =
     (case f of
        Absent \<Rightarrow> Inr dt
      | Bad \<Rightarrow> if \<not> isManager then Inl Forbidden else Inl BadRequest
      | Val raw \<Rightarrow>
          if \<not> isManager then Inl Forbidden
          else if \<not> Number_isInteger raw \<or> raw \<le> 0 then Inl BadRequest
          else
            let newTotal = \<lfloor>raw\<rfloor>;
                delta = newTotal - e_pointsTotal e
            in
            if e_pointsRemain e + delta < 0 then Inl BadRequest
            else Inr (dt\<lparr>d_pointsTotal := Some newTotal,
                         d_pointsRemain := Some (e_pointsRemain e + delta)\<rparr>))"

text \<open>The second copy's steps that differ.\<close>

definition step_text_p3 ::
  "bool \<Rightarrow> string field \<Rightarrow> (string field \<Rightarrow> patch_data \<Rightarrow> patch_data) \<Rightarrow> patch_data \<Rightarrow>
   error + patch_data" where
  "step_text_p3 afterStart f put dt =
     (case f of
        Absent \<Rightarrow> Inr dt
      | _ \<Rightarrow> if afterStart then Inl BadRequest else Inr (put f dt))"

definition step_capacity_p3 ::
  "bool \<Rightarrow> event \<Rightarrow> nat \<Rightarrow> rat option field \<Rightarrow> patch_data \<Rightarrow> error + patch_data" where
  "step_capacity_p3 afterStart e numGuests f dt =
     (case f of
        Absent \<Rightarrow> Inr dt
      | Bad \<Rightarrow> Inl BadRequest
      | Val None \<Rightarrow>
          if afterStart then Inl BadRequest
          else if e_capacity e \<noteq> None then Inl BadRequest
          else Inr (dt\<lparr>d_capacity := Some None\<rparr>)
      | Val (Some newCap) \<Rightarrow>
          if afterStart then Inl BadRequest
          else if newCap \<le> 0 then Inl BadRequest
          else if newCap < of_nat numGuests then Inl BadRequest
          else Inr (dt\<lparr>d_capacity := Some (Some newCap)\<rparr>))"

text \<open>What \<^verbatim>\<open>event.update\<close> accepts: strings for the text columns, an integer capacity.\<close>

definition storable :: "patch_data \<Rightarrow> bool" where
  "storable dt =
     (d_name dt \<noteq> Bad \<and> d_description dt \<noteq> Bad \<and> d_location dt \<noteq> Bad \<and>
      (case d_capacity dt of Some (Some c) \<Rightarrow> Number_isInteger c | _ \<Rightarrow> True))"

definition apply_patch :: "patch_data \<Rightarrow> event \<Rightarrow> event" where
  "apply_patch dt e =
     e\<lparr>e_published := (case d_published dt of Some b \<Rightarrow> b | None \<Rightarrow> e_published e),
       e_name := (case d_name dt of Val s \<Rightarrow> s | _ \<Rightarrow> e_name e),
       e_description := (case d_description dt of Val s \<Rightarrow> s | _ \<Rightarrow> e_description e),
       e_location := (case d_location dt of Val s \<Rightarrow> s | _ \<Rightarrow> e_location e),
       e_startTime := (case d_startTime dt of Some t \<Rightarrow> t | None \<Rightarrow> e_startTime e),
       e_endTime := (case d_endTime dt of Some t \<Rightarrow> t | None \<Rightarrow> e_endTime e),
       e_capacity := (case d_capacity dt of
                        Some c \<Rightarrow> map_option floor c | None \<Rightarrow> e_capacity e),
       e_pointsTotal := (case d_pointsTotal dt of Some n \<Rightarrow> n | None \<Rightarrow> e_pointsTotal e),
       e_pointsRemain := (case d_pointsRemain dt of Some n \<Rightarrow> n | None \<Rightarrow> e_pointsRemain e)\<rparr>"

definition patch_fields ::
  "bool \<Rightarrow> event \<Rightarrow> nat \<Rightarrow> int \<Rightarrow> event_patch \<Rightarrow> error + patch_data" where
  "patch_fields isManager e numGuests now body =
     (let afterStart = (e_startTime e \<le> now);
          afterEnd = (e_endTime e < now)
      in
      and_then (step_published isManager (b_published body) empty_data) (\<lambda>d1.
      and_then (step_name afterStart (b_name body) d1) (\<lambda>d2.
      and_then (step_description afterStart (b_description body) d2) (\<lambda>d3.
      and_then (step_location afterStart (b_location body) d3) (\<lambda>d4.
      and_then (step_startTime afterStart now (b_startTime body) d4) (\<lambda>d5.
      and_then (step_endTime afterEnd e (b_endTime body) d5) (\<lambda>d6.
      and_then (step_capacity afterStart numGuests (b_capacity body) d6) (\<lambda>d7.
      step_points isManager e (b_points body) d7))))))))"

definition patch_fields_p3 ::
  "bool \<Rightarrow> event \<Rightarrow> nat \<Rightarrow> int \<Rightarrow> event_patch \<Rightarrow> error + patch_data" where
  "patch_fields_p3 isManager e numGuests now body =
     (let afterStart = (e_startTime e \<le> now);
          afterEnd = (e_endTime e < now)
      in
      and_then (step_published isManager (b_published body) empty_data) (\<lambda>d1.
      and_then (step_text_p3 afterStart (b_name body) (\<lambda>v r. r\<lparr>d_name := v\<rparr>) d1) (\<lambda>d2.
      and_then (step_text_p3 afterStart (b_description body)
                  (\<lambda>v r. r\<lparr>d_description := v\<rparr>) d2) (\<lambda>d3.
      and_then (step_text_p3 afterStart (b_location body) (\<lambda>v r. r\<lparr>d_location := v\<rparr>) d3) (\<lambda>d4.
      and_then (step_startTime afterStart now (b_startTime body) d4) (\<lambda>d5.
      and_then (step_endTime afterEnd e (b_endTime body) d5) (\<lambda>d6.
      and_then (step_capacity_p3 afterStart e numGuests (b_capacity body) d6) (\<lambda>d7.
      step_points isManager e (b_points body) d7))))))))"

definition patch_events_id ::
  "role \<Rightarrow> int \<Rightarrow> int option \<Rightarrow> event_patch \<Rightarrow> int \<Rightarrow> db \<Rightarrow> (error + nat) \<times> db" where
  "patch_events_id authRole authId eventId body now d =
     (case eventId of
        None \<Rightarrow> (Inl NotFound, d)
      | Some eid \<Rightarrow>
          if eid \<le> 0 then (Inl NotFound, d)
          else
            (case find_event eid d of
               None \<Rightarrow> (Inl NotFound, d)
             | Some e \<Rightarrow>
                 let isManager = (ORDER authRole \<ge> ORDER Manager);
                     isOrganizer = is_organizer eid authId d
                 in
                 if \<not> isManager \<and> \<not> isOrganizer then (Inl Forbidden, d)
                 else
                   (case patch_fields isManager e (length (guests_of eid d)) now body of
                      Inl err \<Rightarrow> (Inl err, d)
                    | Inr dt \<Rightarrow>
                        if dt = empty_data then (Inl BadRequest, d)
                        else if \<not> storable dt then (Inl InternalError, d)
                        else (Inr 200, update_event eid (apply_patch dt) d))))"

definition patch_events_id_p3 ::
  "role \<Rightarrow> int \<Rightarrow> int option \<Rightarrow> event_patch \<Rightarrow> int \<Rightarrow> db \<Rightarrow> (error + nat) \<times> db" where
  "patch_events_id_p3 authRole authId eventId body now d =
     (case eventId of
        None \<Rightarrow> (Inl InternalError, d)
      | Some eid \<Rightarrow>
          (case find_event eid d of
             None \<Rightarrow> (Inl NotFound, d)
           | Some e \<Rightarrow>
               let isManager = (ORDER authRole \<ge> ORDER Manager);
                   isOrganizer = is_organizer eid authId d
               in
               if \<not> isManager \<and> \<not> isOrganizer then (Inl Forbidden, d)
               else
                 (case patch_fields_p3 isManager e (length (guests_of eid d)) now body of
                    Inl err \<Rightarrow> (Inl err, d)
                  | Inr dt \<Rightarrow>
                      if dt = empty_data then (Inl BadRequest, d)
                      else if \<not> storable dt then (Inl InternalError, d)
                      else (Inr 200, update_event eid (apply_patch dt) d))))"

subsection \<open>Purchases and adjustments\<close>

text \<open>
  The body of \<^verbatim>\<open>POST /transactions\<close>. \<open>r_spent\<close> is \<^verbatim>\<open>Number(spent)\<close> and \<open>None\<close> when
  the field is null or that number is not finite; \<open>r_amount\<close> is \<open>None\<close> when the field is
  no number; \<open>r_promotionIds\<close> is \<open>None\<close> when the field is no array, and an element is
  \<open>None\<close> when it is null, the empty string or no number, else its \<^verbatim>\<open>Number(raw)\<close>;
  \<open>r_relatedId\<close> is \<open>Absent\<close> for null, \<open>Bad\<close> when \<^verbatim>\<open>Number(relatedId)\<close> is not finite;
  \<open>r_suspicious\<close> says that the body's flag is \<^verbatim>\<open>true\<close> (truthy, in the second copy).
\<close>

record tx_body =
  r_type :: string
  r_utorid :: string
  r_spent :: "rat option"
  r_amount :: "rat option"
  r_remark :: string
  r_promotionIds :: "rat option list option"
  r_relatedId :: "rat field"
  r_suspicious :: bool

text \<open>\<^verbatim>\<open>const isActivePromo = (p) => p.startTime <= now() && p.endTime >= now();\<close>\<close>

definition isActivePromo :: "int \<Rightarrow> promotion \<Rightarrow> bool" where
  "isActivePromo now p = (p_startTime p \<le> now \<and> p_endTime p \<ge> now)"

text \<open>\<^verbatim>\<open>oneTimeMap.get(pid)\<close>: of two entries under one key a \<^verbatim>\<open>Map\<close> keeps the later.\<close>

definition oneTimeMap_get :: "promotion list \<Rightarrow> int \<Rightarrow> promotion option" where
  "oneTimeMap_get onetime pid = find (\<lambda>p. p_id p = pid) (rev onetime)"

definition usedSet :: "int \<Rightarrow> db \<Rightarrow> int list" where
  "usedSet userId d = map snd (filter (\<lambda>r. fst r = userId) (usages d))"

text \<open>The loop over \<^verbatim>\<open>promotionIds\<close> that fills \<^verbatim>\<open>chosenOneTime\<close>.\<close>

fun choose_onetime :: "promotion list \<Rightarrow> int list \<Rightarrow> rat option list \<Rightarrow> error + promotion list" where
  "choose_onetime onetime used [] = Inr []"
| "choose_onetime onetime used (raw # raws) =
     (case raw of
        None \<Rightarrow> Inl BadRequest
      | Some pid \<Rightarrow>
          if \<not> Number_isInteger pid \<or> pid \<le> 0 then Inl BadRequest
          else
            (case oneTimeMap_get onetime \<lfloor>pid\<rfloor> of
               None \<Rightarrow> Inl BadRequest
             | Some p \<Rightarrow>
                 if \<lfloor>pid\<rfloor> \<in> set used then Inl BadRequest
                 else and_then (choose_onetime onetime used raws) (\<lambda>ps. Inr (p # ps))))"

text \<open>\<^verbatim>\<open>p.minSpending != null && spentNum < Number(p.minSpending)\<close>\<close>

definition below_minSpending :: "rat \<Rightarrow> promotion \<Rightarrow> bool" where
  "below_minSpending spent p =
     (case p_minSpending p of None \<Rightarrow> False | Some m \<Rightarrow> less_d spent m)"

text \<open>
  One of the two loops that add to \<^verbatim>\<open>extra\<close>, backend lines 1957-1966: the rate bonus is
  \<^verbatim>\<open>Math.round(spentNum * 100 * Number(p.rate))\<close>, two products of doubles from the left.
\<close>

fun add_extras :: "rat \<Rightarrow> promotion list \<Rightarrow> int \<Rightarrow> int" where
  "add_extras spent [] extra = extra"
| "add_extras spent (p # ps) extra =
     (if below_minSpending spent p then add_extras spent ps extra
      else
        let e1 = (case p_rate p of
                    None \<Rightarrow> extra
                  | Some r \<Rightarrow> extra + Math_round (times_d (times_d spent 100) r));
            e2 = (case p_points p of None \<Rightarrow> e1 | Some n \<Rightarrow> e1 + n)
        in add_extras spent ps e2)"

text \<open>
  The same loops in the second copy, lines 1212-1221: the rate bonus is
  \<^verbatim>\<open>Math.round(base * Number(p.rate))\<close>.
\<close>

fun add_extras_p3 :: "rat \<Rightarrow> int \<Rightarrow> promotion list \<Rightarrow> int \<Rightarrow> int" where
  "add_extras_p3 spent base [] extra = extra"
| "add_extras_p3 spent base (p # ps) extra =
     (if below_minSpending spent p then add_extras_p3 spent base ps extra
      else
        let e1 = (case p_rate p of
                    None \<Rightarrow> extra
                  | Some r \<Rightarrow> extra + Math_round (times_d (of_int base) r));
            e2 = (case p_points p of None \<Rightarrow> e1 | Some n \<Rightarrow> e1 + n)
        in add_extras_p3 spent base ps e2)"

text \<open>
  The value of \<^verbatim>\<open>earned\<close> in the second copy, lines 1209-1222: the base points, the loop
  over the automatic promotions, the loop over the chosen ones, and the sum.
\<close>

definition purchase_earned_p3 :: "rat \<Rightarrow> promotion list \<Rightarrow> promotion list \<Rightarrow> int" where
  "purchase_earned_p3 spent automatic chosenOneTime =
     (let base = basePoints spent;
          extra = add_extras_p3 spent base chosenOneTime (add_extras_p3 spent base automatic 0)
      in base + extra)"

text \<open>
  \<^verbatim>\<open>transactionPromotion.create\<close> for each promotion: the pair (transaction, promotion) is
  the table's primary key, and a second row under one key throws (\<open>None\<close>).
\<close>

fun create_txPromotions :: "int \<Rightarrow> promotion list \<Rightarrow> db \<Rightarrow> db option" where
  "create_txPromotions transactionId [] d = Some d"
| "create_txPromotions transactionId (p # ps) d =
     (if (transactionId, p_id p) \<in> set (txPromotions d) then None
      else create_txPromotions transactionId ps
             (d\<lparr>txPromotions := txPromotions d @ [(transactionId, p_id p)]\<rparr>))"

text \<open>\<^verbatim>\<open>userPromotionUsage.upsert\<close>: one row for each pair (user, promotion).\<close>

definition upsert_usage :: "int \<Rightarrow> int \<Rightarrow> db \<Rightarrow> db" where
  "upsert_usage userId promotionId d =
     (if (userId, promotionId) \<in> set (usages d) then d
      else d\<lparr>usages := usages d @ [(userId, promotionId)]\<rparr>)"

fun mark_used :: "int \<Rightarrow> promotion list \<Rightarrow> db \<Rightarrow> db" where
  "mark_used userId [] d = d"
| "mark_used userId (p # ps) d =
     (if p_type p = Onetime then mark_used userId ps (upsert_usage userId (p_id p) d)
      else mark_used userId ps d)"

text \<open>
  The second copy's single loop over \<^verbatim>\<open>[...automatic, ...chosenOneTime]\<close>, lines 1237-1248:
  the association row, then the usage row when the promotion is one-time.
\<close>

fun link_promotions_p3 :: "int \<Rightarrow> int \<Rightarrow> promotion list \<Rightarrow> db \<Rightarrow> db option" where
  "link_promotions_p3 transactionId userId [] d = Some d"
| "link_promotions_p3 transactionId userId (p # ps) d =
     (if (transactionId, p_id p) \<in> set (txPromotions d) then None
      else
        let d1 = d\<lparr>txPromotions := txPromotions d @ [(transactionId, p_id p)]\<rparr>;
            d2 = (if p_type p = Onetime then upsert_usage userId (p_id p) d1 else d1)
        in link_promotions_p3 transactionId userId ps d2)"

text \<open>
  The branch \<^verbatim>\<open>type === 'purchase'\<close>, backend lines 1886-2025. The row names the
  authenticated user as creator and processor; the block rolls back when that user has no
  row.
\<close>

definition purchase :: "role \<Rightarrow> int \<Rightarrow> tx_body \<Rightarrow> int \<Rightarrow> db \<Rightarrow> (error + nat) \<times> db" where
  "purchase authRole authId body now d =
     (if ORDER authRole < ORDER Cashier then (Inl Forbidden, d)
      else if r_utorid body = [] then (Inl BadRequest, d)
      else
        (case r_spent body of
           None \<Rightarrow> (Inl BadRequest, d)
         | Some spentNum \<Rightarrow>
             if spentNum < 0 then (Inl BadRequest, d)
             else
               (case r_promotionIds body of
                  None \<Rightarrow> (Inl BadRequest, d)
                | Some promotionIds \<Rightarrow>
                    (case find_user_by_utorid (r_utorid body) d of
                       None \<Rightarrow> (Inl NotFound, d)
                     | Some user \<Rightarrow>
                         let cashierSuspicious =
                               (case find_user authId d of
                                  None \<Rightarrow> False
                                | Some cashier \<Rightarrow> u_suspicious cashier);
                             bodySuspicious = r_suspicious body;
                             effectiveSuspicious = (cashierSuspicious \<or> bodySuspicious);
                             active = filter (isActivePromo now) (promotions d);
                             automatic = filter (\<lambda>p. p_type p = Automatic) active;
                             onetime = filter (\<lambda>p. p_type p = Onetime) active
                         in
                         (case choose_onetime onetime (usedSet (u_id user) d) promotionIds of
                            Inl err \<Rightarrow> (Inl err, d)
                          | Inr chosenOneTime \<Rightarrow>
                              let base = basePoints spentNum;
                                  extra = add_extras spentNum chosenOneTime
                                            (add_extras spentNum automatic 0);
                                  earned = base + extra;
                                  allPromos = automatic @ chosenOneTime;
                                  d1 = create_tx
                                         \<lparr>t_id = 0, t_userId = u_id user, t_type = Purchase,
                                          t_amount = earned, t_spent = Some spentNum,
                                          t_remark = r_remark body,
                                          t_suspicious = Some effectiveSuspicious,
                                          t_relatedId = None, t_createdById = authId,
                                          t_processedById = Some authId\<rparr> d
                              in
                              if \<not> user_exists authId d then (Inl InternalError, d)
                              else
                                (case create_txPromotions (tx_seq d) allPromos d1 of
                                   None \<Rightarrow> (Inl InternalError, d)
                                 | Some d2 \<Rightarrow>
                                     let d3 = mark_used (u_id user) chosenOneTime d2;
                                         d4 = (if \<not> effectiveSuspicious \<and> earned \<noteq> 0
                                               then increment_points (u_id user) earned d3
                                               else d3)
                                     in (Inr 201, d4)))))))"

text \<open>
  The same branch in the second copy, lines 1158-1273: the row's amount is the truncated
  spend, the points earned go to a key \<^verbatim>\<open>earned\<close> of the data, and the credit is not
  guarded. \<^verbatim>\<open>Transaction\<close> has no column \<^verbatim>\<open>earned\<close>, so the creation of the row throws.
\<close>

definition purchase_p3 :: "role \<Rightarrow> int \<Rightarrow> tx_body \<Rightarrow> int \<Rightarrow> db \<Rightarrow> (error + nat) \<times> db" where
  "purchase_p3 authRole authId body now d =
     (if ORDER authRole < ORDER Cashier then (Inl Forbidden, d)
      else if r_utorid body = [] then (Inl BadRequest, d)
      else
        (case r_spent body of
           None \<Rightarrow> (Inl BadRequest, d)
         | Some spent \<Rightarrow>
             if spent < 0 then (Inl BadRequest, d)
             else
               (case r_promotionIds body of
                  None \<Rightarrow> (Inl BadRequest, d)
                | Some promotionIds \<Rightarrow>
                    (case find_user_by_utorid (r_utorid body) d of
                       None \<Rightarrow> (Inl NotFound, d)
                     | Some user \<Rightarrow>
                         let active = filter (isActivePromo now) (promotions d);
                             automatic = filter (\<lambda>p. p_type p = Automatic) active;
                             onetime = filter (\<lambda>p. p_type p = Onetime) active
                         in
                         (case choose_onetime onetime (usedSet (u_id user) d) promotionIds of
                            Inl err \<Rightarrow> (Inl err, d)
                          | Inr chosenOneTime \<Rightarrow>
                              let earned = purchase_earned_p3 spent automatic chosenOneTime;
                                  d1 = create_tx
                                         \<lparr>t_id = 0, t_userId = u_id user, t_type = Purchase,
                                          t_amount = Math_trunc spent, t_spent = None,
                                          t_remark = r_remark body,
                                          t_suspicious = Some (r_suspicious body),
                                          t_relatedId = None, t_createdById = authId,
                                          t_processedById = None\<rparr> d
                              in
                              if \<not> known_columns
                                     [''userId'', ''type'', ''amount'', ''earned'', ''remark'',
                                      ''suspicious'', ''createdById'']
                                 \<or> \<not> user_exists authId d
                              then (Inl InternalError, d)
                              else
                                (case link_promotions_p3 (tx_seq d) (u_id user)
                                        (automatic @ chosenOneTime) d1 of
                                   None \<Rightarrow> (Inl InternalError, d)
                                 | Some d2 \<Rightarrow>
                                     let d3 = increment_points (u_id user) earned d2;
                                         d4 = update_tx (tx_seq d)
                                                (\<lambda>r. r\<lparr>t_processedById := Some authId\<rparr>) d3
                                     in (Inr (if r_suspicious body then 201 else 200), d4)))))))"

text \<open>
  The writes of an adjustment, backend lines 2067-2093: the row, its processor, and the
  balance delta unless the row is suspicious.
\<close>

definition commit_adjustment ::
  "int \<Rightarrow> user \<Rightarrow> int \<Rightarrow> string \<Rightarrow> int option \<Rightarrow> bool \<Rightarrow> db \<Rightarrow> db" where
  "commit_adjustment authId user intAmount remark relIdNum effectiveSuspicious d =
     (let d1 = create_tx
                 \<lparr>t_id = 0, t_userId = u_id user, t_type = Adjustment, t_amount = intAmount,
                  t_spent = None, t_remark = remark,
                  t_suspicious = Some effectiveSuspicious, t_relatedId = relIdNum,
                  t_createdById = authId, t_processedById = None\<rparr> d;
          d2 = update_tx (tx_seq d) (\<lambda>r. r\<lparr>t_processedById := Some authId\<rparr>) d1
      in if \<not> effectiveSuspicious \<and> intAmount \<noteq> 0
         then increment_points (u_id user) intAmount d2
         else d2)"

text \<open>
  The branch \<^verbatim>\<open>type === 'adjustment'\<close>, backend lines 2027-2108. A related id that is no
  integer makes the store throw: at the lookup when it is finite, at the creation of the
  row otherwise. So does an authenticated user without a row, whom the row names as
  creator.
\<close>

definition adjustment :: "role \<Rightarrow> int \<Rightarrow> tx_body \<Rightarrow> db \<Rightarrow> (error + nat) \<times> db" where
  "adjustment authRole authId body d =
     (if ORDER authRole < ORDER Manager then (Inl Forbidden, d)
      else if r_utorid body = [] then (Inl BadRequest, d)
      else
        (case r_amount body of
           None \<Rightarrow> (Inl BadRequest, d)
         | Some amount \<Rightarrow>
             (case find_user_by_utorid (r_utorid body) d of
                None \<Rightarrow> (Inl NotFound, d)
              | Some user \<Rightarrow>
                  let cashierSuspicious =
                        (case find_user authId d of
                           None \<Rightarrow> False
                         | Some cashier \<Rightarrow> u_suspicious cashier);
                      bodySuspicious = r_suspicious body;
                      effectiveSuspicious = (cashierSuspicious \<or> bodySuspicious);
                      intAmount = Math_trunc amount
                  in
                  (case r_relatedId body of
                     Absent \<Rightarrow>
                       if \<not> user_exists authId d then (Inl InternalError, d)
                       else
                         (Inr 201,
                          commit_adjustment authId user intAmount (r_remark body) None
                            effectiveSuspicious d)
                   | Bad \<Rightarrow> (Inl InternalError, d)
                   | Val relIdNum \<Rightarrow>
                       if \<not> Number_isInteger relIdNum then (Inl InternalError, d)
                       else
                         (case find_tx \<lfloor>relIdNum\<rfloor> d of
                            None \<Rightarrow> (Inl NotFound, d)
                          | Some relTx \<Rightarrow>
                              if t_userId relTx \<noteq> u_id user then (Inl NotFound, d)
                              else if \<not> user_exists authId d then (Inl InternalError, d)
                              else
                                (Inr 201,
                                 commit_adjustment authId user intAmount (r_remark body)
                                   (Some \<lfloor>relIdNum\<rfloor>) effectiveSuspicious d))))))"

text \<open>
  The same branch in the second copy, lines 1275-1329: no look at the actor's own flag,
  no check of the related id, and the balance delta is not guarded.
\<close>

definition adjustment_p3 :: "role \<Rightarrow> int \<Rightarrow> tx_body \<Rightarrow> db \<Rightarrow> (error + nat) \<times> db" where
  "adjustment_p3 authRole authId body d =
     (if ORDER authRole < ORDER Manager then (Inl Forbidden, d)
      else if r_utorid body = [] then (Inl BadRequest, d)
      else
        (case r_amount body of
           None \<Rightarrow> (Inl BadRequest, d)
         | Some amount \<Rightarrow>
             (case find_user_by_utorid (r_utorid body) d of
                None \<Rightarrow> (Inl NotFound, d)
              | Some user \<Rightarrow>
                  (case (case r_relatedId body of
                           Absent \<Rightarrow> Some None
                         | Bad \<Rightarrow> None
                         | Val q \<Rightarrow> if Number_isInteger q then Some (Some \<lfloor>q\<rfloor>) else None) of
                     None \<Rightarrow> (Inl InternalError, d)
                   | Some relatedId \<Rightarrow>
                       if \<not> user_exists authId d then (Inl InternalError, d)
                       else
                       let d1 = create_tx
                                  \<lparr>t_id = 0, t_userId = u_id user, t_type = Adjustment,
                                   t_amount = Math_trunc amount, t_spent = None,
                                   t_remark = r_remark body,
                                   t_suspicious = Some (r_suspicious body),
                                   t_relatedId = relatedId, t_createdById = authId,
                                   t_processedById = None\<rparr> d;
                           d2 = update_tx (tx_seq d)
                                  (\<lambda>r. r\<lparr>t_processedById := Some authId\<rparr>) d1;
                           d3 = increment_points (u_id user) (Math_trunc amount) d2
                       in (Inr 201, d3)))))"

text \<open>\<^verbatim>\<open>POST /transactions\<close>: the dispatch on the body's type.\<close>

definition post_transactions ::
  "role \<Rightarrow> int \<Rightarrow> tx_body \<Rightarrow> int \<Rightarrow> db \<Rightarrow> (error + nat) \<times> db" where
  "post_transactions authRole authId body now d =
     (if r_type body \<noteq> ''purchase'' \<and> r_type body \<noteq> ''adjustment'' then (Inl BadRequest, d)
      else if r_type body = ''purchase'' then purchase authRole authId body now d
      else adjustment authRole authId body d)"

definition post_transactions_p3 ::
  "role \<Rightarrow> int \<Rightarrow> tx_body \<Rightarrow> int \<Rightarrow> db \<Rightarrow> (error + nat) \<times> db" where
  "post_transactions_p3 authRole authId body now d =
     (if r_type body \<noteq> ''purchase'' \<and> r_type body \<noteq> ''adjustment'' then (Inl BadRequest, d)
      else if r_type body = ''purchase'' then purchase_p3 authRole authId body now d
      else adjustment_p3 authRole authId body d)"

subsection \<open>A store to run the handlers on\<close>

definition example_db :: db where
  "example_db =
     \<lparr>users =
        [\<lparr>u_id = 1, u_utorid = ''alice001'', u_points = 100, u_verified = True,
          u_suspicious = False\<rparr>,
         \<lparr>u_id = 2, u_utorid = ''bobby002'', u_points = 10, u_verified = True,
          u_suspicious = False\<rparr>,
         \<lparr>u_id = 3, u_utorid = ''carol003'', u_points = 50, u_verified = False,
          u_suspicious = True\<rparr>],
      transactions = [], promotions = [], usages = [], txPromotions = [], events = [],
      organizers = [], guests = [], tx_seq = 1, event_seq = 1\<rparr>"

text \<open>The row a transfer writes: key, owner, counterparty, amount, sender, remark.\<close>

definition transfer_row :: "int \<Rightarrow> int \<Rightarrow> int \<Rightarrow> int \<Rightarrow> int \<Rightarrow> string \<Rightarrow> tx" where
  "transfer_row k owner other amt sender remark =
     \<lparr>t_id = k, t_userId = owner, t_type = Transfer, t_amount = amt, t_spent = None,
      t_remark = remark, t_suspicious = None, t_relatedId = Some other,
      t_createdById = sender, t_processedById = Some sender\<rparr>"

text \<open>
  A store with two pending redemptions (one as the backend writes it, one as the second
  copy does), a purchase, two promotions, and an event that is unpublished and has ended at time 1000,
  with two guests and one organizer.
\<close>

definition example_shop :: db where
  "example_shop =
     example_db
       \<lparr>transactions :=
          [\<lparr>t_id = 1, t_userId = 1, t_type = Redemption, t_amount = 40, t_spent = None,
            t_remark = [], t_suspicious = None, t_relatedId = None,
            t_createdById = 1, t_processedById = None\<rparr>,
           \<lparr>t_id = 2, t_userId = 2, t_type = Redemption, t_amount = - 10, t_spent = None,
            t_remark = [], t_suspicious = None, t_relatedId = None,
            t_createdById = 2, t_processedById = None\<rparr>,
           \<lparr>t_id = 3, t_userId = 2, t_type = Purchase, t_amount = 8, t_spent = Some 2,
            t_remark = [], t_suspicious = Some False, t_relatedId = None,
            t_createdById = 3, t_processedById = Some 3\<rparr>],
        promotions :=
          [\<lparr>p_id = 1, p_type = Automatic, p_startTime = 0, p_endTime = 5000,
            p_minSpending = None, p_rate = Some (1 / 2), p_points = None\<rparr>,
           \<lparr>p_id = 2, p_type = Onetime, p_startTime = 0, p_endTime = 5000,
            p_minSpending = Some 50, p_rate = None, p_points = Some 100\<rparr>],
        events :=
          [\<lparr>e_id = 1, e_name = ''Fair'', e_description = ''Club fair'', e_location = ''Hall'',
            e_startTime = 500, e_endTime = 1000, e_capacity = None, e_published = False,
            e_pointsTotal = 100, e_pointsRemain = 100, e_pointsAwarded = 0\<rparr>],
        organizers := [(1, 3)],
        guests := [(1, 1), (1, 2)],
        tx_seq := 4,
        event_seq := 2\<rparr>"

subsection \<open>Requests in sequence\<close>

text \<open>
  A request to one of the handlers above, and the store it leaves. The handlers for
  organizers, guests, users and promotions are not embedded.
\<close>

datatype request =
    R_transfer int "int option" string "rat option" string
  | R_redeem int string "rat option" string
  | R_redeem_p3 int string "rat option" string
  | R_process role int "int option"
  | R_process_p3 role int "int option"
  | R_suspicious role "int option" "bool option"
  | R_event_create role string string string "int option" "int option" "rat field" "rat option"
  | R_award role int "int option" string string "rat option" string
  | R_award_p3 role int "int option" string bool "rat option" string
  | R_event_patch role int "int option" event_patch int
  | R_event_patch_p3 role int "int option" event_patch int
  | R_transaction role int tx_body int
  | R_transaction_p3 role int tx_body int

fun perform :: "request \<Rightarrow> db \<Rightarrow> db" where
  "perform (R_transfer a r ty am rm) d = snd (post_users_userId_transactions a r ty am rm d)"
| "perform (R_redeem a ty am rm) d = snd (post_users_me_transactions a ty am rm d)"
| "perform (R_redeem_p3 a ty am rm) d = snd (post_users_me_transactions_p3 a ty am rm d)"
| "perform (R_process ro a k) d = snd (patch_transactions_id_processed ro a k d)"
| "perform (R_process_p3 ro a k) d = snd (patch_transactions_id_processed_p3 ro a k d)"
| "perform (R_suspicious ro k s) d = snd (patch_transactions_id_suspicious ro k s d)"
| "perform (R_event_create ro n ds l st et c p) d = snd (post_events ro n ds l st et c p d)"
| "perform (R_award ro a e ty u am rm) d = snd (post_events_id_transactions ro a e ty u am rm d)"
| "perform (R_award_p3 ro a e u al am rm) d =
     snd (post_events_id_transactions_p3 ro a e u al am rm d)"
| "perform (R_event_patch ro a e b n) d = snd (patch_events_id ro a e b n d)"
| "perform (R_event_patch_p3 ro a e b n) d = snd (patch_events_id_p3 ro a e b n d)"
| "perform (R_transaction ro a b n) d = snd (post_transactions ro a b n d)"
| "perform (R_transaction_p3 ro a b n) d = snd (post_transactions_p3 ro a b n d)"

definition run :: "request list \<Rightarrow> db \<Rightarrow> db" where
  "run rs d = fold perform rs d"

subsection \<open>The properties' vocabulary\<close>

text \<open>The budget equation of an event, and of every event of a store.\<close>

definition budget_ok :: "event \<Rightarrow> bool" where
  "budget_ok e = (e_pointsRemain e + e_pointsAwarded e = e_pointsTotal e)"

definition budget_inv :: "db \<Rightarrow> bool" where
  "budget_inv d = list_all budget_ok (events d)"

text \<open>
  The points a purchase earns as the specification words them (section 4.2,
  \<^verbatim>\<open>computeEarnedPoints\<close>): the base is the spend over 0.25, rounded; each applicable
  promotion is skipped when its minimum spend is set and the spend is below it, and
  otherwise adds the rounded product of spend, 100 and its rate when a rate is set, and its
  flat points when those are set. The quotient and the products are those of doubles,
  the products taken from the left.
\<close>

definition promotion_bonus :: "rat \<Rightarrow> promotion \<Rightarrow> int" where
  "promotion_bonus spendAmount p =
     (if p_minSpending p \<noteq> None \<and> less_d spendAmount (the (p_minSpending p)) then 0
      else (case p_rate p of
              None \<Rightarrow> 0
            | Some rate \<Rightarrow> Math_round (times_d (times_d spendAmount 100) rate))
           + (case p_points p of None \<Rightarrow> 0 | Some points \<Rightarrow> points))"

definition computeEarnedPoints :: "rat \<Rightarrow> promotion list \<Rightarrow> promotion list \<Rightarrow> int" where
  "computeEarnedPoints spendAmount automaticPromotions selectedOneTimePromotions =
     Math_round (divide_d spendAmount (1 / 4))
     + sum_list (map (promotion_bonus spendAmount)
                   (automaticPromotions @ selectedOneTimePromotions))"

text \<open>
  The promotions a purchase applies: the active automatic ones, and the active one-time
  ones the request names.
\<close>

definition active_automatic :: "int \<Rightarrow> db \<Rightarrow> promotion list" where
  "active_automatic now d =
     filter (\<lambda>p. p_type p = Automatic) (filter (isActivePromo now) (promotions d))"

definition active_onetime :: "int \<Rightarrow> db \<Rightarrow> promotion list" where
  "active_onetime now d =
     filter (\<lambda>p. p_type p = Onetime) (filter (isActivePromo now) (promotions d))"

text \<open>The purchase row of \<open>example_shop\<close>.\<close>

definition purchase_row :: tx where
  "purchase_row =
     \<lparr>t_id = 3, t_userId = 2, t_type = Purchase, t_amount = 8, t_spent = Some 2,
      t_remark = [], t_suspicious = Some False, t_relatedId = None,
      t_createdById = 3, t_processedById = Some 3\<rparr>"

text \<open>
  The key of \<^verbatim>\<open>Event\<close> is a primary key handed out by autoincrement: no two rows share
  an id, and every id in use is below the next one.
\<close>

definition events_wf :: "db \<Rightarrow> bool" where
  "events_wf d =
     (distinct (map e_id (events d)) \<and> list_all (\<lambda>e. e_id e < event_seq d) (events d))"

definition store_ok :: "db \<Rightarrow> bool" where
  "store_ok d = (events_wf d \<and> budget_inv d)"

text \<open>
  What the branch \<^verbatim>\<open>points\<close> of the event update leaves in \<^verbatim>\<open>data\<close>: nothing, or a new
  total with the remainder moved by the same difference and still not negative.
\<close>

definition points_patch :: "event \<Rightarrow> patch_data \<Rightarrow> bool" where
  "points_patch e dt =
     (d_pointsTotal dt = None \<and> d_pointsRemain dt = None
      \<or> (\<exists>newTotal. 0 < newTotal \<and> d_pointsTotal dt = Some newTotal \<and>
            0 \<le> e_pointsRemain e + (newTotal - e_pointsTotal e) \<and>
            d_pointsRemain dt = Some (e_pointsRemain e + (newTotal - e_pointsTotal e))))"

text \<open>A body of the event update that carries nothing but \<^verbatim>\<open>points\<close>.\<close>

definition points_only :: "rat \<Rightarrow> event_patch" where
  "points_only n =
     \<lparr>b_published = Absent, b_name = Absent, b_description = Absent, b_location = Absent,
      b_startTime = Absent, b_endTime = Absent, b_capacity = Absent, b_points = Val n\<rparr>"

text \<open>
  Four requests on \<open>example_shop\<close> at time 1500: a manager (user 2 with a manager's
  token) creates a second event with 50 points and awards 10 points to every guest of
  event 1, raises its total to 150, and the organizer awards 2.5 points, truncated to 2,
  to Bob through the second copy.
\<close>

definition example_requests :: "request list" where
  "example_requests =
     [R_event_create Manager ''Gala'' ''Dinner'' ''Hall'' (Some 2000) (Some 3000) Absent (Some 50),
      R_award Manager 2 (Some 1) ''event'' [] (Some 10) [],
      R_event_patch Manager 2 (Some 1) (points_only 150) 1500,
      R_award_p3 Regular 3 (Some 1) ''bobby002'' False (Some (5 / 2)) []]"

text \<open>
  A store whose events have their published flags and end times changed at will, each
  as a function of the event's id.
\<close>

definition reschedule :: "(int \<Rightarrow> bool) \<Rightarrow> (int \<Rightarrow> int) \<Rightarrow> db \<Rightarrow> db" where
  "reschedule pub ends d =
     d\<lparr>events := map (\<lambda>e. e\<lparr>e_published := pub (e_id e), e_endTime := ends (e_id e)\<rparr>)
                     (events d)\<rparr>"

text \<open>A balance that is not negative; a user without a row has none.\<close>

definition non_negative :: "db \<Rightarrow> int \<Rightarrow> bool" where
  "non_negative d i = (case balance d i of None \<Rightarrow> True | Some b \<Rightarrow> 0 \<le> b)"

text \<open>
  Alice, with 100 points, requests two redemptions of 80 points each (rows 4 and 5 of
  the store that \<open>example_shop\<close> becomes), and a cashier processes the first.
\<close>

definition example_redemptions :: "request list" where
  "example_redemptions =
     [R_redeem 1 ''redemption'' (Some 80) [],
      R_redeem 1 ''redemption'' (Some 80) [],
      R_process Cashier 3 (Some 4)]"

text \<open>
  The flag a purchase or an adjustment of the backend records: the actor's own flag or
  the body's.
\<close>

definition effectiveSuspicious :: "int \<Rightarrow> tx_body \<Rightarrow> db \<Rightarrow> bool" where
  "effectiveSuspicious authId body d =
     ((case find_user authId d of None \<Rightarrow> False | Some cashier \<Rightarrow> u_suspicious cashier)
      \<or> r_suspicious body)"

text \<open>The points a purchase earns as the backend computes them (lines 1954-1968).\<close>

definition purchase_earned :: "rat \<Rightarrow> promotion list \<Rightarrow> promotion list \<Rightarrow> int" where
  "purchase_earned spentNum automatic chosenOneTime =
     basePoints spentNum + add_extras spentNum chosenOneTime (add_extras spentNum automatic 0)"

text \<open>The row a purchase of the backend writes.\<close>

definition purchase_tx :: "int \<Rightarrow> int \<Rightarrow> rat \<Rightarrow> string \<Rightarrow> bool \<Rightarrow> int \<Rightarrow> tx" where
  "purchase_tx userId earned spentNum remark suspicious actor =
     \<lparr>t_id = 0, t_userId = userId, t_type = Purchase, t_amount = earned,
      t_spent = Some spentNum, t_remark = remark,
      t_suspicious = Some suspicious, t_relatedId = None, t_createdById = actor,
      t_processedById = Some actor\<rparr>"

text \<open>
  What the loop over \<^verbatim>\<open>promotionIds\<close> accepts: a positive integer that names an active
  one-time promotion the user has not used.
\<close>

definition names_unused :: "promotion list \<Rightarrow> int list \<Rightarrow> rat option \<Rightarrow> promotion \<Rightarrow> bool" where
  "names_unused onetime used raw p =
     (case raw of
        None \<Rightarrow> False
      | Some pid \<Rightarrow>
          Number_isInteger pid \<and> 0 < pid \<and> oneTimeMap_get onetime \<lfloor>pid\<rfloor> = Some p \<and>
          \<lfloor>pid\<rfloor> \<notin> set used)"

text \<open>Bodies of \<^verbatim>\<open>POST /transactions\<close> to run the handlers on.\<close>

definition purchase_body :: "string \<Rightarrow> rat \<Rightarrow> rat option list \<Rightarrow> bool \<Rightarrow> tx_body" where
  "purchase_body utorid spent promotionIds suspicious =
     \<lparr>r_type = ''purchase'', r_utorid = utorid, r_spent = Some spent, r_amount = None,
      r_remark = [], r_promotionIds = Some promotionIds, r_relatedId = Absent,
      r_suspicious = suspicious\<rparr>"

definition adjustment_body :: "string \<Rightarrow> rat \<Rightarrow> bool \<Rightarrow> tx_body" where
  "adjustment_body utorid amount suspicious =
     \<lparr>r_type = ''adjustment'', r_utorid = utorid, r_spent = None, r_amount = Some amount,
      r_remark = [], r_promotionIds = Some [], r_relatedId = Absent,
      r_suspicious = suspicious\<rparr>"

section \<open>Properties\<close>

subsection \<open>The store primitives\<close>

lemma find_map_same:
  assumes "\<And>x. P (f x) = P x"
  shows "find P (map f xs) = map_option f (find P xs)"
  using assms by (induction xs) auto

lemma find_user_increment_points:
  "find_user i (increment_points j n d) =
     map_option (\<lambda>u. if u_id u = j then u\<lparr>u_points := u_points u + n\<rparr> else u) (find_user i d)"
  unfolding find_user_def increment_points_def
  by (simp add: find_map_same)

lemma find_user_create_tx [simp]: "find_user i (create_tx t d) = find_user i d"
  by (simp add: find_user_def create_tx_def)

lemma find_user_update_tx [simp]: "find_user i (update_tx j f d) = find_user i d"
  by (simp add: find_user_def update_tx_def)

lemma find_user_id: "find_user i d = Some u \<Longrightarrow> u_id u = i"
  by (auto simp: find_user_def find_Some_iff)

lemma balance_increment_points:
  "balance (increment_points j n d) i =
     (if i = j then map_option (\<lambda>b. b + n) (balance d i) else balance d i)"
  by (cases "find_user i d")
     (auto simp: balance_def find_user_increment_points dest: find_user_id)

lemma balance_create_tx [simp]: "balance (create_tx t d) i = balance d i"
  by (simp add: balance_def)

lemma balance_update_tx [simp]: "balance (update_tx j f d) i = balance d i"
  by (simp add: balance_def)

lemma transactions_increment_points [simp]:
  "transactions (increment_points j n d) = transactions d"
  by (simp add: increment_points_def)

lemma transactions_create_tx:
  "transactions (create_tx t d) = transactions d @ [t\<lparr>t_id := tx_seq d\<rparr>]"
  by (simp add: create_tx_def)

lemma tx_seq_create_tx [simp]: "tx_seq (create_tx t d) = tx_seq d + 1"
  by (simp add: create_tx_def)

lemma floor_rat_divide_numeral [simp]:
  "\<lfloor>numeral a / numeral b :: rat\<rfloor> = numeral a div numeral b"
  using floor_divide_of_int_eq [of "numeral a" "numeral b", where ?'a = rat] by simp

subsection \<open>Doubles\<close>

lemma bits_bounds: "0 < n \<Longrightarrow> 2 ^ (bits n - 1) \<le> n \<and> n < 2 ^ bits n"
proof (induction n rule: bits.induct)
  case (1 n)
  show ?case
  proof (cases "n = 1")
    case True
    then show ?thesis by (simp add: bits.simps [of 1] bits.simps [of 0])
  next
    case False
    with 1 have h: "0 < n div 2" by simp
    define m :: int where "m = 2 ^ (bits (n div 2) - 1)"
    from h 1 have ih: "m \<le> n div 2" "n div 2 < 2 ^ bits (n div 2)"
      by (simp_all add: m_def)
    from h have p: "0 < bits (n div 2)"
      by (simp add: bits.simps [of "n div 2"])
    have b: "bits n = Suc (bits (n div 2))"
      using 1(2) by (simp add: bits.simps [of n])
    from p have q: "(2::int) ^ bits (n div 2) = 2 * m"
      by (cases "bits (n div 2)") (simp_all add: m_def)
    from ih q have "2 * m \<le> n" "n < 2 * (2 * m)"
      by linarith+
    then show ?thesis
      unfolding b using q by (simp add: m_def)
  qed
qed

lemma bits_le:
  assumes "0 < n" and "n < 2 ^ k"
  shows "bits n \<le> k"
proof (rule ccontr)
  assume "\<not> bits n \<le> k"
  then have "k \<le> bits n - 1" by simp
  then have "(2::int) ^ k \<le> 2 ^ (bits n - 1)"
    by (intro power_increasing) simp_all
  moreover from bits_bounds [OF assms(1)] have "2 ^ (bits n - 1) \<le> n" ..
  ultimately show False using assms(2) by linarith
qed

lemma round_half_even_of_int [simp]: "round_half_even (of_int m) = m"
  by (simp add: round_half_even_def)

lemma exponent_of_int:
  assumes "n \<noteq> 0"
  shows "exponent (of_int n) = int (bits \<bar>n\<bar>) - 1"
proof -
  have pos: "0 < \<bar>n\<bar>" using assms by simp
  have q: "quotient_of \<bar>of_int n :: rat\<bar> = (\<bar>n\<bar>, 1)"
    by (simp add: of_int_rat quotient_of_Fract del: of_int_abs flip: of_int_abs)
  have b1: "bits 1 = 1" by (simp add: bits.simps [of 1] bits.simps [of 0])
  from bits_bounds [OF pos] have le: "2 ^ (bits \<bar>n\<bar> - 1) \<le> \<bar>n\<bar>" ..
  have gt: "0 < bits \<bar>n\<bar>"
    using pos by (simp add: bits.simps [of "\<bar>n\<bar>"])
  have "pow2 (int (bits \<bar>n\<bar>) - 1) = of_int (2 ^ (bits \<bar>n\<bar> - 1))"
    using gt by (simp add: pow2_def nat_diff_distrib')
  also have "\<dots> \<le> of_int \<bar>n\<bar>"
    using le by (simp only: of_int_le_iff)
  finally have "pow2 (int (bits \<bar>n\<bar>) - 1) \<le> \<bar>of_int n\<bar>"
    by simp
  then show ?thesis
    unfolding exponent_def q by (simp add: b1 Let_def)
qed

text \<open>An integer below \<open>2 ^ 53\<close> in absolute value is a double.\<close>

lemma to_double_of_int:
  assumes "\<bar>n\<bar> < 2 ^ 53"
  shows "to_double (of_int n) = of_int n"
proof (cases "n = 0")
  case True
  then show ?thesis by (simp add: to_double_def)
next
  case False
  then have pos: "0 < \<bar>n\<bar>" by simp
  from bits_le [OF pos assms] have le: "bits \<bar>n\<bar> \<le> 53" .
  define j where "j = 53 - bits \<bar>n\<bar>"
  have e: "exponent (of_int n) - 52 = - int j"
    using le by (simp add: exponent_of_int [OF False] j_def)
  have p: "pow2 (- int j) = 1 / 2 ^ j"
    by (auto simp: pow2_def)
  have "of_int n / pow2 (- int j) = (of_int (n * 2 ^ j) :: rat)"
    by (simp add: p)
  then have "round_half_even (of_int n / pow2 (- int j)) = n * 2 ^ j"
    by (simp only: round_half_even_of_int)
  then show ?thesis
    using False by (simp add: to_double_def e Let_def p)
qed

lemma to_double_numeral [simp]:
  "numeral k < (9007199254740992 :: int) \<Longrightarrow> to_double (numeral k) = numeral k"
  using to_double_of_int [of "numeral k"] by simp

lemma to_double_0 [simp]: "to_double 0 = 0"
  by (simp add: to_double_def)

lemma to_double_1 [simp]: "to_double 1 = 1"
  using to_double_of_int [of 1] by simp

lemma to_double_half [simp]: "to_double (1 / 2) = 1 / 2"
  by code_simp

lemma to_double_quarter [simp]: "to_double (1 / 4) = 1 / 4"
  by code_simp

text \<open>
  The body's literal 0.57 is the double 5134103575202365 / 2^53; times 100 it is not 57
  but the double below it, and half of that rounds to 28, where the exact product 28.5
  rounds to 29.
\<close>

lemma double_product_example:
  "to_double (57 / 100) = 5134103575202365 / 9007199254740992"
  "times_d (57 / 100) 100 = 8022036836253695 / 140737488355328"
  "Math_round (times_d (times_d (57 / 100) 100) (1 / 2)) = 28"
  "Math_round (57 / 100 * 100 * (1 / 2)) = 29"
  by code_simp+

subsection \<open>Truncation\<close>

lemma Math_trunc_of_int [simp]: "Math_trunc (of_int n) = n"
  by (simp add: Math_trunc_def)

lemma Math_trunc_numeral [simp]: "Math_trunc (numeral n) = numeral n"
  by (simp add: Math_trunc_def)

lemma Math_trunc_nonneg: "0 \<le> x \<Longrightarrow> 0 \<le> Math_trunc x"
  by (simp add: Math_trunc_def)

lemma example_db_facts:
  "balance example_db 1 = Some 100" "balance example_db 2 = Some 10"
  "balance example_db 3 = Some 50"
  "transactions example_db = []" "tx_seq example_db = 1"
  by (simp_all add: balance_def find_user_def example_db_def)

lemma transfer_success:
  assumes "post_users_userId_transactions authId recipientId type amount remark d = (Inr st, d')"
  shows "\<exists>a rid recipient sender.
           amount = Some a \<and> recipientId = Some rid \<and> rid \<noteq> authId \<and> type = ''transfer'' \<and>
           0 < a \<and> find_user rid d = Some recipient \<and> find_user authId d = Some sender \<and>
           u_verified sender \<and> Math_trunc a \<le> u_points sender \<and> st = 201 \<and>
           d' = increment_points rid (Math_trunc a)
                  (increment_points authId (- Math_trunc a)
                    (create_tx (transfer_row 0 rid authId (Math_trunc a) authId remark)
                      (create_tx (transfer_row 0 authId rid (- Math_trunc a) authId remark) d)))"
proof -
  from assms obtain a rid recipient sender where
    *: "amount = Some a" "recipientId = Some rid" "rid \<noteq> authId" "type = ''transfer''" "0 < a"
      "find_user rid d = Some recipient" "find_user authId d = Some sender"
      "u_verified sender" "Math_trunc a \<le> u_points sender" "st = 201"
    and d': "d' = increment_points (u_id recipient) (Math_trunc a)
               (increment_points (u_id sender) (- Math_trunc a)
                 (create_tx (transfer_row 0 (u_id recipient) (u_id sender) (Math_trunc a)
                     (u_id sender) remark)
                   (create_tx (transfer_row 0 (u_id sender) (u_id recipient) (- Math_trunc a)
                       (u_id sender) remark) d)))"
    unfolding post_users_userId_transactions_def
    by (auto split: option.splits if_splits simp: Let_def transfer_row_def)
  have ids: "u_id recipient = rid" "u_id sender = authId"
    using * by (auto dest: find_user_id)
  from * d' show ?thesis unfolding ids by blast
qed

lemma transfer_failure_unchanged:
  "post_users_userId_transactions authId recipientId type amount remark d = (Inl err, d')
     \<Longrightarrow> d' = d"
  unfolding post_users_userId_transactions_def
  by (auto split: option.splits if_splits simp: Let_def)

lemma redeem_success:
  assumes "post_users_me_transactions authId type amount remark d = (Inr st, d')"
  shows "\<exists>a me. amount = Some a \<and> 0 < a \<and> type = ''redemption'' \<and>
           find_user authId d = Some me \<and> u_verified me \<and> Math_trunc a \<le> u_points me \<and>
           d' = create_tx
                  \<lparr>t_id = 0, t_userId = authId, t_type = Redemption,
                   t_amount = Math_trunc a, t_spent = None, t_remark = remark,
                   t_suspicious = None, t_relatedId = None, t_createdById = authId,
                   t_processedById = None\<rparr> d"
  using assms unfolding post_users_me_transactions_def
  by (auto split: option.splits if_splits simp: Let_def dest: find_user_id)

lemma process_success:
  assumes "patch_transactions_id_processed authRole authId txId d = (Inr st, d')"
  shows "\<exists>k t u. txId = Some k \<and> find_tx k d = Some t \<and> t_type t = Redemption \<and>
           \<not> truthy_id (t_processedById t) \<and> find_user (t_userId t) d = Some u \<and>
           t_amount t \<le> u_points u \<and>
           d' = update_tx k (\<lambda>r. r\<lparr>t_processedById := Some authId\<rparr>)
                  (increment_points (t_userId t) (- t_amount t) d)"
  using assms unfolding patch_transactions_id_processed_def
  by (auto split: option.splits if_splits simp: Let_def)

lemma redeem_success_p3:
  assumes "post_users_me_transactions_p3 authId type amount remark d = (Inr st, d')"
  shows "\<exists>a me. amount = Some a \<and> 0 < a \<and> type = ''redemption'' \<and>
           find_user authId d = Some me \<and> u_verified me \<and> Math_trunc a \<le> u_points me \<and>
           d' = create_tx
                  \<lparr>t_id = 0, t_userId = authId, t_type = Redemption,
                   t_amount = - Math_trunc a, t_spent = None, t_remark = remark,
                   t_suspicious = None, t_relatedId = None, t_createdById = authId,
                   t_processedById = None\<rparr> d"
  using assms unfolding post_users_me_transactions_p3_def
  by (auto split: option.splits if_splits simp: Let_def dest: find_user_id)

lemma process_success_p3:
  assumes "patch_transactions_id_processed_p3 authRole authId txId d = (Inr st, d')"
  shows "\<exists>k t u. txId = Some k \<and> find_tx k d = Some t \<and> t_type t = Redemption \<and>
           \<not> truthy_id (t_processedById t) \<and> find_user (t_userId t) d = Some u \<and>
           - t_amount t \<le> u_points u \<and>
           d' = update_tx k (\<lambda>r. r\<lparr>t_processedById := Some authId\<rparr>)
                  (increment_points (t_userId t) (t_amount t) d)"
  using assms unfolding patch_transactions_id_processed_p3_def
  by (auto split: option.splits if_splits simp: Let_def)

lemma balance_find_user: "find_user i d = Some u \<Longrightarrow> balance d i = Some (u_points u)"
  by (simp add: balance_def)

subsection \<open>Transfer pairing\<close>

text \<open>
  C5. A transfer that succeeds appends exactly two rows to the transaction table, in one
  step: the sender's row with the truncated amount negated and \<open>relatedId\<close> the
  recipient's id, then the recipient's row with the truncated amount and \<open>relatedId\<close> the
  sender's id. The sender's balance falls by the truncated amount, the recipient's rises
  by it, and no other balance moves, so the deltas of the pair sum to zero. The amount
  \<open>a\<close> of the claim is the integer the handler works with, \<^verbatim>\<open>Math.trunc(amount)\<close>.
\<close>

theorem transfer_pairing:
  assumes "post_users_userId_transactions authId recipientId type amount remark d = (Inr st, d')"
  shows "\<exists>a rid bs br.
           amount = Some a \<and> recipientId = Some rid \<and> rid \<noteq> authId \<and>
           balance d authId = Some bs \<and> balance d rid = Some br \<and>
           transactions d' = transactions d @
             [transfer_row (tx_seq d) authId rid (- Math_trunc a) authId remark,
              transfer_row (tx_seq d + 1) rid authId (Math_trunc a) authId remark] \<and>
           balance d' authId = Some (bs - Math_trunc a) \<and>
           balance d' rid = Some (br + Math_trunc a) \<and>
           (bs - Math_trunc a - bs) + (br + Math_trunc a - br) = 0 \<and>
           (\<forall>i. i \<noteq> authId \<and> i \<noteq> rid \<longrightarrow> balance d' i = balance d i)"
proof -
  from transfer_success [OF assms] obtain a rid recipient sender where
    am: "amount = Some a" and rc: "recipientId = Some rid" and ne: "rid \<noteq> authId"
    and fr: "find_user rid d = Some recipient" and fs: "find_user authId d = Some sender"
    and d': "d' = increment_points rid (Math_trunc a)
                  (increment_points authId (- Math_trunc a)
                    (create_tx (transfer_row 0 rid authId (Math_trunc a) authId remark)
                      (create_tx (transfer_row 0 authId rid (- Math_trunc a) authId remark) d)))"
    by blast
  have bs: "balance d authId = Some (u_points sender)"
    and br: "balance d rid = Some (u_points recipient)"
    using fr fs by (simp_all add: balance_find_user)
  have rows: "transactions d' = transactions d @
             [transfer_row (tx_seq d) authId rid (- Math_trunc a) authId remark,
              transfer_row (tx_seq d + 1) rid authId (Math_trunc a) authId remark]"
    unfolding d' by (simp add: transactions_create_tx transfer_row_def)
  have b1: "balance d' authId = Some (u_points sender - Math_trunc a)"
    unfolding d' using ne bs by (simp add: balance_increment_points)
  have b2: "balance d' rid = Some (u_points recipient + Math_trunc a)"
    unfolding d' using ne br by (simp add: balance_increment_points)
  have b3: "\<forall>i. i \<noteq> authId \<and> i \<noteq> rid \<longrightarrow> balance d' i = balance d i"
    unfolding d' by (simp add: balance_increment_points)
  have z: "(u_points sender - Math_trunc a - u_points sender)
         + (u_points recipient + Math_trunc a - u_points recipient) = 0"
    by simp
  from am rc ne bs br rows b1 b2 b3 z show ?thesis by blast
qed

theorem transfer_pairing_witness:
  "fst (post_users_userId_transactions 1 (Some 2) ''transfer'' (Some 30) ''gift'' example_db)
     = Inr 201
   \<and> balance (snd (post_users_userId_transactions 1 (Some 2) ''transfer'' (Some 30) ''gift''
        example_db)) 1 = Some 70
   \<and> balance (snd (post_users_userId_transactions 1 (Some 2) ''transfer'' (Some 30) ''gift''
        example_db)) 2 = Some 40
   \<and> transactions (snd (post_users_userId_transactions 1 (Some 2) ''transfer'' (Some 30)
        ''gift'' example_db)) =
       [transfer_row 1 1 2 (- 30) 1 ''gift'', transfer_row 2 2 1 30 1 ''gift'']"
proof -
  let ?r = "post_users_userId_transactions 1 (Some 2) ''transfer'' (Some 30) ''gift'' example_db"
  have f: "fst ?r = Inr 201"
    by (simp add: post_users_userId_transactions_def example_db_def find_user_def Let_def)
  then have h: "?r = (Inr 201, snd ?r)"
    by (metis prod.collapse)
  from transfer_pairing [OF h] example_db_facts f show ?thesis
    by auto
qed

subsection \<open>Balances stay non-negative under a user's own debits\<close>

lemma example_shop_facts:
  "balance example_shop 1 = Some 100" "balance example_shop 2 = Some 10"
  "balance example_shop 3 = Some 50" "tx_seq example_shop = 4"
  "users example_shop = users example_db"
  by (simp_all add: balance_def find_user_def example_shop_def example_db_def)

lemma redeem_failed:
  "post_users_me_transactions authId type amount remark d = (Inl err, d') \<Longrightarrow> d' = d"
  unfolding post_users_me_transactions_def
  by (auto split: option.splits if_splits simp: Let_def)

lemma redeem_failed_p3:
  "post_users_me_transactions_p3 authId type amount remark d = (Inl err, d') \<Longrightarrow> d' = d"
  unfolding post_users_me_transactions_p3_def
  by (auto split: option.splits if_splits simp: Let_def)

lemma process_failed:
  "patch_transactions_id_processed authRole authId txId d = (Inl err, d') \<Longrightarrow> d' = d"
  unfolding patch_transactions_id_processed_def
  by (auto split: option.splits if_splits simp: Let_def)

lemma process_failed_p3:
  "patch_transactions_id_processed_p3 authRole authId txId d = (Inl err, d') \<Longrightarrow> d' = d"
  unfolding patch_transactions_id_processed_p3_def
  by (auto split: option.splits if_splits simp: Let_def)

text \<open>What a success of each of the five handlers required and did to the balance it debits.\<close>

lemma debits_guarded:
  "(post_users_userId_transactions authId recipientId type amount remark d = (Inr st, d') \<longrightarrow>
      (\<exists>a b. amount = Some a \<and> balance d authId = Some b \<and> Math_trunc a \<le> b \<and>
             balance d' authId = Some (b - Math_trunc a) \<and> 0 \<le> b - Math_trunc a))
   \<and> (post_users_me_transactions authId type amount remark d = (Inr st, d') \<longrightarrow>
      (\<exists>a b. amount = Some a \<and> balance d authId = Some b \<and> Math_trunc a \<le> b \<and>
             0 \<le> b \<and> (\<forall>i. balance d' i = balance d i)))
   \<and> (post_users_me_transactions_p3 authId type amount remark d = (Inr st, d') \<longrightarrow>
      (\<exists>a b. amount = Some a \<and> balance d authId = Some b \<and> Math_trunc a \<le> b \<and>
             0 \<le> b \<and> (\<forall>i. balance d' i = balance d i)))
   \<and> (patch_transactions_id_processed authRole authId txId d = (Inr st, d') \<longrightarrow>
      (\<exists>k t b. txId = Some k \<and> find_tx k d = Some t \<and> balance d (t_userId t) = Some b \<and>
             t_amount t \<le> b \<and> balance d' (t_userId t) = Some (b - t_amount t) \<and>
             0 \<le> b - t_amount t))
   \<and> (patch_transactions_id_processed_p3 authRole authId txId d = (Inr st, d') \<longrightarrow>
      (\<exists>k t b. txId = Some k \<and> find_tx k d = Some t \<and> balance d (t_userId t) = Some b \<and>
             - t_amount t \<le> b \<and> balance d' (t_userId t) = Some (b - (- t_amount t)) \<and>
             0 \<le> b - (- t_amount t)))"
proof (intro conjI impI)
  assume "post_users_userId_transactions authId recipientId type amount remark d = (Inr st, d')"
  from transfer_success [OF this] obtain a rid recipient sender where
    *: "amount = Some a" "rid \<noteq> authId" "find_user authId d = Some sender"
       "Math_trunc a \<le> u_points sender"
    and d': "d' = increment_points rid (Math_trunc a)
                  (increment_points authId (- Math_trunc a)
                    (create_tx (transfer_row 0 rid authId (Math_trunc a) authId remark)
                      (create_tx (transfer_row 0 authId rid (- Math_trunc a) authId remark) d)))"
    by blast
  have b: "balance d authId = Some (u_points sender)"
    using * by (simp add: balance_find_user)
  have "balance d' authId = Some (u_points sender - Math_trunc a)"
    unfolding d' using * b by (simp add: balance_increment_points)
  with b * show "\<exists>a b. amount = Some a \<and> balance d authId = Some b \<and> Math_trunc a \<le> b \<and>
             balance d' authId = Some (b - Math_trunc a) \<and> 0 \<le> b - Math_trunc a"
    by simp
next
  assume "post_users_me_transactions authId type amount remark d = (Inr st, d')"
  from redeem_success [OF this] obtain a me t where
    *: "amount = Some a" "0 < a" "find_user authId d = Some me" "Math_trunc a \<le> u_points me"
       "d' = create_tx t d"
    by blast
  have "0 \<le> Math_trunc a" using * by (simp add: Math_trunc_nonneg)
  with * show "\<exists>a b. amount = Some a \<and> balance d authId = Some b \<and> Math_trunc a \<le> b \<and>
             0 \<le> b \<and> (\<forall>i. balance d' i = balance d i)"
    by (simp add: balance_find_user)
next
  assume "post_users_me_transactions_p3 authId type amount remark d = (Inr st, d')"
  from redeem_success_p3 [OF this] obtain a me t where
    *: "amount = Some a" "0 < a" "find_user authId d = Some me" "Math_trunc a \<le> u_points me"
       "d' = create_tx t d"
    by blast
  have "0 \<le> Math_trunc a" using * by (simp add: Math_trunc_nonneg)
  with * show "\<exists>a b. amount = Some a \<and> balance d authId = Some b \<and> Math_trunc a \<le> b \<and>
             0 \<le> b \<and> (\<forall>i. balance d' i = balance d i)"
    by (simp add: balance_find_user)
next
  assume "patch_transactions_id_processed authRole authId txId d = (Inr st, d')"
  from process_success [OF this] obtain k t u where
    *: "txId = Some k" "find_tx k d = Some t" "find_user (t_userId t) d = Some u"
       "t_amount t \<le> u_points u"
    and d': "d' = update_tx k (\<lambda>r. r\<lparr>t_processedById := Some authId\<rparr>)
                  (increment_points (t_userId t) (- t_amount t) d)"
    by blast
  have b: "balance d (t_userId t) = Some (u_points u)"
    using * by (simp add: balance_find_user)
  have "balance d' (t_userId t) = Some (u_points u - t_amount t)"
    unfolding d' using b by (simp add: balance_increment_points)
  with b * show "\<exists>k t b. txId = Some k \<and> find_tx k d = Some t \<and>
             balance d (t_userId t) = Some b \<and>
             t_amount t \<le> b \<and> balance d' (t_userId t) = Some (b - t_amount t) \<and>
             0 \<le> b - t_amount t"
    by simp
next
  assume "patch_transactions_id_processed_p3 authRole authId txId d = (Inr st, d')"
  from process_success_p3 [OF this] obtain k t u where
    *: "txId = Some k" "find_tx k d = Some t" "find_user (t_userId t) d = Some u"
       "- t_amount t \<le> u_points u"
    and d': "d' = update_tx k (\<lambda>r. r\<lparr>t_processedById := Some authId\<rparr>)
                  (increment_points (t_userId t) (t_amount t) d)"
    by blast
  have b: "balance d (t_userId t) = Some (u_points u)"
    using * by (simp add: balance_find_user)
  have "balance d' (t_userId t) = Some (u_points u + t_amount t)"
    unfolding d' using b by (simp add: balance_increment_points)
  with b * show "\<exists>k t b. txId = Some k \<and> find_tx k d = Some t \<and>
             balance d (t_userId t) = Some b \<and>
             - t_amount t \<le> b \<and> balance d' (t_userId t) = Some (b - (- t_amount t)) \<and>
             0 \<le> b - (- t_amount t)"
    by simp
qed

text \<open>A request that is refused leaves the store, and so every balance, as it was.\<close>

lemma refusals_change_nothing:
  "(post_users_userId_transactions authId recipientId type amount remark d = (Inl err, d') \<longrightarrow>
      d' = d)
   \<and> (post_users_me_transactions authId type amount remark d = (Inl err, d') \<longrightarrow> d' = d)
   \<and> (post_users_me_transactions_p3 authId type amount remark d = (Inl err, d') \<longrightarrow> d' = d)
   \<and> (patch_transactions_id_processed authRole authId txId d = (Inl err, d') \<longrightarrow> d' = d)
   \<and> (patch_transactions_id_processed_p3 authRole authId txId d = (Inl err, d') \<longrightarrow> d' = d)"
  by (blast dest: transfer_failure_unchanged redeem_failed redeem_failed_p3 process_failed
      process_failed_p3)

text \<open>A balance below the amount to debit makes the handler refuse.\<close>

lemma insufficient_balance_refused:
  "(amount = Some a \<and> balance d authId = Some b \<and> b < Math_trunc a \<longrightarrow>
      (\<exists>err. post_users_userId_transactions authId recipientId type amount remark d
                = (Inl err, d)))
   \<and> (amount = Some a \<and> balance d authId = Some b \<and> b < Math_trunc a \<longrightarrow>
      (\<exists>err. post_users_me_transactions authId type amount remark d = (Inl err, d)))
   \<and> (amount = Some a \<and> balance d authId = Some b \<and> b < Math_trunc a \<longrightarrow>
      (\<exists>err. post_users_me_transactions_p3 authId type amount remark d = (Inl err, d)))
   \<and> (find_tx k d = Some t \<and> balance d (t_userId t) = Some b \<and> b < t_amount t \<longrightarrow>
      (\<exists>err. patch_transactions_id_processed authRole authId (Some k) d = (Inl err, d)))
   \<and> (find_tx k d = Some t \<and> balance d (t_userId t) = Some b \<and> b < - t_amount t \<longrightarrow>
      (\<exists>err. patch_transactions_id_processed_p3 authRole authId (Some k) d = (Inl err, d)))"
  unfolding post_users_userId_transactions_def post_users_me_transactions_def
    post_users_me_transactions_p3_def patch_transactions_id_processed_def
    patch_transactions_id_processed_p3_def balance_def
  by (auto split: option.splits simp: Let_def)

text \<open>
  Whatever the handler answers, a balance that was not negative is not negative
  afterwards.
\<close>

lemma non_negative_transfer:
  assumes "non_negative d i"
  shows "non_negative (snd (post_users_userId_transactions authId recipientId type amount
           remark d)) i"
proof (cases "post_users_userId_transactions authId recipientId type amount remark d")
  case (Pair r d')
  show ?thesis
  proof (cases r)
    case (Inl err)
    with Pair have "d' = d" by (auto dest: transfer_failure_unchanged)
    with Pair assms show ?thesis by simp
  next
    case (Inr st)
    with Pair have "post_users_userId_transactions authId recipientId type amount remark d
        = (Inr st, d')"
      by simp
    from transfer_success [OF this] obtain a rid recipient sender where
      *: "rid \<noteq> authId" "0 < a" "find_user authId d = Some sender"
         "Math_trunc a \<le> u_points sender"
      and d': "d' = increment_points rid (Math_trunc a)
                  (increment_points authId (- Math_trunc a)
                    (create_tx (transfer_row 0 rid authId (Math_trunc a) authId remark)
                      (create_tx (transfer_row 0 authId rid (- Math_trunc a) authId remark) d)))"
      by blast
    have nn: "0 \<le> Math_trunc a" using * by (simp add: Math_trunc_nonneg)
    have "non_negative d' i"
      unfolding d' using assms * nn
      by (cases "balance d i")
         (auto simp: non_negative_def balance_increment_points balance_find_user)
    with Pair show ?thesis by simp
  qed
qed

lemma non_negative_redeem:
  "non_negative d i \<Longrightarrow>
     non_negative (snd (post_users_me_transactions authId type amount remark d)) i"
  "non_negative d i \<Longrightarrow>
     non_negative (snd (post_users_me_transactions_p3 authId type amount remark d)) i"
  by (simp_all add: non_negative_def post_users_me_transactions_def
      post_users_me_transactions_p3_def Let_def split: option.splits)

lemma non_negative_process:
  assumes "non_negative d i"
  shows "non_negative (snd (patch_transactions_id_processed authRole authId txId d)) i"
proof (cases "patch_transactions_id_processed authRole authId txId d")
  case (Pair r d')
  show ?thesis
  proof (cases r)
    case (Inl err)
    with Pair have "d' = d" by (auto dest: process_failed)
    with Pair assms show ?thesis by simp
  next
    case (Inr st)
    with Pair have "patch_transactions_id_processed authRole authId txId d = (Inr st, d')"
      by simp
    from process_success [OF this] obtain k and t :: tx and u where
      *: "find_user (t_userId t) d = Some u" "t_amount t \<le> u_points u"
      and d': "d' = update_tx k (\<lambda>r. r\<lparr>t_processedById := Some authId\<rparr>)
                  (increment_points (t_userId t) (- t_amount t) d)"
      by blast
    have "non_negative d' i"
      unfolding d' using assms *
      by (cases "balance d i")
         (auto simp: non_negative_def balance_increment_points balance_find_user)
    with Pair show ?thesis by simp
  qed
qed

lemma non_negative_process_p3:
  assumes "non_negative d i"
  shows "non_negative (snd (patch_transactions_id_processed_p3 authRole authId txId d)) i"
proof (cases "patch_transactions_id_processed_p3 authRole authId txId d")
  case (Pair r d')
  show ?thesis
  proof (cases r)
    case (Inl err)
    with Pair have "d' = d" by (auto dest: process_failed_p3)
    with Pair assms show ?thesis by simp
  next
    case (Inr st)
    with Pair have "patch_transactions_id_processed_p3 authRole authId txId d = (Inr st, d')"
      by simp
    from process_success_p3 [OF this] obtain k and t :: tx and u where
      *: "find_user (t_userId t) d = Some u" "- t_amount t \<le> u_points u"
      and d': "d' = update_tx k (\<lambda>r. r\<lparr>t_processedById := Some authId\<rparr>)
                  (increment_points (t_userId t) (t_amount t) d)"
      by blast
    have "non_negative d' i"
      unfolding d' using assms *
      by (cases "balance d i")
         (auto simp: non_negative_def balance_increment_points balance_find_user)
    with Pair show ?thesis by simp
  qed
qed

lemma balances_stay_non_negative:
  "(non_negative d i \<longrightarrow>
      non_negative (snd (post_users_userId_transactions authId recipientId type amount
         remark d)) i)
   \<and> (non_negative d i \<longrightarrow>
      non_negative (snd (post_users_me_transactions authId type amount remark d)) i)
   \<and> (non_negative d i \<longrightarrow>
      non_negative (snd (post_users_me_transactions_p3 authId type amount remark d)) i)
   \<and> (non_negative d i \<longrightarrow>
      non_negative (snd (patch_transactions_id_processed authRole authId txId d)) i)
   \<and> (non_negative d i \<longrightarrow>
      non_negative (snd (patch_transactions_id_processed_p3 authRole authId txId d)) i)"
  by (intro conjI impI non_negative_transfer non_negative_redeem non_negative_process
      non_negative_process_p3)

text \<open>
  A cashier processes, through the backend, the second of two redemptions of 80 points
  that Alice requested when she had 100, after the first has been processed.
\<close>

lemma example_second_redemption:
  "balance (run example_redemptions example_shop) 1 = Some 20"
  "find_tx 5 (run example_redemptions example_shop)
     = Some (last (transactions (run example_redemptions example_shop)))"
  "t_userId (last (transactions (run example_redemptions example_shop))) = 1"
  "t_amount (last (transactions (run example_redemptions example_shop))) = 80"
  by (simp_all add: run_def example_redemptions_def example_shop_def example_db_def
      post_users_me_transactions_def patch_transactions_id_processed_def user_exists_def
      find_user_def find_tx_def truthy_id_def create_tx_def update_tx_def increment_points_def
      balance_def Let_def)

text \<open>
  C1. A transfer, a redemption request and the processing of a redemption, in the backend
  and in the second copy, never take a balance below zero.
  \<^item> A success was guarded. A transfer succeeds only when the sender's balance is at
    least the truncated amount, and debits exactly that. A redemption request succeeds
    only when the truncated amount, which is the amount the row records, is at most the
    requester's balance, and writes no balance. Processing succeeds only when the owner's
    balance is at least the redeemed amount (the row's amount in the backend, its
    negation in the second copy), and debits exactly that.
  \<^item> A request that is refused, for whatever reason, leaves the store as it was.
  \<^item> A balance below the amount to debit makes each of them refuse.
  \<^item> So whatever the answer, a balance that was not negative before the request is not
    negative after it.
\<close>

theorem balance_non_negative:
  "((post_users_userId_transactions authId recipientId type amount remark d = (Inr st, d') \<longrightarrow>
      (\<exists>a b. amount = Some a \<and> balance d authId = Some b \<and> Math_trunc a \<le> b \<and>
             balance d' authId = Some (b - Math_trunc a) \<and> 0 \<le> b - Math_trunc a))
   \<and> (post_users_me_transactions authId type amount remark d = (Inr st, d') \<longrightarrow>
      (\<exists>a b. amount = Some a \<and> balance d authId = Some b \<and> Math_trunc a \<le> b \<and>
             0 \<le> b \<and> (\<forall>i. balance d' i = balance d i)))
   \<and> (post_users_me_transactions_p3 authId type amount remark d = (Inr st, d') \<longrightarrow>
      (\<exists>a b. amount = Some a \<and> balance d authId = Some b \<and> Math_trunc a \<le> b \<and>
             0 \<le> b \<and> (\<forall>i. balance d' i = balance d i)))
   \<and> (patch_transactions_id_processed authRole authId txId d = (Inr st, d') \<longrightarrow>
      (\<exists>k t b. txId = Some k \<and> find_tx k d = Some t \<and> balance d (t_userId t) = Some b \<and>
             t_amount t \<le> b \<and> balance d' (t_userId t) = Some (b - t_amount t) \<and>
             0 \<le> b - t_amount t))
   \<and> (patch_transactions_id_processed_p3 authRole authId txId d = (Inr st, d') \<longrightarrow>
      (\<exists>k t b. txId = Some k \<and> find_tx k d = Some t \<and> balance d (t_userId t) = Some b \<and>
             - t_amount t \<le> b \<and> balance d' (t_userId t) = Some (b - (- t_amount t)) \<and>
             0 \<le> b - (- t_amount t))))
   \<and> ((post_users_userId_transactions authId recipientId type amount remark d = (Inl err, d')
        \<longrightarrow> d' = d)
     \<and> (post_users_me_transactions authId type amount remark d = (Inl err, d') \<longrightarrow> d' = d)
     \<and> (post_users_me_transactions_p3 authId type amount remark d = (Inl err, d') \<longrightarrow> d' = d)
     \<and> (patch_transactions_id_processed authRole authId txId d = (Inl err, d') \<longrightarrow> d' = d)
     \<and> (patch_transactions_id_processed_p3 authRole authId txId d = (Inl err, d') \<longrightarrow> d' = d))
   \<and> ((amount = Some a \<and> balance d authId = Some b \<and> b < Math_trunc a \<longrightarrow>
        (\<exists>err. post_users_userId_transactions authId recipientId type amount remark d
                  = (Inl err, d)))
     \<and> (amount = Some a \<and> balance d authId = Some b \<and> b < Math_trunc a \<longrightarrow>
        (\<exists>err. post_users_me_transactions authId type amount remark d = (Inl err, d)))
     \<and> (amount = Some a \<and> balance d authId = Some b \<and> b < Math_trunc a \<longrightarrow>
        (\<exists>err. post_users_me_transactions_p3 authId type amount remark d = (Inl err, d)))
     \<and> (find_tx k d = Some t \<and> balance d (t_userId t) = Some b \<and> b < t_amount t \<longrightarrow>
        (\<exists>err. patch_transactions_id_processed authRole authId (Some k) d = (Inl err, d)))
     \<and> (find_tx k d = Some t \<and> balance d (t_userId t) = Some b \<and> b < - t_amount t \<longrightarrow>
        (\<exists>err. patch_transactions_id_processed_p3 authRole authId (Some k) d = (Inl err, d))))
   \<and> ((non_negative d i \<longrightarrow>
        non_negative (snd (post_users_userId_transactions authId recipientId type amount
           remark d)) i)
     \<and> (non_negative d i \<longrightarrow>
        non_negative (snd (post_users_me_transactions authId type amount remark d)) i)
     \<and> (non_negative d i \<longrightarrow>
        non_negative (snd (post_users_me_transactions_p3 authId type amount remark d)) i)
     \<and> (non_negative d i \<longrightarrow>
        non_negative (snd (patch_transactions_id_processed authRole authId txId d)) i)
     \<and> (non_negative d i \<longrightarrow>
        non_negative (snd (patch_transactions_id_processed_p3 authRole authId txId d)) i))"
  by (intro conjI [OF debits_guarded] conjI [OF refusals_change_nothing]
      conjI [OF insufficient_balance_refused] balances_stay_non_negative)

theorem balance_non_negative_witness:
  "balance (snd (post_users_userId_transactions 1 (Some 2) ''transfer'' (Some (61 / 2)) []
      example_db)) 1 = Some 70
   \<and> balance (snd (post_users_me_transactions 3 ''redemption'' (Some 50) [] example_db)) 3
       = Some 50
   \<and> balance (snd (post_users_me_transactions_p3 3 ''redemption'' (Some 50) [] example_db)) 3
       = Some 50
   \<and> fst (post_users_me_transactions 3 ''redemption'' (Some 50) [] example_db)
       = Inl Forbidden
   \<and> balance (snd (post_users_me_transactions 2 ''redemption'' (Some 10) [] example_db)) 2
       = Some 10
   \<and> balance (snd (post_users_me_transactions_p3 2 ''redemption'' (Some 10) [] example_db)) 2
       = Some 10
   \<and> balance (snd (patch_transactions_id_processed Cashier 3 (Some 1) example_shop)) 1
       = Some 60
   \<and> balance (snd (patch_transactions_id_processed_p3 Cashier 3 (Some 2) example_shop)) 2
       = Some 0
   \<and> snd (post_users_me_transactions 2 ''redemption'' (Some 11) [] example_db) = example_db
   \<and> snd (post_users_userId_transactions 2 (Some 1) ''transfer'' (Some 11) [] example_db)
       = example_db
   \<and> balance (run example_redemptions example_shop) 1 = Some 20
   \<and> snd (patch_transactions_id_processed Cashier 3 (Some 5)
        (run example_redemptions example_shop)) = run example_redemptions example_shop
   \<and> non_negative (snd (patch_transactions_id_processed Cashier 3 (Some 5)
        (run example_redemptions example_shop))) 1"
proof -
  let ?t = "post_users_userId_transactions 1 (Some 2) ''transfer'' (Some (61 / 2)) [] example_db"
  let ?r = "post_users_me_transactions 2 ''redemption'' (Some 10) [] example_db"
  let ?r3 = "post_users_me_transactions_p3 2 ''redemption'' (Some 10) [] example_db"
  let ?p = "patch_transactions_id_processed Cashier 3 (Some 1) example_shop"
  let ?p3 = "patch_transactions_id_processed_p3 Cashier 3 (Some 2) example_shop"
  let ?s = "run example_redemptions example_shop"
  have tr: "Math_trunc (61 / 2) = 30"
    by (simp add: Math_trunc_def)
  have "fst ?t = Inr 201"
    by (simp add: post_users_userId_transactions_def example_db_def find_user_def Let_def tr)
  then have ht: "?t = (Inr 201, snd ?t)"
    by (metis prod.collapse)
  have "fst ?r = Inr 201"
    by (simp add: post_users_me_transactions_def example_db_def find_user_def Let_def)
  then have hr: "?r = (Inr 201, snd ?r)"
    by (metis prod.collapse)
  have "fst ?r3 = Inr 201"
    by (simp add: post_users_me_transactions_p3_def example_db_def find_user_def Let_def)
  then have hr3: "?r3 = (Inr 201, snd ?r3)"
    by (metis prod.collapse)
  have ft: "find_tx 1 example_shop = Some (transactions example_shop ! 0)"
    "find_tx 2 example_shop = Some (transactions example_shop ! 1)"
    by (simp_all add: find_tx_def example_shop_def)
  have "fst ?p = Inr 200"
    by (simp add: patch_transactions_id_processed_def example_shop_def example_db_def
        find_user_def find_tx_def truthy_id_def user_exists_def Let_def)
  then have hp: "?p = (Inr 200, snd ?p)"
    by (metis prod.collapse)
  have "fst ?p3 = Inr 200"
    by (simp add: patch_transactions_id_processed_p3_def example_shop_def example_db_def
        find_user_def find_tx_def truthy_id_def user_exists_def Let_def)
  then have hp3: "?p3 = (Inr 200, snd ?p3)"
    by (metis prod.collapse)
  have c: "fst (post_users_me_transactions 3 ''redemption'' (Some 50) [] example_db)
             = Inl Forbidden"
    "snd (post_users_me_transactions 3 ''redemption'' (Some 50) [] example_db) = example_db"
    "snd (post_users_me_transactions_p3 3 ''redemption'' (Some 50) [] example_db) = example_db"
    by (simp_all add: post_users_me_transactions_def post_users_me_transactions_p3_def
        example_db_def find_user_def)
  have amt: "t_amount (transactions example_shop ! 0) = 40"
    "t_userId (transactions example_shop ! 0) = 1"
    "t_amount (transactions example_shop ! 1) = - 10"
    "t_userId (transactions example_shop ! 1) = 2"
    by (simp_all add: example_shop_def)
  note bnn = balance_non_negative
  note guarded = bnn [THEN conjunct1]
  from guarded [THEN conjunct1, rule_format, OF ht]
  obtain a b where e: "Some (61 / 2 :: rat) = Some a" "balance example_db 1 = Some b"
    "balance (snd ?t) 1 = Some (b - Math_trunc a)"
    by blast
  from e(1) have "a = 61 / 2"
    by (simp only: option.inject)
  with tr e example_db_facts have w1: "balance (snd ?t) 1 = Some 70"
    by simp
  from guarded [THEN conjunct2, THEN conjunct1, rule_format, OF hr]
  have w2: "balance (snd ?r) 2 = Some 10"
    using example_db_facts by auto
  from guarded [THEN conjunct2, THEN conjunct2, THEN conjunct1, rule_format, OF hr3]
  have w3: "balance (snd ?r3) 2 = Some 10"
    using example_db_facts by auto
  from guarded [THEN conjunct2, THEN conjunct2, THEN conjunct2, THEN conjunct1, rule_format,
      OF hp]
  have w4: "balance (snd ?p) 1 = Some 60"
    using example_shop_facts ft amt by auto
  from guarded [THEN conjunct2, THEN conjunct2, THEN conjunct2, THEN conjunct2, rule_format,
      OF hp3]
  have w5: "balance (snd ?p3) 2 = Some 0"
    using example_shop_facts ft amt by auto
  from bnn [where amount = "Some 11" and a = 11 and d = example_db and authId = 2
      and b = 10 and type = "''redemption''" and remark = "[]",
      THEN conjunct2, THEN conjunct2, THEN conjunct1, THEN conjunct2, THEN conjunct1]
    example_db_facts
  have w6: "snd (post_users_me_transactions 2 ''redemption'' (Some 11) [] example_db)
      = example_db"
    by auto
  from bnn [where amount = "Some 11" and a = 11 and d = example_db and authId = 2
      and b = 10 and type = "''transfer''" and remark = "[]" and recipientId = "Some 1",
      THEN conjunct2, THEN conjunct2, THEN conjunct1, THEN conjunct1] example_db_facts
  have w7: "snd (post_users_userId_transactions 2 (Some 1) ''transfer'' (Some 11) [] example_db)
      = example_db"
    by auto
  from bnn [where k = 5 and d = ?s and b = 20
      and t = "last (transactions ?s)" and authRole = Cashier and authId = 3,
      THEN conjunct2, THEN conjunct2, THEN conjunct1,
      THEN conjunct2, THEN conjunct2, THEN conjunct2, THEN conjunct1]
    example_second_redemption
  have w8: "snd (patch_transactions_id_processed Cashier 3 (Some 5) ?s) = ?s"
    by auto
  have "non_negative ?s 1"
    using example_second_redemption by (simp add: non_negative_def)
  with bnn [where d = ?s and i = 1 and authRole = Cashier and authId = 3
      and txId = "Some 5", THEN conjunct2, THEN conjunct2, THEN conjunct2,
      THEN conjunct2, THEN conjunct2, THEN conjunct2, THEN conjunct1]
  have w9: "non_negative (snd (patch_transactions_id_processed Cashier 3 (Some 5) ?s)) 1"
    by simp
  from w1 w2 w3 w4 w5 w6 w7 w8 w9 c example_db_facts example_second_redemption show ?thesis
    by simp
qed

subsection \<open>Suspicious toggle\<close>

lemma find_tx_update_tx:
  assumes "\<And>r. t_id (f r) = t_id r"
  shows "find_tx k (update_tx j f d) =
           map_option (\<lambda>r. if t_id r = j then f r else r) (find_tx k d)"
  unfolding find_tx_def update_tx_def using assms
  by (simp add: find_map_same)

lemma find_tx_increment_points [simp]: "find_tx k (increment_points j n d) = find_tx k d"
  by (simp add: find_tx_def)

lemma find_tx_id: "find_tx k d = Some t \<Longrightarrow> t_id t = k"
  by (auto simp: find_tx_def find_Some_iff)

lemma toggle_success:
  assumes "patch_transactions_id_suspicious authRole txId suspicious d = (Inr t', d')"
  shows "\<exists>k s t. txId = Some k \<and> suspicious = Some s \<and> find_tx k d = Some t \<and>
           ORDER Manager \<le> ORDER authRole \<and>
           (t_suspicious t = Some s \<and> d' = d \<and> t' = t
            \<or> t_suspicious t \<noteq> Some s \<and> find_user (t_userId t) d \<noteq> None \<and>
              d' = increment_points (t_userId t) (if s then - t_amount t else t_amount t)
                     (update_tx k (\<lambda>r. r\<lparr>t_suspicious := Some s\<rparr>) d) \<and>
              find_tx k d' = Some t')"
  using assms unfolding patch_transactions_id_suspicious_def
  by (auto split: option.splits if_splits simp: Let_def)

lemma toggle_changed:
  assumes h: "patch_transactions_id_suspicious authRole (Some k) (Some s) d = (Inr t', d')"
    and t: "find_tx k d = Some t" and ne: "t_suspicious t \<noteq> Some s"
  shows "d' = increment_points (t_userId t) (if s then - t_amount t else t_amount t)
                (update_tx k (\<lambda>r. r\<lparr>t_suspicious := Some s\<rparr>) d)"
    and "t' = t\<lparr>t_suspicious := Some s\<rparr>"
    and "find_tx k d' = Some t'"
    and "find_user (t_userId t) d \<noteq> None"
proof -
  from toggle_success [OF h] t ne
  have d': "d' = increment_points (t_userId t) (if s then - t_amount t else t_amount t)
                (update_tx k (\<lambda>r. r\<lparr>t_suspicious := Some s\<rparr>) d)"
    and f: "find_tx k d' = Some t'" and u: "find_user (t_userId t) d \<noteq> None"
    by auto
  have "find_tx k d' = Some (t\<lparr>t_suspicious := Some s\<rparr>)"
    unfolding d' using t by (simp add: find_tx_update_tx find_tx_id)
  with f have t': "t' = t\<lparr>t_suspicious := Some s\<rparr>" by simp
  from d' t' f u show "d' = increment_points (t_userId t) (if s then - t_amount t else t_amount t)
                (update_tx k (\<lambda>r. r\<lparr>t_suspicious := Some s\<rparr>) d)"
    and "t' = t\<lparr>t_suspicious := Some s\<rparr>"
    and "find_tx k d' = Some t'"
    and "find_user (t_userId t) d \<noteq> None"
    by simp_all
qed

text \<open>
  C6. The stored flag is a nullable boolean. A toggle request whose flag equals the stored
  flag returns the row and the store as they are. A request with a different flag stores
  it and moves the owner's balance, and nothing else's, by minus the row's amount when
  marking and by plus the row's amount when un-marking. Marking a row that is not marked
  and then un-marking it gives every balance its prior value.
\<close>

theorem suspicious_toggle:
  "(ORDER Manager \<le> ORDER authRole \<and> find_tx k d = Some t \<and> t_suspicious t = Some s \<longrightarrow>
      patch_transactions_id_suspicious authRole (Some k) (Some s) d = (Inr t, d))
   \<and> (patch_transactions_id_suspicious authRole (Some k) (Some s) d = (Inr t', d') \<and>
      find_tx k d = Some t \<and> t_suspicious t \<noteq> Some s \<longrightarrow>
        (\<exists>b. balance d (t_userId t) = Some b \<and>
             balance d' (t_userId t) = Some (b + (if s then - t_amount t else t_amount t))) \<and>
        (\<forall>i. i \<noteq> t_userId t \<longrightarrow> balance d' i = balance d i) \<and>
        t' = t\<lparr>t_suspicious := Some s\<rparr> \<and> find_tx k d' = Some t')
   \<and> (find_tx k d = Some t \<and> t_suspicious t \<noteq> Some True \<and>
      patch_transactions_id_suspicious authRole (Some k) (Some True) d = (Inr t1, d1) \<and>
      patch_transactions_id_suspicious authRole2 (Some k) (Some False) d1 = (Inr t2, d2) \<longrightarrow>
        (\<forall>i. balance d2 i = balance d i))"
proof (intro conjI impI)
  assume "ORDER Manager \<le> ORDER authRole \<and> find_tx k d = Some t \<and> t_suspicious t = Some s"
  then show "patch_transactions_id_suspicious authRole (Some k) (Some s) d = (Inr t, d)"
    by (simp add: patch_transactions_id_suspicious_def)
next
  assume a: "patch_transactions_id_suspicious authRole (Some k) (Some s) d = (Inr t', d') \<and>
      find_tx k d = Some t \<and> t_suspicious t \<noteq> Some s"
  note c = toggle_changed [of authRole k s d t' d' t]
  from a c obtain u where u: "find_user (t_userId t) d = Some u"
    by auto
  have d': "d' = increment_points (t_userId t) (if s then - t_amount t else t_amount t)
                (update_tx k (\<lambda>r. r\<lparr>t_suspicious := Some s\<rparr>) d)"
    using a c by blast
  show "(\<exists>b. balance d (t_userId t) = Some b \<and>
             balance d' (t_userId t) = Some (b + (if s then - t_amount t else t_amount t)))"
    unfolding d' using u by (simp add: balance_increment_points balance_find_user)
  show "\<forall>i. i \<noteq> t_userId t \<longrightarrow> balance d' i = balance d i"
    unfolding d' by (simp add: balance_increment_points)
  show "t' = t\<lparr>t_suspicious := Some s\<rparr>" using a c by blast
  show "find_tx k d' = Some t'" using a c by blast
next
  assume a: "find_tx k d = Some t \<and> t_suspicious t \<noteq> Some True \<and>
      patch_transactions_id_suspicious authRole (Some k) (Some True) d = (Inr t1, d1) \<and>
      patch_transactions_id_suspicious authRole2 (Some k) (Some False) d1 = (Inr t2, d2)"
  note c1 = toggle_changed [of authRole k True d t1 d1 t]
  have d1: "d1 = increment_points (t_userId t) (- t_amount t)
                (update_tx k (\<lambda>r. r\<lparr>t_suspicious := Some True\<rparr>) d)"
    and t1: "t1 = t\<lparr>t_suspicious := Some True\<rparr>" and f1: "find_tx k d1 = Some t1"
    using a c1 by simp_all
  have ne: "t_suspicious t1 \<noteq> Some False" using t1 by simp
  note c2 = toggle_changed [of authRole2 k False d1 t2 d2 t1]
  have d2: "d2 = increment_points (t_userId t1) (t_amount t1)
                (update_tx k (\<lambda>r. r\<lparr>t_suspicious := Some False\<rparr>) d1)"
    using a c2 f1 ne by simp
  show "\<forall>i. balance d2 i = balance d i"
    unfolding d2 d1 t1
    by (cases "balance d (t_userId t)") (auto simp: balance_increment_points)
qed

lemma example_shop_purchase_row: "find_tx 3 example_shop = Some purchase_row"
  by (simp add: find_tx_def example_shop_def purchase_row_def)

theorem suspicious_toggle_witness:
  "patch_transactions_id_suspicious Manager (Some 3) (Some False) example_shop
     = (Inr purchase_row, example_shop)
   \<and> balance (snd (patch_transactions_id_suspicious Manager (Some 3) (Some True) example_shop)) 2
       = Some 2
   \<and> balance (snd (patch_transactions_id_suspicious Superuser (Some 3) (Some False)
        (snd (patch_transactions_id_suspicious Manager (Some 3) (Some True) example_shop)))) 2
       = Some 10"
proof -
  let ?m = "patch_transactions_id_suspicious Manager (Some 3) (Some True) example_shop"
  let ?u = "patch_transactions_id_suspicious Superuser (Some 3) (Some False) (snd ?m)"
  note row = example_shop_purchase_row
  have fl: "t_suspicious purchase_row = Some False" "t_suspicious purchase_row \<noteq> Some True"
    "t_userId purchase_row = 2" "t_amount purchase_row = 8"
    by (simp_all add: purchase_row_def)
  have fu: "find_user 2 example_shop \<noteq> None"
    by (simp add: find_user_def example_shop_def example_db_def)
  have m: "?m = (Inr (purchase_row\<lparr>t_suspicious := Some True\<rparr>), snd ?m)"
    using row fl fu
    by (auto simp: patch_transactions_id_suspicious_def Let_def find_tx_update_tx find_tx_id
        split: option.splits)
  have row1: "find_tx 3 (snd ?m) = Some (purchase_row\<lparr>t_suspicious := Some True\<rparr>)"
    using row fl fu
    by (auto simp: patch_transactions_id_suspicious_def Let_def find_tx_update_tx find_tx_id
        split: option.splits)
  have fu1: "find_user 2 (snd ?m) \<noteq> None"
    using row fl fu
    by (auto simp: patch_transactions_id_suspicious_def Let_def find_user_increment_points
        split: option.splits)
  have u: "?u = (Inr (purchase_row\<lparr>t_suspicious := Some False\<rparr>), snd ?u)"
    using row1 fl fu1
    by (auto simp: patch_transactions_id_suspicious_def Let_def find_tx_update_tx find_tx_id
        split: option.splits)
  note st = suspicious_toggle
  have w1: "patch_transactions_id_suspicious Manager (Some 3) (Some False) example_shop
     = (Inr purchase_row, example_shop)"
    using st [THEN conjunct1, of Manager 3 example_shop purchase_row False] row fl by simp
  have w2: "balance (snd ?m) 2 = Some 2"
    using st [THEN conjunct2, THEN conjunct1, of Manager 3 True example_shop _ "snd ?m"
        purchase_row] m row fl example_shop_facts
    by auto
  have w3: "balance (snd ?u) 2 = Some 10"
    using st [THEN conjunct2, THEN conjunct2, of 3 example_shop purchase_row Manager _ "snd ?m"
        Superuser _ "snd ?u"] m u row fl example_shop_facts
    by auto
  from w1 w2 w3 show ?thesis by simp
qed

subsection \<open>Transfer failures\<close>

text \<open>
  C7, as the claim states it, fails: a sender who is not verified is refused with
  Forbidden (status 403), not with BadRequest. Carol, user 3 of \<open>example_db\<close>, is not
  verified and sends 5 points to user 1.
\<close>

theorem transfer_unverified_counterexample:
  "map_option u_verified (find_user 3 example_db) = Some False
   \<and> post_users_userId_transactions 3 (Some 1) ''transfer'' (Some 5) [] example_db
       = (Inl Forbidden, example_db)
   \<and> fst (post_users_userId_transactions 3 (Some 1) ''transfer'' (Some 5) [] example_db)
       \<noteq> Inl BadRequest"
  by (simp add: post_users_userId_transactions_def example_db_def find_user_def)

text \<open>
  C7, amended. A transfer fails with BadRequest when the recipient equals the sender.
  For a request of type transfer with a positive amount to another user, it fails with
  NotFound when the recipient does not exist; else with Forbidden when the sender is not
  verified; else with BadRequest when the sender's balance is below the truncated amount.
  Every failure leaves the store as it was: no row is created and no balance changes.
\<close>

theorem transfer_failures:
  "(recipientId = Some authId \<longrightarrow>
      post_users_userId_transactions authId recipientId type amount remark d
        = (Inl BadRequest, d))
   \<and> (type = ''transfer'' \<and> amount = Some a \<and> 0 < a \<and> recipientId = Some rid \<and>
      rid \<noteq> authId \<and> find_user rid d = None \<longrightarrow>
      post_users_userId_transactions authId recipientId type amount remark d
        = (Inl NotFound, d))
   \<and> (type = ''transfer'' \<and> amount = Some a \<and> 0 < a \<and> recipientId = Some rid \<and>
      rid \<noteq> authId \<and> find_user rid d = Some recipient \<and> find_user authId d = Some sender \<and>
      \<not> u_verified sender \<longrightarrow>
      post_users_userId_transactions authId recipientId type amount remark d
        = (Inl Forbidden, d))
   \<and> (type = ''transfer'' \<and> amount = Some a \<and> 0 < a \<and> recipientId = Some rid \<and>
      rid \<noteq> authId \<and> find_user rid d = Some recipient \<and> find_user authId d = Some sender \<and>
      u_verified sender \<and> u_points sender < Math_trunc a \<longrightarrow>
      post_users_userId_transactions authId recipientId type amount remark d
        = (Inl BadRequest, d))
   \<and> (post_users_userId_transactions authId recipientId type amount remark d = (Inl err, d') \<longrightarrow>
      d' = d \<and> transactions d' = transactions d \<and> (\<forall>i. balance d' i = balance d i))"
proof (intro conjI impI)
  assume "post_users_userId_transactions authId recipientId type amount remark d = (Inl err, d')"
  then have "d' = d" by (rule transfer_failure_unchanged)
  then show "d' = d" "transactions d' = transactions d" "\<forall>i. balance d' i = balance d i"
    by simp_all
qed (auto simp: post_users_userId_transactions_def Let_def split: option.splits)

theorem transfer_failures_witness:
  "post_users_userId_transactions 1 (Some 1) ''transfer'' (Some 5) [] example_db
     = (Inl BadRequest, example_db)
   \<and> post_users_userId_transactions 1 (Some 9) ''transfer'' (Some 5) [] example_db
     = (Inl NotFound, example_db)
   \<and> post_users_userId_transactions 3 (Some 1) ''transfer'' (Some 5) [] example_db
     = (Inl Forbidden, example_db)
   \<and> post_users_userId_transactions 2 (Some 1) ''transfer'' (Some 11) [] example_db
     = (Inl BadRequest, example_db)
   \<and> transactions (snd (post_users_userId_transactions 2 (Some 1) ''transfer'' (Some 11) []
        example_db)) = []"
proof -
  note tf = transfer_failures
  have u: "find_user 9 example_db = None"
    "find_user 1 example_db = Some (users example_db ! 0)"
    "find_user 2 example_db = Some (users example_db ! 1)"
    "find_user 3 example_db = Some (users example_db ! 2)"
    "\<not> u_verified (users example_db ! 2)" "u_verified (users example_db ! 1)"
    "u_points (users example_db ! 1) = 10"
    by (simp_all add: find_user_def example_db_def)
  have w1: "post_users_userId_transactions 1 (Some 1) ''transfer'' (Some 5) [] example_db
     = (Inl BadRequest, example_db)"
    using tf [THEN conjunct1, of "Some 1" 1] by simp
  have w2: "post_users_userId_transactions 1 (Some 9) ''transfer'' (Some 5) [] example_db
     = (Inl NotFound, example_db)"
    using tf [THEN conjunct2, THEN conjunct1, of "''transfer''" "Some 5" 5 "Some 9" 9 1
        example_db] u
    by simp
  have w3: "post_users_userId_transactions 3 (Some 1) ''transfer'' (Some 5) [] example_db
     = (Inl Forbidden, example_db)"
    using tf [THEN conjunct2, THEN conjunct2, THEN conjunct1,
        of "''transfer''" "Some 5" 5 "Some 1" 1 3 example_db "users example_db ! 0"
          "users example_db ! 2"] u
    by simp
  have w4: "post_users_userId_transactions 2 (Some 1) ''transfer'' (Some 11) [] example_db
     = (Inl BadRequest, example_db)"
    using tf [THEN conjunct2, THEN conjunct2, THEN conjunct2, THEN conjunct1,
        of "''transfer''" "Some 11" 11 "Some 1" 1 2 example_db "users example_db ! 0"
          "users example_db ! 1"] u
    by simp
  have w5: "transactions (snd (post_users_userId_transactions 2 (Some 1) ''transfer'' (Some 11) []
        example_db)) = []"
    using tf [THEN conjunct2, THEN conjunct2, THEN conjunct2, THEN conjunct2,
        of 2 "Some 1" "''transfer''" "Some 11" "[]" example_db BadRequest
          "snd (post_users_userId_transactions 2 (Some 1) ''transfer'' (Some 11) [] example_db)"]
      w4 example_db_facts
    by simp
  from w1 w2 w3 w4 w5 show ?thesis by simp
qed

subsection \<open>The event budget\<close>

lemma events_increment_points [simp]: "events (increment_points i n d) = events d"
  by (simp add: increment_points_def)

lemma events_create_tx [simp]: "events (create_tx t d) = events d"
  by (simp add: create_tx_def)

lemma events_update_tx [simp]: "events (update_tx i f d) = events d"
  by (simp add: update_tx_def)

lemma event_seq_increment_points [simp]: "event_seq (increment_points i n d) = event_seq d"
  by (simp add: increment_points_def)

lemma event_seq_create_tx [simp]: "event_seq (create_tx t d) = event_seq d"
  by (simp add: create_tx_def)

lemma event_seq_update_tx [simp]: "event_seq (update_tx i f d) = event_seq d"
  by (simp add: update_tx_def)

lemma event_seq_update_event [simp]: "event_seq (update_event i f d) = event_seq d"
  by (simp add: update_event_def)

lemma events_upsert_usage [simp]: "events (upsert_usage u p d) = events d"
  by (simp add: upsert_usage_def)

lemma event_seq_upsert_usage [simp]: "event_seq (upsert_usage u p d) = event_seq d"
  by (simp add: upsert_usage_def)

lemma award_guests_events:
  "award_guests gs award remark eid actor d = Some d1
     \<Longrightarrow> events d1 = events d \<and> event_seq d1 = event_seq d"
  by (induction gs arbitrary: d) (auto split: option.splits)

lemma create_txPromotions_events:
  "create_txPromotions k ps d = Some d1 \<Longrightarrow> events d1 = events d \<and> event_seq d1 = event_seq d"
  by (induction ps arbitrary: d) (auto split: if_splits)

lemma mark_used_events [simp]:
  "events (mark_used u ps d) = events d" "event_seq (mark_used u ps d) = event_seq d"
  by (induction ps arbitrary: d) auto

lemma find_event_id: "find_event i d = Some e \<Longrightarrow> e_id e = i"
  by (auto simp: find_event_def find_Some_iff)

lemma find_event_mem: "find_event i d = Some e \<Longrightarrow> e \<in> set (events d)"
  by (auto simp: find_event_def find_Some_iff)

lemma find_event_update_event:
  assumes "\<And>e. e_id (f e) = e_id e"
  shows "find_event i (update_event j f d) =
           map_option (\<lambda>e. if e_id e = j then f e else e) (find_event i d)"
  unfolding find_event_def update_event_def using assms
  by (simp add: find_map_same)

lemma distinct_ids_unique:
  assumes "distinct (map e_id es)" and "e \<in> set es" and "e' \<in> set es" and "e_id e' = e_id e"
  shows "e' = e"
  using assms by (meson distinct_map inj_on_def)

lemma events_wf_unique:
  assumes "events_wf d" and "find_event i d = Some e" and "e' \<in> set (events d)"
    and "e_id e' = i"
  shows "e' = e"
proof -
  have "e \<in> set (events d)" "e_id e = i"
    using assms(2) by (auto dest: find_event_id find_event_mem)
  moreover have "distinct (map e_id (events d))"
    using assms(1) by (simp add: events_wf_def)
  ultimately show ?thesis
    using assms(3,4) distinct_ids_unique [of "events d" e e'] by simp
qed


lemma events_wf_update_event:
  assumes "events_wf d" and "\<And>e. e_id (f e) = e_id e"
  shows "events_wf (update_event i f d)"
proof -
  let ?g = "\<lambda>e. if e_id e = i then f e else e"
  have m: "map (e_id \<circ> ?g) (events d) = map e_id (events d)"
    using assms(2) by (intro map_cong) simp_all
  have l: "list_all (\<lambda>e. e_id e < event_seq d) (map ?g (events d))"
    using assms unfolding events_wf_def list_all_iff by auto
  have "distinct (map e_id (events d))"
    using assms(1) by (simp add: events_wf_def)
  then show ?thesis
    using l by (simp add: events_wf_def update_event_def m)
qed

lemma budget_inv_update_event:
  assumes "budget_inv d" and "\<And>e. e \<in> set (events d) \<Longrightarrow> e_id e = i \<Longrightarrow> budget_ok (f e)"
  shows "budget_inv (update_event i f d)"
  using assms by (auto simp: budget_inv_def update_event_def list_all_iff)

lemma budget_inv_spend_budget: "budget_inv d \<Longrightarrow> budget_inv (spend_budget i n d)"
  unfolding spend_budget_def
  by (rule budget_inv_update_event) (auto simp: budget_inv_def budget_ok_def list_all_iff)

lemma events_wf_spend_budget: "events_wf d \<Longrightarrow> events_wf (spend_budget i n d)"
  unfolding spend_budget_def by (rule events_wf_update_event) simp_all

lemma find_event_spend_budget:
  "find_event i (spend_budget i n d) =
     map_option (\<lambda>e. e\<lparr>e_pointsRemain := e_pointsRemain e - n,
                        e_pointsAwarded := e_pointsAwarded e + n\<rparr>) (find_event i d)"
  unfolding spend_budget_def
  by (cases "find_event i d") (auto simp: find_event_update_event dest: find_event_id)

lemma store_ok_same:
  "events d' = events d \<Longrightarrow> event_seq d' = event_seq d \<Longrightarrow> store_ok d \<Longrightarrow> store_ok d'"
  by (simp add: store_ok_def events_wf_def budget_inv_def)

lemma store_ok_spend_budget: "store_ok d \<Longrightarrow> store_ok (spend_budget i n d)"
  by (simp add: store_ok_def events_wf_spend_budget budget_inv_spend_budget)

lemma post_events_failed:
  "post_events authRole name description location startTime endTime capacity points d
     = (Inl err, d') \<Longrightarrow> d' = d"
  unfolding post_events_def
  by (simp split: option.splits if_splits field.splits)

lemma floor_pos_integer: "Number_isInteger p \<Longrightarrow> \<not> p \<le> 0 \<Longrightarrow> 0 < \<lfloor>p\<rfloor>"
  unfolding Number_isInteger_def
  by (metis not_le of_int_0_less_iff)

lemma post_events_created:
  assumes "post_events authRole name description location startTime endTime capacity points d
             = (Inr st, d')"
  shows "\<exists>stt ett cap p. points = Some p \<and> Number_isInteger p \<and> 0 < p \<and>
           d' = create_event (new_event name description location stt ett cap \<lfloor>p\<rfloor>) d"
  using assms unfolding post_events_def
  by (auto split: option.splits if_splits field.splits)

lemma store_ok_create_event:
  assumes "store_ok d" and "e_pointsRemain e + e_pointsAwarded e = e_pointsTotal e"
  shows "store_ok (create_event e d)"
proof -
  have "event_seq d \<notin> e_id ` set (events d)"
    using assms(1) by (auto simp: store_ok_def events_wf_def list_all_iff)
  with assms show ?thesis
    by (auto simp: store_ok_def create_event_def events_wf_def budget_inv_def budget_ok_def
        list_all_iff)
qed

lemma store_ok_post_events:
  assumes "store_ok d"
  shows "store_ok (snd (post_events authRole name description location startTime endTime
           capacity points d))"
proof (cases "post_events authRole name description location startTime endTime capacity points d")
  case (Pair r d')
  show ?thesis
  proof (cases r)
    case (Inl err)
    with Pair have "d' = d" by (simp add: post_events_failed)
    with Pair assms show ?thesis by simp
  next
    case (Inr st)
    with Pair have "post_events authRole name description location startTime endTime
        capacity points d = (Inr st, d')"
      by simp
    from post_events_created [OF this] obtain stt ett cap and p :: rat where
      "d' = create_event (new_event name description location stt ett cap \<lfloor>p\<rfloor>) d"
      by blast
    with assms have "store_ok d'"
      by (simp add: store_ok_create_event new_event_def)
    with Pair show ?thesis by simp
  qed
qed

lemma award_failed:
  "post_events_id_transactions authRole authId eventId type utorid amount remark d
     = (Inl err, d') \<Longrightarrow> d' = d"
  unfolding post_events_id_transactions_def
  by (simp split: option.splits if_splits add: Let_def)

lemma award_failed_p3:
  "post_events_id_transactions_p3 authRole authId eventId utorid allGuests amount remark d
     = (Inl err, d') \<Longrightarrow> d' = d"
  unfolding post_events_id_transactions_p3_def
  by (simp split: option.splits if_splits add: Let_def)

lemma award_success_all:
  assumes "post_events_id_transactions authRole authId eventId type [] amount remark d
             = (Inr st, d')"
  shows "\<exists>eid a e. eventId = Some eid \<and> 0 < eid \<and> type = ''event'' \<and> amount = Some a \<and>
           Number_isInteger a \<and> 0 < a \<and> find_event eid d = Some e \<and>
           (ORDER Manager \<le> ORDER authRole \<or> is_organizer eid authId d) \<and>
           \<lfloor>a\<rfloor> * int (length (guests_of eid d)) \<le> e_pointsRemain e \<and>
           (guests_of eid d = [] \<and> d' = d \<and> st = 200 \<or>
            guests_of eid d \<noteq> [] \<and> st = 200 \<and>
            (\<exists>d1. award_guests (guests_of eid d) \<lfloor>a\<rfloor> remark eid authId d = Some d1 \<and>
                  d' = spend_budget eid (\<lfloor>a\<rfloor> * int (length (guests_of eid d))) d1))"
  using assms unfolding post_events_id_transactions_def
  by (auto split: option.splits if_splits simp: Let_def)

lemma award_success_one:
  assumes "post_events_id_transactions authRole authId eventId type utorid amount remark d
             = (Inr st, d')" and "utorid \<noteq> []"
  shows "\<exists>eid a e u. eventId = Some eid \<and> 0 < eid \<and> type = ''event'' \<and> amount = Some a \<and>
           Number_isInteger a \<and> 0 < a \<and> find_event eid d = Some e \<and>
           (ORDER Manager \<le> ORDER authRole \<or> is_organizer eid authId d) \<and>
           find_user_by_utorid utorid d = Some u \<and> is_guest eid (u_id u) d \<and>
           \<lfloor>a\<rfloor> \<le> e_pointsRemain e \<and> st = 201 \<and>
           d' = spend_budget eid \<lfloor>a\<rfloor>
                  (increment_points (u_id u) \<lfloor>a\<rfloor>
                    (create_tx (event_row (u_id u) \<lfloor>a\<rfloor> remark eid authId) d))"
  using assms unfolding post_events_id_transactions_def
  by (auto split: option.splits if_splits simp: Let_def)

lemma award_success_all_p3:
  assumes "post_events_id_transactions_p3 authRole authId eventId utorid True amount
             remark d = (Inr st, d')"
  shows "\<exists>eid a e d1. eventId = Some eid \<and> amount = Some a \<and> 0 < a \<and>
           find_event eid d = Some e \<and>
           (ORDER Manager \<le> ORDER authRole \<or> is_organizer eid authId d) \<and>
           ceilInt a * int (length (guests_of eid d)) \<le> e_pointsRemain e \<and> st = 200 \<and>
           award_guests (guests_of eid d) (ceilInt a) remark eid authId d = Some d1 \<and>
           d' = spend_budget eid (ceilInt a * int (length (guests_of eid d))) d1"
  using assms unfolding post_events_id_transactions_p3_def
  by (auto split: option.splits if_splits simp: Let_def)

lemma award_success_one_p3:
  assumes "post_events_id_transactions_p3 authRole authId eventId utorid False amount
             remark d = (Inr st, d')"
  shows "\<exists>eid a e u. eventId = Some eid \<and> amount = Some a \<and> 0 < a \<and>
           find_event eid d = Some e \<and>
           (ORDER Manager \<le> ORDER authRole \<or> is_organizer eid authId d) \<and>
           utorid \<noteq> [] \<and> find_user_by_utorid utorid d = Some u \<and>
           is_guest eid (u_id u) d \<and> ceilInt a \<le> e_pointsRemain e \<and> st = 200 \<and>
           d' = spend_budget eid (ceilInt a)
                  (increment_points (u_id u) (ceilInt a)
                    (create_tx (event_row (u_id u) (ceilInt a) remark eid authId) d))"
  using assms unfolding post_events_id_transactions_p3_def
  by (auto split: option.splits if_splits simp: Let_def)

lemma store_ok_award_guests:
  "award_guests gs award remark eid actor d = Some d1 \<Longrightarrow> store_ok d \<Longrightarrow> store_ok d1"
  using award_guests_events [of gs award remark eid actor d d1] by (auto intro: store_ok_same)

lemma store_ok_award:
  assumes "store_ok d"
  shows "store_ok (snd (post_events_id_transactions authRole authId eventId type utorid amount
           remark d))"
proof (cases "post_events_id_transactions authRole authId eventId type utorid amount remark d")
  case (Pair r d')
  show ?thesis
  proof (cases r)
    case (Inl err)
    with Pair have "d' = d" by (simp add: award_failed)
    with Pair assms show ?thesis by simp
  next
    case (Inr st)
    with Pair have h: "post_events_id_transactions authRole authId eventId type utorid amount
        remark d = (Inr st, d')"
      by simp
    have "store_ok d'"
    proof (cases "utorid = []")
      case True
      with h award_success_all [of authRole authId eventId type amount remark d st d']
      obtain eid n d1 where "d' = d \<or> store_ok d1 \<and> d' = spend_budget eid n d1"
        using assms by (auto dest: store_ok_award_guests)
      with assms show ?thesis by (auto intro: store_ok_spend_budget)
    next
      case False
      from award_success_one [OF h False]
      obtain eid n d1 where "d' = spend_budget eid n d1" "events d1 = events d"
        "event_seq d1 = event_seq d"
        by auto
      with assms show ?thesis by (auto intro!: store_ok_spend_budget intro: store_ok_same)
    qed
    with Pair show ?thesis by simp
  qed
qed

lemma store_ok_award_p3:
  assumes "store_ok d"
  shows "store_ok (snd (post_events_id_transactions_p3 authRole authId eventId utorid allGuests
           amount remark d))"
proof (cases "post_events_id_transactions_p3 authRole authId eventId utorid allGuests amount
    remark d")
  case (Pair r d')
  show ?thesis
  proof (cases r)
    case (Inl err)
    with Pair have "d' = d" by (simp add: award_failed_p3)
    with Pair assms show ?thesis by simp
  next
    case (Inr st)
    with Pair have h: "post_events_id_transactions_p3 authRole authId eventId utorid allGuests
        amount remark d = (Inr st, d')"
      by simp
    have "store_ok d'"
    proof (cases allGuests)
      case True
      with h award_success_all_p3 [of authRole authId eventId utorid amount remark d st d']
      obtain eid n d1 where "store_ok d1 \<and> d' = spend_budget eid n d1"
        using assms by (auto dest: store_ok_award_guests)
      then show ?thesis by (auto intro: store_ok_spend_budget)
    next
      case False
      with h award_success_one_p3 [of authRole authId eventId utorid amount remark d st d']
      obtain eid n d1 where "d' = spend_budget eid n d1" "events d1 = events d"
        "event_seq d1 = event_seq d"
        by auto
      with assms show ?thesis by (auto intro!: store_ok_spend_budget intro: store_ok_same)
    qed
    with Pair show ?thesis by simp
  qed
qed

lemma and_then_Inr: "and_then m f = Inr y \<Longrightarrow> \<exists>x. m = Inr x \<and> f x = Inr y"
  by (cases m) simp_all

lemma step_published_points:
  "step_published isManager f dt = Inr dt' \<Longrightarrow>
     d_pointsTotal dt' = d_pointsTotal dt \<and> d_pointsRemain dt' = d_pointsRemain dt"
  by (auto simp: step_published_def split: field.splits if_splits)

lemma step_name_points:
  "step_name afterStart f dt = Inr dt' \<Longrightarrow>
     d_pointsTotal dt' = d_pointsTotal dt \<and> d_pointsRemain dt' = d_pointsRemain dt"
  by (auto simp: step_name_def split: field.splits if_splits)

lemma step_description_points:
  "step_description afterStart f dt = Inr dt' \<Longrightarrow>
     d_pointsTotal dt' = d_pointsTotal dt \<and> d_pointsRemain dt' = d_pointsRemain dt"
  by (auto simp: step_description_def split: field.splits if_splits)

lemma step_location_points:
  "step_location afterStart f dt = Inr dt' \<Longrightarrow>
     d_pointsTotal dt' = d_pointsTotal dt \<and> d_pointsRemain dt' = d_pointsRemain dt"
  by (auto simp: step_location_def split: field.splits if_splits)

lemma step_startTime_points:
  "step_startTime afterStart now f dt = Inr dt' \<Longrightarrow>
     d_pointsTotal dt' = d_pointsTotal dt \<and> d_pointsRemain dt' = d_pointsRemain dt"
  by (auto simp: step_startTime_def split: field.splits if_splits)

lemma step_endTime_points:
  "step_endTime afterEnd e f dt = Inr dt' \<Longrightarrow>
     d_pointsTotal dt' = d_pointsTotal dt \<and> d_pointsRemain dt' = d_pointsRemain dt"
  by (auto simp: step_endTime_def Let_def split: field.splits if_splits)

lemma step_capacity_points:
  "step_capacity afterStart n f dt = Inr dt' \<Longrightarrow>
     d_pointsTotal dt' = d_pointsTotal dt \<and> d_pointsRemain dt' = d_pointsRemain dt"
  by (auto simp: step_capacity_def split: field.splits option.splits if_splits)

lemma step_capacity_p3_points:
  "step_capacity_p3 afterStart e n f dt = Inr dt' \<Longrightarrow>
     d_pointsTotal dt' = d_pointsTotal dt \<and> d_pointsRemain dt' = d_pointsRemain dt"
  by (auto simp: step_capacity_p3_def split: field.splits option.splits if_splits)

lemma step_text_p3_points:
  assumes "step_text_p3 afterStart f put dt = Inr dt'"
    and "\<And>v r. d_pointsTotal (put v r) = d_pointsTotal r \<and> d_pointsRemain (put v r) = d_pointsRemain r"
  shows "d_pointsTotal dt' = d_pointsTotal dt \<and> d_pointsRemain dt' = d_pointsRemain dt"
  using assms by (auto simp: step_text_p3_def split: field.splits if_splits)

lemma integer_ge_one: "Number_isInteger x \<Longrightarrow> \<not> x \<le> 0 \<Longrightarrow> 1 \<le> x"
  using floor_pos_integer [of x] by (simp add: Number_isInteger_def)

lemma step_points_patch:
  assumes "step_points isManager e f dt = Inr dt'"
    and "d_pointsTotal dt = None \<and> d_pointsRemain dt = None"
  shows "points_patch e dt'"
  using assms
  by (auto simp: step_points_def points_patch_def Let_def integer_ge_one
      split: field.splits if_splits)

lemma patch_fields_points:
  assumes "patch_fields isManager e n now body = Inr dt"
  shows "points_patch e dt"
proof -
  from assms obtain d1 d2 d3 d4 d5 d6 d7 where
    s: "step_published isManager (b_published body) empty_data = Inr d1"
       "step_name (e_startTime e \<le> now) (b_name body) d1 = Inr d2"
       "step_description (e_startTime e \<le> now) (b_description body) d2 = Inr d3"
       "step_location (e_startTime e \<le> now) (b_location body) d3 = Inr d4"
       "step_startTime (e_startTime e \<le> now) now (b_startTime body) d4 = Inr d5"
       "step_endTime (e_endTime e < now) e (b_endTime body) d5 = Inr d6"
       "step_capacity (e_startTime e \<le> now) n (b_capacity body) d6 = Inr d7"
       "step_points isManager e (b_points body) d7 = Inr dt"
    unfolding patch_fields_def Let_def
    by (blast dest!: and_then_Inr)
  have "d_pointsTotal d7 = None \<and> d_pointsRemain d7 = None"
    using s(1-7)
      step_published_points [of isManager "b_published body" empty_data d1]
      step_name_points [of _ "b_name body" d1 d2]
      step_description_points [of _ "b_description body" d2 d3]
      step_location_points [of _ "b_location body" d3 d4]
      step_startTime_points [of _ now "b_startTime body" d4 d5]
      step_endTime_points [of _ e "b_endTime body" d5 d6]
      step_capacity_points [of _ n "b_capacity body" d6 d7]
    by (simp add: empty_data_def)
  with s(8) show ?thesis by (rule step_points_patch)
qed

lemma patch_fields_p3_points:
  assumes "patch_fields_p3 isManager e n now body = Inr dt"
  shows "points_patch e dt"
proof -
  from assms obtain d1 d2 d3 d4 d5 d6 d7 where
    s: "step_published isManager (b_published body) empty_data = Inr d1"
       "step_text_p3 (e_startTime e \<le> now) (b_name body) (\<lambda>v r. r\<lparr>d_name := v\<rparr>) d1 = Inr d2"
       "step_text_p3 (e_startTime e \<le> now) (b_description body)
          (\<lambda>v r. r\<lparr>d_description := v\<rparr>) d2 = Inr d3"
       "step_text_p3 (e_startTime e \<le> now) (b_location body) (\<lambda>v r. r\<lparr>d_location := v\<rparr>) d3
          = Inr d4"
       "step_startTime (e_startTime e \<le> now) now (b_startTime body) d4 = Inr d5"
       "step_endTime (e_endTime e < now) e (b_endTime body) d5 = Inr d6"
       "step_capacity_p3 (e_startTime e \<le> now) e n (b_capacity body) d6 = Inr d7"
       "step_points isManager e (b_points body) d7 = Inr dt"
    unfolding patch_fields_p3_def Let_def
    by (blast dest!: and_then_Inr)
  have "d_pointsTotal d7 = None \<and> d_pointsRemain d7 = None"
    using s(1-7)
      step_published_points [of isManager "b_published body" empty_data d1]
      step_text_p3_points [of _ "b_name body" "\<lambda>v r. r\<lparr>d_name := v\<rparr>" d1 d2]
      step_text_p3_points [of _ "b_description body" "\<lambda>v r. r\<lparr>d_description := v\<rparr>" d2 d3]
      step_text_p3_points [of _ "b_location body" "\<lambda>v r. r\<lparr>d_location := v\<rparr>" d3 d4]
      step_startTime_points [of _ now "b_startTime body" d4 d5]
      step_endTime_points [of _ e "b_endTime body" d5 d6]
      step_capacity_p3_points [of _ e n "b_capacity body" d6 d7]
    by (simp add: empty_data_def)
  with s(8) show ?thesis by (rule step_points_patch)
qed

lemma apply_patch_id [simp]: "e_id (apply_patch dt e) = e_id e"
  by (simp add: apply_patch_def)

lemma apply_patch_budget:
  "points_patch e dt \<Longrightarrow> budget_ok e \<Longrightarrow> budget_ok (apply_patch dt e)"
  by (auto simp: points_patch_def budget_ok_def apply_patch_def)

lemma store_ok_apply_patch:
  assumes ok: "store_ok d" and f: "find_event eid d = Some e" and p: "points_patch e dt"
  shows "store_ok (update_event eid (apply_patch dt) d)"
proof -
  have wf: "events_wf d" and inv: "budget_inv d"
    using ok by (simp_all add: store_ok_def)
  have "budget_ok (apply_patch dt e')" if "e' \<in> set (events d)" and "e_id e' = eid" for e'
  proof -
    from events_wf_unique [OF wf f that] have "e' = e" .
    moreover have "budget_ok e"
      using inv find_event_mem [OF f] by (simp add: budget_inv_def list_all_iff)
    ultimately show ?thesis using p by (simp add: apply_patch_budget)
  qed
  then have "budget_inv (update_event eid (apply_patch dt) d)"
    using inv by (intro budget_inv_update_event)
  moreover have "events_wf (update_event eid (apply_patch dt) d)"
    using wf by (intro events_wf_update_event) simp_all
  ultimately show ?thesis by (simp add: store_ok_def)
qed

lemma patch_events_id_cases:
  "patch_events_id authRole authId eventId body now d = (r, d') \<Longrightarrow>
     d' = d \<or> (\<exists>eid e dt. eventId = Some eid \<and> find_event eid d = Some e \<and>
                 patch_fields (ORDER Manager \<le> ORDER authRole) e (length (guests_of eid d)) now
                   body = Inr dt \<and>
                 r = Inr 200 \<and> d' = update_event eid (apply_patch dt) d)"
  unfolding patch_events_id_def
  by (auto split: option.splits if_splits sum.splits simp: Let_def)

lemma patch_events_id_p3_cases:
  "patch_events_id_p3 authRole authId eventId body now d = (r, d') \<Longrightarrow>
     d' = d \<or> (\<exists>eid e dt. eventId = Some eid \<and> find_event eid d = Some e \<and>
                 patch_fields_p3 (ORDER Manager \<le> ORDER authRole) e (length (guests_of eid d))
                   now body = Inr dt \<and>
                 r = Inr 200 \<and> d' = update_event eid (apply_patch dt) d)"
  unfolding patch_events_id_p3_def
  by (auto split: option.splits if_splits sum.splits simp: Let_def)

lemma store_ok_patch:
  assumes "store_ok d"
  shows "store_ok (snd (patch_events_id authRole authId eventId body now d))"
proof (cases "patch_events_id authRole authId eventId body now d")
  case (Pair r d')
  from patch_events_id_cases [OF Pair] assms have "store_ok d'"
    by (auto intro: store_ok_apply_patch dest: patch_fields_points)
  with Pair show ?thesis by simp
qed

lemma store_ok_patch_p3:
  assumes "store_ok d"
  shows "store_ok (snd (patch_events_id_p3 authRole authId eventId body now d))"
proof (cases "patch_events_id_p3 authRole authId eventId body now d")
  case (Pair r d')
  from patch_events_id_p3_cases [OF Pair] assms have "store_ok d'"
    by (auto intro: store_ok_apply_patch dest: patch_fields_p3_points)
  with Pair show ?thesis by simp
qed

lemma transfer_events:
  "events (snd (post_users_userId_transactions a r ty am rm d)) = events d \<and>
   event_seq (snd (post_users_userId_transactions a r ty am rm d)) = event_seq d"
  by (simp add: post_users_userId_transactions_def Let_def split: option.splits)

lemma redeem_events:
  "events (snd (post_users_me_transactions a ty am rm d)) = events d \<and>
   event_seq (snd (post_users_me_transactions a ty am rm d)) = event_seq d"
  by (simp add: post_users_me_transactions_def Let_def split: option.splits)

lemma redeem_p3_events:
  "events (snd (post_users_me_transactions_p3 a ty am rm d)) = events d \<and>
   event_seq (snd (post_users_me_transactions_p3 a ty am rm d)) = event_seq d"
  by (simp add: post_users_me_transactions_p3_def Let_def split: option.splits)

lemma process_events:
  "events (snd (patch_transactions_id_processed ro a k d)) = events d \<and>
   event_seq (snd (patch_transactions_id_processed ro a k d)) = event_seq d"
  by (simp add: patch_transactions_id_processed_def Let_def split: option.splits)

lemma process_p3_events:
  "events (snd (patch_transactions_id_processed_p3 ro a k d)) = events d \<and>
   event_seq (snd (patch_transactions_id_processed_p3 ro a k d)) = event_seq d"
  by (simp add: patch_transactions_id_processed_p3_def Let_def split: option.splits)

lemma toggle_events:
  "events (snd (patch_transactions_id_suspicious ro k s d)) = events d \<and>
   event_seq (snd (patch_transactions_id_suspicious ro k s d)) = event_seq d"
  by (simp add: patch_transactions_id_suspicious_def Let_def split: option.splits)

lemma purchase_events:
  "events (snd (purchase ro a b n d)) = events d \<and>
   event_seq (snd (purchase ro a b n d)) = event_seq d"
  by (auto simp: purchase_def Let_def split: option.splits sum.splits
      dest!: create_txPromotions_events)

lemma purchase_p3_events:
  "events (snd (purchase_p3 ro a b n d)) = events d \<and>
   event_seq (snd (purchase_p3 ro a b n d)) = event_seq d"
  by (simp add: purchase_p3_def Let_def known_columns_def Transaction_columns_def
      split: option.splits sum.splits)

lemma adjustment_events:
  "events (snd (adjustment ro a b d)) = events d \<and>
   event_seq (snd (adjustment ro a b d)) = event_seq d"
  by (simp add: adjustment_def commit_adjustment_def Let_def split: option.splits field.splits)

lemma adjustment_p3_events:
  "events (snd (adjustment_p3 ro a b d)) = events d \<and>
   event_seq (snd (adjustment_p3 ro a b d)) = event_seq d"
  by (simp add: adjustment_p3_def Let_def split: option.splits field.splits)

lemma post_transactions_events:
  "events (snd (post_transactions ro a b n d)) = events d \<and>
   event_seq (snd (post_transactions ro a b n d)) = event_seq d"
  by (simp add: post_transactions_def purchase_events adjustment_events)

lemma post_transactions_p3_events:
  "events (snd (post_transactions_p3 ro a b n d)) = events d \<and>
   event_seq (snd (post_transactions_p3 ro a b n d)) = event_seq d"
  by (simp add: post_transactions_p3_def purchase_p3_events adjustment_p3_events)

lemma store_ok_perform: "store_ok d \<Longrightarrow> store_ok (perform r d)"
proof (cases r)
qed (auto intro: store_ok_same [of _ d] store_ok_post_events store_ok_award store_ok_award_p3
    store_ok_patch store_ok_patch_p3
    simp: transfer_events redeem_events redeem_p3_events process_events process_p3_events
      toggle_events post_transactions_events post_transactions_p3_events)

lemma store_ok_run: "store_ok d \<Longrightarrow> store_ok (run rs d)"
  unfolding run_def
  by (induction rs arbitrary: d) (simp_all add: store_ok_perform)

lemma store_ok_no_events: "events d = [] \<Longrightarrow> store_ok d"
  by (simp add: store_ok_def events_wf_def budget_inv_def)

lemma budget_inv_equation:
  "budget_inv d \<Longrightarrow> e \<in> set (events d) \<Longrightarrow>
     e_pointsRemain e + e_pointsAwarded e = e_pointsTotal e"
  by (simp add: budget_inv_def budget_ok_def list_all_iff)

lemma example_shop_ok: "store_ok example_shop"
  by (simp add: store_ok_def events_wf_def budget_inv_def budget_ok_def example_shop_def)

text \<open>
  C2. In a store whose event ids are a primary key (\<open>events_wf\<close>), every request to an
  embedded handler, and so every sequence of requests, keeps
  \<open>pointsRemain + pointsAwarded = pointsTotal\<close> for every event; a store without events is
  such a store, and creation adds an event with the whole budget remaining and nothing
  awarded. An award whose need exceeds \<open>pointsRemain\<close> (the amount for one guest, the
  amount times the number of guests for all) is answered BadRequest with the store as it
  was, in both copies, once the request is well-formed, the event exists, the actor is a
  manager or an organizer and, for one guest, the guest is known and has RSVPed; the
  checks that come first answer with their own error.
\<close>

theorem event_budget_conserved:
  "(events d = [] \<or> store_ok d \<longrightarrow>
      store_ok (run rs d) \<and>
      (\<forall>e \<in> set (events (run rs d)).
         e_pointsRemain e + e_pointsAwarded e = e_pointsTotal e))
   \<and> (store_ok d \<longrightarrow> store_ok (perform r d))
   \<and> (post_events authRole name description location startTime endTime capacity points d
        = (Inr st, d') \<longrightarrow>
      (\<exists>e. events d' = events d @ [e] \<and> e_pointsRemain e = e_pointsTotal e \<and>
           e_pointsAwarded e = 0))
   \<and> (eventId = Some eid \<and> 0 < eid \<and> type = ''event'' \<and> amount = Some a \<and>
      Number_isInteger a \<and> 0 < a \<and> find_event eid d = Some e \<and>
      (ORDER Manager \<le> ORDER authRole \<or> is_organizer eid authId d) \<and>
      e_pointsRemain e < \<lfloor>a\<rfloor> * int (length (guests_of eid d)) \<longrightarrow>
      post_events_id_transactions authRole authId eventId type [] amount remark d
        = (Inl BadRequest, d))
   \<and> (eventId = Some eid \<and> 0 < eid \<and> type = ''event'' \<and> amount = Some a \<and>
      Number_isInteger a \<and> 0 < a \<and> find_event eid d = Some e \<and>
      (ORDER Manager \<le> ORDER authRole \<or> is_organizer eid authId d) \<and>
      utorid \<noteq> [] \<and> find_user_by_utorid utorid d = Some u \<and> is_guest eid (u_id u) d \<and>
      e_pointsRemain e < \<lfloor>a\<rfloor> \<longrightarrow>
      post_events_id_transactions authRole authId eventId type utorid amount remark d
        = (Inl BadRequest, d))
   \<and> (eventId = Some eid \<and> amount = Some a \<and> 0 < a \<and> find_event eid d = Some e \<and>
      (ORDER Manager \<le> ORDER authRole \<or> is_organizer eid authId d) \<and>
      e_pointsRemain e < ceilInt a * int (length (guests_of eid d)) \<longrightarrow>
      post_events_id_transactions_p3 authRole authId eventId utorid True amount remark d
        = (Inl BadRequest, d))
   \<and> (eventId = Some eid \<and> amount = Some a \<and> 0 < a \<and> find_event eid d = Some e \<and>
      (ORDER Manager \<le> ORDER authRole \<or> is_organizer eid authId d) \<and>
      utorid \<noteq> [] \<and> find_user_by_utorid utorid d = Some u \<and> is_guest eid (u_id u) d \<and>
      e_pointsRemain e < ceilInt a \<longrightarrow>
      post_events_id_transactions_p3 authRole authId eventId utorid False amount remark d
        = (Inl BadRequest, d))"
proof (intro conjI impI)
  assume "events d = [] \<or> store_ok d"
  then have "store_ok d" by (auto intro: store_ok_no_events)
  then have ok: "store_ok (run rs d)" by (rule store_ok_run)
  then show "store_ok (run rs d)" .
  from ok show "\<forall>e \<in> set (events (run rs d)).
         e_pointsRemain e + e_pointsAwarded e = e_pointsTotal e"
    by (auto simp: store_ok_def intro: budget_inv_equation)
next
  assume "store_ok d"
  then show "store_ok (perform r d)" by (rule store_ok_perform)
next
  assume "post_events authRole name description location startTime endTime capacity points d
        = (Inr st, d')"
  from post_events_created [OF this]
  show "\<exists>e. events d' = events d @ [e] \<and> e_pointsRemain e = e_pointsTotal e \<and>
           e_pointsAwarded e = 0"
    by (auto simp: create_event_def new_event_def)
qed (auto simp: post_events_id_transactions_def post_events_id_transactions_p3_def Let_def)

lemma example_run_budgets:
  "map (\<lambda>e. (e_id e, e_pointsTotal e, e_pointsRemain e, e_pointsAwarded e))
     (events (run example_requests example_shop)) = [(1, 150, 128, 22), (2, 50, 50, 0)]"
  by (simp add: run_def example_requests_def example_shop_def example_db_def
      post_events_def create_event_def new_event_def Number_isInteger_def
      post_events_id_transactions_def post_events_id_transactions_p3_def
      find_event_def find_user_def find_user_by_utorid_def is_organizer_def is_guest_def
      guests_of_def spend_budget_def update_event_def create_tx_def increment_points_def
      event_row_def patch_events_id_def patch_fields_def points_only_def
      step_published_def step_name_def step_description_def step_location_def
      step_startTime_def step_endTime_def step_capacity_def step_points_def
      empty_data_def storable_def apply_patch_def ceilInt_def Math_trunc_def user_exists_def
      Let_def)

theorem event_budget_conserved_witness:
  "store_ok (run example_requests example_shop)
   \<and> budget_inv (run example_requests example_shop)
   \<and> map (\<lambda>e. (e_id e, e_pointsTotal e, e_pointsRemain e, e_pointsAwarded e))
        (events (run example_requests example_shop)) = [(1, 150, 128, 22), (2, 50, 50, 0)]
   \<and> store_ok (perform (R_award Manager 2 (Some 1) ''event'' [] (Some 10) []) example_shop)
   \<and> post_events_id_transactions Manager 2 (Some 1) ''event'' [] (Some 51) [] example_shop
       = (Inl BadRequest, example_shop)
   \<and> post_events_id_transactions Regular 3 (Some 1) ''event'' ''alice001'' (Some 101) []
        example_shop = (Inl BadRequest, example_shop)
   \<and> post_events_id_transactions_p3 Manager 2 (Some 1) [] True (Some (103 / 2)) [] example_shop
       = (Inl BadRequest, example_shop)
   \<and> post_events_id_transactions_p3 Regular 3 (Some 1) ''alice001'' False (Some (203 / 2)) []
        example_shop = (Inl BadRequest, example_shop)"
proof -
  note ebc = event_budget_conserved
  have ev: "find_event 1 example_shop = Some (events example_shop ! 0)"
    "e_pointsRemain (events example_shop ! 0) = 100"
    "guests_of 1 example_shop = [1, 2]"
    "is_organizer 1 3 example_shop" "is_guest 1 1 example_shop"
    "find_user_by_utorid ''alice001'' example_shop = Some (users example_db ! 0)"
    "u_id (users example_db ! 0) = 1"
    by (simp_all add: find_event_def example_shop_def example_db_def guests_of_def
        is_organizer_def is_guest_def find_user_by_utorid_def)
  have nums: "Number_isInteger 51" "Number_isInteger 101" "ceilInt (103 / 2) = 51"
    "ceilInt (203 / 2) = 101"
    by (simp_all add: Number_isInteger_def ceilInt_def Math_trunc_def)
  from ebc [THEN conjunct1, of example_shop example_requests] example_shop_ok
  have w1: "store_ok (run example_requests example_shop)"
    by simp
  then have w2: "budget_inv (run example_requests example_shop)"
    by (simp add: store_ok_def)
  have w3: "store_ok (perform (R_award Manager 2 (Some 1) ''event'' [] (Some 10) [])
      example_shop)"
    by (rule ebc [THEN conjunct2, THEN conjunct1, rule_format, OF example_shop_ok])
  from ebc [where eventId = "Some 1" and eid = 1 and type = "''event''" and amount = "Some 51"
        and a = 51 and d = example_shop and e = "events example_shop ! 0"
        and authRole = Manager and authId = 2 and remark = "[]",
      THEN conjunct2, THEN conjunct2, THEN conjunct2, THEN conjunct1]
    ev nums
  have w4: "post_events_id_transactions Manager 2 (Some 1) ''event'' [] (Some 51) []
      example_shop = (Inl BadRequest, example_shop)"
    by simp
  from ebc [where eventId = "Some 1" and eid = 1 and type = "''event''" and amount = "Some 101"
        and a = 101 and d = example_shop and e = "events example_shop ! 0"
        and authRole = Regular and authId = 3 and remark = "[]" and utorid = "''alice001''"
        and u = "users example_db ! 0",
      THEN conjunct2, THEN conjunct2, THEN conjunct2, THEN conjunct2, THEN conjunct1]
    ev nums
  have w5: "post_events_id_transactions Regular 3 (Some 1) ''event'' ''alice001'' (Some 101) []
      example_shop = (Inl BadRequest, example_shop)"
    by simp
  from ebc [where eventId = "Some 1" and eid = 1 and amount = "Some (103 / 2)"
        and a = "103 / 2" and d = example_shop and e = "events example_shop ! 0"
        and authRole = Manager and authId = 2 and remark = "[]" and utorid = "[]",
      THEN conjunct2, THEN conjunct2, THEN conjunct2, THEN conjunct2, THEN conjunct2, THEN conjunct1]
    ev nums
  have w6: "post_events_id_transactions_p3 Manager 2 (Some 1) [] True (Some (103 / 2)) []
      example_shop = (Inl BadRequest, example_shop)"
    by simp
  from ebc [where eventId = "Some 1" and eid = 1 and amount = "Some (203 / 2)"
        and a = "203 / 2" and d = example_shop and e = "events example_shop ! 0"
        and authRole = Regular and authId = 3 and remark = "[]" and utorid = "''alice001''"
        and u = "users example_db ! 0",
      THEN conjunct2, THEN conjunct2, THEN conjunct2, THEN conjunct2, THEN conjunct2, THEN conjunct2]
    ev nums
  have w7: "post_events_id_transactions_p3 Regular 3 (Some 1) ''alice001'' False
      (Some (203 / 2)) [] example_shop = (Inl BadRequest, example_shop)"
    by simp
  from w1 w2 w3 w4 w5 w6 w7 example_run_budgets show ?thesis
    by simp
qed

subsection \<open>Purchases\<close>

lemma purchase_failed: "purchase authRole authId body now d = (Inl err, d') \<Longrightarrow> d' = d"
  unfolding purchase_def
  by (simp split: option.splits if_splits sum.splits add: Let_def)

text \<open>
  The second copy's purchase hands \<^verbatim>\<open>transaction.create\<close> a key that is no column, so it
  never completes: it answers with an error and leaves the store as it was.
\<close>

lemma earned_is_no_column:
  "\<not> known_columns
       [''userId'', ''type'', ''amount'', ''earned'', ''remark'', ''suspicious'', ''createdById'']"
  by (simp add: known_columns_def Transaction_columns_def)

lemma purchase_p3_refused: "\<exists>err. purchase_p3 authRole authId body now d = (Inl err, d)"
  unfolding purchase_p3_def
  by (simp split: option.splits sum.splits add: Let_def earned_is_no_column)

lemma purchase_p3_store [simp]: "snd (purchase_p3 authRole authId body now d) = d"
  using purchase_p3_refused [of authRole authId body now d] by auto

lemma purchase_success:
  assumes "purchase authRole authId body now d = (Inr st, d')"
  shows "\<exists>spentNum promotionIds user chosen d2.
           ORDER Cashier \<le> ORDER authRole \<and> r_utorid body \<noteq> [] \<and>
           r_spent body = Some spentNum \<and> 0 \<le> spentNum \<and>
           r_promotionIds body = Some promotionIds \<and>
           find_user_by_utorid (r_utorid body) d = Some user \<and>
           choose_onetime (active_onetime now d) (usedSet (u_id user) d) promotionIds
             = Inr chosen \<and>
           create_txPromotions (tx_seq d) (active_automatic now d @ chosen)
             (create_tx
                (purchase_tx (u_id user)
                   (purchase_earned spentNum (active_automatic now d) chosen) spentNum
                   (r_remark body) (effectiveSuspicious authId body d) authId) d) = Some d2 \<and>
           st = 201 \<and>
           d' = (if \<not> effectiveSuspicious authId body d \<and>
                    purchase_earned spentNum (active_automatic now d) chosen \<noteq> 0
                 then increment_points (u_id user)
                        (purchase_earned spentNum (active_automatic now d) chosen)
                        (mark_used (u_id user) chosen d2)
                 else mark_used (u_id user) chosen d2)"
  using assms
  unfolding purchase_def active_onetime_def active_automatic_def purchase_tx_def
    purchase_earned_def effectiveSuspicious_def
  by (auto split: option.splits if_splits sum.splits simp: Let_def)

lemma promotion_bonus_below:
  "below_minSpending s p \<Longrightarrow> promotion_bonus s p = 0"
  by (auto simp: below_minSpending_def promotion_bonus_def split: option.splits)

lemma promotion_bonus_not_below:
  "\<not> below_minSpending s p \<Longrightarrow>
     promotion_bonus s p =
       (case p_rate p of None \<Rightarrow> 0 | Some r \<Rightarrow> Math_round (times_d (times_d s 100) r))
       + (case p_points p of None \<Rightarrow> 0 | Some n \<Rightarrow> n)"
  by (auto simp: below_minSpending_def promotion_bonus_def split: option.splits)

lemma add_extras_sum:
  "add_extras s ps x = x + sum_list (map (promotion_bonus s) ps)"
proof (induction ps arbitrary: x)
  case Nil
  show ?case by simp
next
  case (Cons p ps)
  show ?case
  proof (cases "below_minSpending s p")
    case True
    then show ?thesis by (simp add: Cons.IH promotion_bonus_below)
  next
    case False
    then show ?thesis
      by (simp add: Cons.IH promotion_bonus_not_below Let_def split: option.splits)
  qed
qed

text \<open>The backend's loops compute the specification's formula.\<close>

lemma purchase_earned_formula:
  "purchase_earned s automatic chosen = computeEarnedPoints s automatic chosen"
  by (simp add: purchase_earned_def computeEarnedPoints_def basePoints_def add_extras_sum)

lemma choose_onetime_Inr:
  "choose_onetime onetime used raws = Inr chosen \<Longrightarrow>
     list_all2 (names_unused onetime used) raws chosen"
proof (induction raws arbitrary: chosen)
  case Nil
  then show ?case by simp
next
  case (Cons raw raws)
  from Cons.prems obtain pid p ps where
    *: "raw = Some pid" "Number_isInteger pid" "0 < pid"
       "oneTimeMap_get onetime \<lfloor>pid\<rfloor> = Some p" "\<lfloor>pid\<rfloor> \<notin> set used"
       "choose_onetime onetime used raws = Inr ps" "chosen = p # ps"
    by (auto split: option.splits if_splits dest!: and_then_Inr)
  with Cons.IH [of ps] show ?case
    by (simp add: names_unused_def)
qed

lemma oneTimeMap_get_Some:
  "oneTimeMap_get onetime pid = Some p \<Longrightarrow> p \<in> set onetime \<and> p_id p = pid"
proof -
  assume "oneTimeMap_get onetime pid = Some p"
  then obtain i where "i < length (rev onetime)" "p_id (rev onetime ! i) = pid"
    "p = rev onetime ! i"
    unfolding oneTimeMap_get_def by (auto simp: find_Some_iff)
  moreover from this have "rev onetime ! i \<in> set (rev onetime)"
    by (intro nth_mem)
  ultimately show ?thesis by simp
qed

lemma active_onetime_mem:
  "p \<in> set (active_onetime now d) \<Longrightarrow>
     p \<in> set (promotions d) \<and> p_type p = Onetime \<and> isActivePromo now p"
  by (simp add: active_onetime_def)

lemma active_automatic_mem:
  "p \<in> set (active_automatic now d) \<longleftrightarrow>
     p \<in> set (promotions d) \<and> p_type p = Automatic \<and> isActivePromo now p"
  by (auto simp: active_automatic_def)

lemma choose_onetime_used_fails:
  "Some q \<in> set raws \<Longrightarrow> \<lfloor>q\<rfloor> \<in> set used \<Longrightarrow>
     choose_onetime onetime used raws = Inl BadRequest"
proof (induction raws)
  case Nil
  then show ?case by simp
next
  case (Cons raw raws)
  show ?case
  proof (cases "raw = Some q")
    case True
    with Cons.prems(2) show ?thesis by (simp split: option.splits)
  next
    case False
    with Cons have "choose_onetime onetime used raws = Inl BadRequest" by simp
    then show ?thesis by (simp split: option.splits)
  qed
qed

lemma upsert_usage_fields [simp]:
  "users (upsert_usage u p d) = users d"
  "transactions (upsert_usage u p d) = transactions d"
  "txPromotions (upsert_usage u p d) = txPromotions d"
  "tx_seq (upsert_usage u p d) = tx_seq d"
  by (simp_all add: upsert_usage_def)

lemma set_usages_upsert_usage:
  "set (usages (upsert_usage u p d)) = insert (u, p) (set (usages d))"
  by (auto simp: upsert_usage_def)

lemma create_txPromotions_fields:
  "create_txPromotions k ps d = Some d1 \<Longrightarrow>
     users d1 = users d \<and> transactions d1 = transactions d \<and> usages d1 = usages d \<and>
     tx_seq d1 = tx_seq d \<and>
     txPromotions d1 = txPromotions d @ map (\<lambda>p. (k, p_id p)) ps"
  by (induction ps arbitrary: d) (auto split: if_splits)

lemma mark_used_fields [simp]:
  "users (mark_used u ps d) = users d"
  "transactions (mark_used u ps d) = transactions d"
  "txPromotions (mark_used u ps d) = txPromotions d"
  "tx_seq (mark_used u ps d) = tx_seq d"
  by (induction ps arbitrary: d) auto

lemma set_usages_mark_used:
  "set (usages (mark_used u ps d)) =
     set (usages d) \<union> {(u, p_id p) | p. p \<in> set ps \<and> p_type p = Onetime}"
  by (induction ps arbitrary: d) (auto simp: set_usages_upsert_usage)

lemma users_create_tx [simp]: "users (create_tx t d) = users d"
  by (simp add: create_tx_def)

lemma usages_create_tx [simp]: "usages (create_tx t d) = usages d"
  by (simp add: create_tx_def)

lemma txPromotions_create_tx [simp]: "txPromotions (create_tx t d) = txPromotions d"
  by (simp add: create_tx_def)

lemma usages_increment_points [simp]: "usages (increment_points i n d) = usages d"
  by (simp add: increment_points_def)

lemma txPromotions_increment_points [simp]:
  "txPromotions (increment_points i n d) = txPromotions d"
  by (simp add: increment_points_def)

lemma usages_update_tx [simp]: "usages (update_tx i f d) = usages d"
  by (simp add: update_tx_def)

lemma txPromotions_update_tx [simp]: "txPromotions (update_tx i f d) = txPromotions d"
  by (simp add: update_tx_def)

lemma balance_same_users: "users d' = users d \<Longrightarrow> balance d' i = balance d i"
  by (simp add: balance_def find_user_def)

text \<open>The row, the balances, the associations and the usages after a purchase of the backend.\<close>

lemma purchase_effect:
  assumes "purchase authRole authId body now d = (Inr st, d')"
  shows "\<exists>spentNum promotionIds user chosen.
           r_spent body = Some spentNum \<and> r_promotionIds body = Some promotionIds \<and>
           find_user_by_utorid (r_utorid body) d = Some user \<and>
           choose_onetime (active_onetime now d) (usedSet (u_id user) d) promotionIds
             = Inr chosen \<and>
           transactions d' = transactions d @
             [(purchase_tx (u_id user)
                 (purchase_earned spentNum (active_automatic now d) chosen) spentNum
                 (r_remark body) (effectiveSuspicious authId body d) authId)
              \<lparr>t_id := tx_seq d\<rparr>] \<and>
           (\<forall>i. balance d' i =
              (if i = u_id user \<and> \<not> effectiveSuspicious authId body d
               then map_option
                      (\<lambda>b. b + purchase_earned spentNum (active_automatic now d) chosen)
                      (balance d i)
               else balance d i)) \<and>
           txPromotions d' = txPromotions d @
             map (\<lambda>p. (tx_seq d, p_id p)) (active_automatic now d @ chosen) \<and>
           set (usages d') = set (usages d) \<union>
             {(u_id user, p_id p) | p. p \<in> set chosen \<and> p_type p = Onetime}"
proof -
  from purchase_success [OF assms] obtain spentNum promotionIds user chosen d2 where
    b: "r_spent body = Some spentNum" "r_promotionIds body = Some promotionIds"
       "find_user_by_utorid (r_utorid body) d = Some user"
       "choose_onetime (active_onetime now d) (usedSet (u_id user) d) promotionIds = Inr chosen"
    and c: "create_txPromotions (tx_seq d) (active_automatic now d @ chosen)
             (create_tx
                (purchase_tx (u_id user)
                   (purchase_earned spentNum (active_automatic now d) chosen) spentNum
                   (r_remark body) (effectiveSuspicious authId body d) authId) d) = Some d2"
    and d': "d' = (if \<not> effectiveSuspicious authId body d \<and>
                    purchase_earned spentNum (active_automatic now d) chosen \<noteq> 0
                 then increment_points (u_id user)
                        (purchase_earned spentNum (active_automatic now d) chosen)
                        (mark_used (u_id user) chosen d2)
                 else mark_used (u_id user) chosen d2)"
    by blast
  note f = create_txPromotions_fields [OF c]
  have t: "transactions d' = transactions d @
             [(purchase_tx (u_id user)
                 (purchase_earned spentNum (active_automatic now d) chosen) spentNum
                 (r_remark body) (effectiveSuspicious authId body d) authId)
              \<lparr>t_id := tx_seq d\<rparr>]"
    unfolding d' using f by (simp add: transactions_create_tx)
  have u: "users (mark_used (u_id user) chosen d2) = users d"
    using f by simp
  have bal: "balance d' i =
              (if i = u_id user \<and> \<not> effectiveSuspicious authId body d
               then map_option
                      (\<lambda>b. b + purchase_earned spentNum (active_automatic now d) chosen)
                      (balance d i)
               else balance d i)" for i
    unfolding d' using balance_same_users [OF u]
    by (cases "balance d i") (auto simp: balance_increment_points)
  have tp: "txPromotions d' = txPromotions d @
             map (\<lambda>p. (tx_seq d, p_id p)) (active_automatic now d @ chosen)"
    unfolding d' using f by simp
  have us: "set (usages d') = set (usages d) \<union>
             {(u_id user, p_id p) | p. p \<in> set chosen \<and> p_type p = Onetime}"
    unfolding d' using f by (simp add: set_usages_mark_used)
  from b t bal tp us show ?thesis by blast
qed

lemma adjustment_failed: "adjustment authRole authId body d = (Inl err, d') \<Longrightarrow> d' = d"
  unfolding adjustment_def
  by (simp split: option.splits if_splits field.splits add: Let_def)

lemma adjustment_p3_failed: "adjustment_p3 authRole authId body d = (Inl err, d') \<Longrightarrow> d' = d"
  unfolding adjustment_p3_def
  by (simp split: option.splits if_splits field.splits add: Let_def)

lemma adjustment_success:
  assumes "adjustment authRole authId body d = (Inr st, d')"
  shows "\<exists>amount user rel.
           ORDER Manager \<le> ORDER authRole \<and> r_amount body = Some amount \<and>
           find_user_by_utorid (r_utorid body) d = Some user \<and> st = 201 \<and>
           d' = commit_adjustment authId user (Math_trunc amount) (r_remark body) rel
                  (effectiveSuspicious authId body d) d"
  using assms unfolding adjustment_def effectiveSuspicious_def
  by (auto split: option.splits if_splits field.splits simp: Let_def)

lemma commit_adjustment_effect:
  "length (transactions (commit_adjustment authId user n remark rel eff d))
     = length (transactions d) + 1 \<and>
   t_suspicious (last (transactions (commit_adjustment authId user n remark rel eff d)))
     = Some eff \<and>
   t_amount (last (transactions (commit_adjustment authId user n remark rel eff d))) = n \<and>
   t_userId (last (transactions (commit_adjustment authId user n remark rel eff d)))
     = u_id user \<and>
   t_type (last (transactions (commit_adjustment authId user n remark rel eff d)))
     = Adjustment \<and>
   (\<forall>i. balance (commit_adjustment authId user n remark rel eff d) i =
      (if i = u_id user \<and> \<not> eff then map_option (\<lambda>b. b + n) (balance d i)
       else balance d i))"
proof -
  have "balance (commit_adjustment authId user n remark rel eff d) i =
      (if i = u_id user \<and> \<not> eff then map_option (\<lambda>b. b + n) (balance d i)
       else balance d i)" for i
    by (cases "balance d i") (auto simp: commit_adjustment_def Let_def balance_increment_points)
  then show ?thesis
    by (simp add: commit_adjustment_def Let_def update_tx_def create_tx_def)
qed

subsection \<open>Usage rows are never removed\<close>

lemma usages_update_event [simp]: "usages (update_event i f d) = usages d"
  by (simp add: update_event_def)

lemma usages_spend_budget [simp]: "usages (spend_budget i n d) = usages d"
  by (simp add: spend_budget_def)

lemma usages_create_event [simp]: "usages (create_event e d) = usages d"
  by (simp add: create_event_def)

lemma award_guests_usages:
  "award_guests gs award remark eid actor d = Some d1 \<Longrightarrow> usages d1 = usages d"
  by (induction gs arbitrary: d) (auto split: option.splits)

lemma transfer_usages: "usages (snd (post_users_userId_transactions a r ty am rm d)) = usages d"
  by (simp add: post_users_userId_transactions_def Let_def split: option.splits)

lemma redeem_usages: "usages (snd (post_users_me_transactions a ty am rm d)) = usages d"
  by (simp add: post_users_me_transactions_def Let_def split: option.splits)

lemma redeem_p3_usages: "usages (snd (post_users_me_transactions_p3 a ty am rm d)) = usages d"
  by (simp add: post_users_me_transactions_p3_def Let_def split: option.splits)

lemma process_usages: "usages (snd (patch_transactions_id_processed ro a k d)) = usages d"
  by (simp add: patch_transactions_id_processed_def Let_def split: option.splits)

lemma process_p3_usages: "usages (snd (patch_transactions_id_processed_p3 ro a k d)) = usages d"
  by (simp add: patch_transactions_id_processed_p3_def Let_def split: option.splits)

lemma toggle_usages: "usages (snd (patch_transactions_id_suspicious ro k s d)) = usages d"
  by (simp add: patch_transactions_id_suspicious_def Let_def split: option.splits)

lemma post_events_usages: "usages (snd (post_events ro n ds l st et c p d)) = usages d"
  by (simp add: post_events_def split: option.splits field.splits)

lemma award_usages:
  "usages (snd (post_events_id_transactions ro a e ty u am rm d)) = usages d"
  by (auto simp: post_events_id_transactions_def Let_def split: option.splits
      dest: award_guests_usages)

lemma award_p3_usages:
  "usages (snd (post_events_id_transactions_p3 ro a e u al am rm d)) = usages d"
  by (auto simp: post_events_id_transactions_p3_def Let_def split: option.splits
      dest: award_guests_usages)

lemma patch_usages: "usages (snd (patch_events_id ro a e b n d)) = usages d"
  by (simp add: patch_events_id_def Let_def split: option.splits sum.splits)

lemma patch_p3_usages: "usages (snd (patch_events_id_p3 ro a e b n d)) = usages d"
  by (simp add: patch_events_id_p3_def Let_def split: option.splits sum.splits)

lemma purchase_usages: "set (usages d) \<subseteq> set (usages (snd (purchase ro a b n d)))"
proof (cases "purchase ro a b n d")
  case (Pair r d')
  show ?thesis
  proof (cases r)
    case (Inl err)
    with Pair have "d' = d" by (auto dest: purchase_failed)
    with Pair show ?thesis by simp
  next
    case (Inr st)
    with Pair have "purchase ro a b n d = (Inr st, d')" by simp
    from purchase_effect [OF this] Pair show ?thesis by auto
  qed
qed

lemma adjustment_usages: "usages (snd (adjustment ro a b d)) = usages d"
  by (simp add: adjustment_def commit_adjustment_def Let_def split: option.splits field.splits)

lemma adjustment_p3_usages: "usages (snd (adjustment_p3 ro a b d)) = usages d"
  by (simp add: adjustment_p3_def Let_def split: option.splits field.splits)

lemma usages_perform: "set (usages d) \<subseteq> set (usages (perform r d))"
proof (cases r)
  case (R_transaction ro a b n)
  then show ?thesis
    using purchase_usages [of d ro a b n]
    by (simp add: post_transactions_def adjustment_usages)
next
  case (R_transaction_p3 ro a b n)
  then show ?thesis
    by (simp add: post_transactions_p3_def adjustment_p3_usages)
qed (simp_all add: transfer_usages redeem_usages redeem_p3_usages process_usages
    process_p3_usages toggle_usages post_events_usages award_usages award_p3_usages
    patch_usages patch_p3_usages)

lemma usages_run: "set (usages d) \<subseteq> set (usages (run rs d))"
  unfolding run_def
proof (induction rs arbitrary: d)
  case Nil
  show ?case by simp
next
  case (Cons r rs)
  from usages_perform [of d r] Cons [of "perform r d"] show ?case by auto
qed

lemma usedSet_iff: "p \<in> set (usedSet u d) \<longleftrightarrow> (u, p) \<in> set (usages d)"
  by (force simp: usedSet_def)

lemma purchase_used_fails:
  assumes "find_user_by_utorid (r_utorid body) d = Some user"
    and "r_promotionIds body = Some raws" and "Some q \<in> set raws"
    and "(u_id user, \<lfloor>q\<rfloor>) \<in> set (usages d)"
  shows "\<exists>err. purchase authRole authId body now d = (Inl err, d)"
proof -
  have "choose_onetime onetime (usedSet (u_id user) d) raws = Inl BadRequest" for onetime
    using assms(3,4) by (intro choose_onetime_used_fails [of q]) (simp_all add: usedSet_iff)
  with assms(1,2) show ?thesis
    by (simp add: purchase_def Let_def split: option.splits)
qed

text \<open>What it takes to run a purchase or an adjustment on the example store.\<close>

lemmas purchase_eval =
  post_transactions_def post_transactions_p3_def purchase_def
  adjustment_def adjustment_p3_def commit_adjustment_def purchase_body_def adjustment_body_def
  example_shop_def example_db_def find_user_by_utorid_def find_user_def user_exists_def
  isActivePromo_def usedSet_def oneTimeMap_get_def Number_isInteger_def below_minSpending_def
  basePoints_def times_d_def divide_d_def less_d_def
  Math_round_def Math_trunc_def upsert_usage_def create_tx_def update_tx_def
  increment_points_def balance_def computeEarnedPoints_def promotion_bonus_def
  active_automatic_def active_onetime_def Let_def

subsection \<open>A suspicious actor\<close>

lemma effectiveSuspicious_actor:
  "find_user authId d = Some actor \<Longrightarrow> u_suspicious actor \<Longrightarrow>
     effectiveSuspicious authId body d"
  by (simp add: effectiveSuspicious_def)

lemma commit_adjustment_creator:
  "t_createdById (last (transactions (commit_adjustment authId user n remark rel eff d)))
     = authId"
  by (simp add: commit_adjustment_def Let_def update_tx_def create_tx_def)

text \<open>
  C10. In the backend, when the actor's own user row has the suspicious flag set, a
  purchase or an adjustment that succeeds adds one row, recorded as suspicious and
  created by the actor, and changes no balance, whatever the body's flag says.
\<close>

theorem suspicious_actor_taints_transaction:
  assumes "find_user authId d = Some actor" and "u_suspicious actor"
    and "post_transactions authRole authId body now d = (Inr st, d')"
  shows "length (transactions d') = length (transactions d) + 1 \<and>
         t_suspicious (last (transactions d')) = Some True \<and>
         t_createdById (last (transactions d')) = authId \<and>
         (\<forall>i. balance d' i = balance d i)"
proof -
  have eff: "effectiveSuspicious authId body d"
    using assms(1,2) by (rule effectiveSuspicious_actor)
  show ?thesis
  proof (cases "r_type body = ''purchase''")
    case True
    with assms(3) have "purchase authRole authId body now d = (Inr st, d')"
      by (simp add: post_transactions_def)
    from purchase_effect [OF this] eff show ?thesis
      by (auto simp: purchase_tx_def)
  next
    case False
    with assms(3) have "adjustment authRole authId body d = (Inr st, d')"
      by (simp add: post_transactions_def split: if_splits)
    from adjustment_success [OF this] obtain amount user rel where
      "d' = commit_adjustment authId user (Math_trunc amount) (r_remark body) rel
              (effectiveSuspicious authId body d) d"
      by blast
    with eff commit_adjustment_effect [of authId user "Math_trunc amount" "r_remark body" rel
        True d]
      commit_adjustment_creator [of authId user "Math_trunc amount" "r_remark body" rel True d]
    show ?thesis by simp
  qed
qed

theorem suspicious_actor_taints_transaction_witness:
  "map_option u_suspicious (find_user 3 example_shop) = Some True
   \<and> fst (post_transactions Cashier 3 (purchase_body ''alice001'' 10 [] False) 1500
        example_shop) = Inr 201
   \<and> t_suspicious (last (transactions (snd (post_transactions Cashier 3
        (purchase_body ''alice001'' 10 [] False) 1500 example_shop)))) = Some True
   \<and> balance (snd (post_transactions Cashier 3 (purchase_body ''alice001'' 10 [] False) 1500
        example_shop)) 1 = Some 100
   \<and> fst (post_transactions Manager 3 (adjustment_body ''alice001'' 25 False) 1500
        example_shop) = Inr 201
   \<and> t_suspicious (last (transactions (snd (post_transactions Manager 3
        (adjustment_body ''alice001'' 25 False) 1500 example_shop)))) = Some True
   \<and> balance (snd (post_transactions Manager 3 (adjustment_body ''alice001'' 25 False) 1500
        example_shop)) 1 = Some 100"
proof -
  let ?p = "post_transactions Cashier 3 (purchase_body ''alice001'' 10 [] False) 1500
    example_shop"
  let ?a = "post_transactions Manager 3 (adjustment_body ''alice001'' 25 False) 1500
    example_shop"
  have actor: "find_user 3 example_shop = Some (users example_db ! 2)"
    "u_suspicious (users example_db ! 2)"
    by (simp_all add: find_user_def example_shop_def example_db_def)
  have fp: "fst ?p = Inr 201"
    by (simp add: purchase_eval)
  then have hp: "?p = (Inr 201, snd ?p)"
    by (metis prod.collapse)
  have fa: "fst ?a = Inr 201"
    by (simp add: purchase_eval)
  then have ha: "?a = (Inr 201, snd ?a)"
    by (metis prod.collapse)
  from suspicious_actor_taints_transaction [OF actor hp]
    suspicious_actor_taints_transaction [OF actor ha]
    fp fa actor example_shop_facts
  show ?thesis by simp
qed

subsection \<open>The points a purchase earns\<close>

text \<open>
  In the backend the amount of the row a purchase writes is the specification's formula
  over the active automatic promotions and the promotions chosen, and the promotions
  chosen are those the request names, each an active one-time promotion the user has not
  used.
\<close>

lemma backend_purchase_earned:
  assumes "purchase authRole authId body now d = (Inr st, d')"
  shows "\<exists>s raws user chosen.
           r_spent body = Some s \<and> r_promotionIds body = Some raws \<and>
           find_user_by_utorid (r_utorid body) d = Some user \<and>
           list_all2 (names_unused (active_onetime now d) (usedSet (u_id user) d)) raws chosen \<and>
           t_type (last (transactions d')) = Purchase \<and>
           t_userId (last (transactions d')) = u_id user \<and>
           t_amount (last (transactions d'))
             = computeEarnedPoints s (active_automatic now d) chosen"
proof -
  from purchase_effect [OF assms] obtain s raws user chosen where
    *: "r_spent body = Some s" "r_promotionIds body = Some raws"
       "find_user_by_utorid (r_utorid body) d = Some user"
       "choose_onetime (active_onetime now d) (usedSet (u_id user) d) raws = Inr chosen"
       "transactions d' = transactions d @
             [(purchase_tx (u_id user)
                 (purchase_earned s (active_automatic now d) chosen) s
                 (r_remark body) (effectiveSuspicious authId body d) authId)
              \<lparr>t_id := tx_seq d\<rparr>]"
    by blast
  from *(5) have "t_amount (last (transactions d'))
      = computeEarnedPoints s (active_automatic now d) chosen"
    "t_type (last (transactions d')) = Purchase"
    "t_userId (last (transactions d')) = u_id user"
    by (simp_all add: purchase_tx_def purchase_earned_formula)
  with * choose_onetime_Inr [OF *(4)] show ?thesis by blast
qed

text \<open>The second copy's loops, lines 1209-1222, as a sum.\<close>

lemma add_extras_p3_sum:
  "add_extras_p3 s base ps x =
     x + sum_list (map (\<lambda>p. if below_minSpending s p then 0
                             else (case p_rate p of
                                     None \<Rightarrow> 0
                                   | Some r \<Rightarrow> Math_round (times_d (of_int base) r))
                                  + (case p_points p of None \<Rightarrow> 0 | Some n \<Rightarrow> n)) ps)"
  by (induction ps arbitrary: x) (simp_all add: Let_def split: option.splits)

text \<open>
  C3, as the claim states it, fails at one of the two places it cites. The second copy's
  computation (lines 1209-1222) takes the rate bonus as the rounded product of the base
  points and the rate. At time 1500 the only active automatic promotion of \<open>example_shop\<close>
  has rate 1/2 and neither a minimum spend nor flat points; for a spend of 100 the second
  copy computes 400 + round(400 * 1/2) = 600, the claim's formula gives
  400 + round(100 * 100 * 1/2) = 5400.
\<close>

theorem second_copy_rate_bonus_counterexample:
  "map p_rate (active_automatic 1500 example_shop) = [Some (1 / 2)]
   \<and> map p_minSpending (active_automatic 1500 example_shop) = [None]
   \<and> purchase_earned_p3 100 (active_automatic 1500 example_shop) [] = 600
   \<and> computeEarnedPoints 100 (active_automatic 1500 example_shop) [] = 5400
   \<and> purchase_earned_p3 100 (active_automatic 1500 example_shop) []
       \<noteq> computeEarnedPoints 100 (active_automatic 1500 example_shop) []"
  by (simp add: purchase_earned_p3_def computeEarnedPoints_def promotion_bonus_def
      active_automatic_def isActivePromo_def example_shop_def basePoints_def
      below_minSpending_def times_d_def divide_d_def Math_round_def Let_def)

text \<open>
  C3, amended. In the backend, a purchase that succeeds with spend \<open>s\<close> writes a purchase
  row whose amount, the points earned, is round(s / 0.25) plus, for every active
  automatic promotion and every promotion the request selects (each an active one-time
  promotion the user has not used) that is not skipped because its minimum spend is set
  and \<open>s\<close> is below it, round(s * 100 * rate) when a rate is set plus the flat points when
  set; the quotient and the products are those of doubles, the products taken from the
  left. In the second copy the computation is the same but for the rate bonus, which is
  round(base * rate), where base is round(s / 0.25).
\<close>

theorem purchase_earned_points:
  "(purchase authRole authId body now d = (Inr st, d') \<longrightarrow>
      (\<exists>s raws user chosen.
          r_spent body = Some s \<and> r_promotionIds body = Some raws \<and>
          find_user_by_utorid (r_utorid body) d = Some user \<and>
          list_all2 (names_unused (active_onetime now d) (usedSet (u_id user) d)) raws chosen \<and>
          t_type (last (transactions d')) = Purchase \<and>
          t_userId (last (transactions d')) = u_id user \<and>
          t_amount (last (transactions d'))
            = computeEarnedPoints s (active_automatic now d) chosen))
   \<and> purchase_earned_p3 s automatic chosenOneTime =
       Math_round (divide_d s (1 / 4))
       + sum_list
           (map (\<lambda>p. if below_minSpending s p then 0
                      else (case p_rate p of
                              None \<Rightarrow> 0
                            | Some rate \<Rightarrow>
                                Math_round
                                  (times_d (of_int (Math_round (divide_d s (1 / 4)))) rate))
                           + (case p_points p of None \<Rightarrow> 0 | Some points \<Rightarrow> points))
              (automatic @ chosenOneTime))"
proof (intro conjI impI)
  assume "purchase authRole authId body now d = (Inr st, d')"
  then show "\<exists>s raws user chosen.
          r_spent body = Some s \<and> r_promotionIds body = Some raws \<and>
          find_user_by_utorid (r_utorid body) d = Some user \<and>
          list_all2 (names_unused (active_onetime now d) (usedSet (u_id user) d)) raws chosen \<and>
          t_type (last (transactions d')) = Purchase \<and>
          t_userId (last (transactions d')) = u_id user \<and>
          t_amount (last (transactions d'))
            = computeEarnedPoints s (active_automatic now d) chosen"
    by (rule backend_purchase_earned)
next
  show "purchase_earned_p3 s automatic chosenOneTime =
       Math_round (divide_d s (1 / 4))
       + sum_list
           (map (\<lambda>p. if below_minSpending s p then 0
                      else (case p_rate p of
                              None \<Rightarrow> 0
                            | Some rate \<Rightarrow>
                                Math_round
                                  (times_d (of_int (Math_round (divide_d s (1 / 4)))) rate))
                           + (case p_points p of None \<Rightarrow> 0 | Some points \<Rightarrow> points))
              (automatic @ chosenOneTime))"
    by (simp add: purchase_earned_p3_def basePoints_def add_extras_p3_sum Let_def)
qed

text \<open>
  A cashier (user 2 with a cashier's token) records purchases by Alice at time 1500: of
  100, which earns 400 + 5000; and of 0.57, which earns 2 + 28, the product of the
  doubles 0.57 and 100 being below 57.
\<close>

lemma example_earned:
  "computeEarnedPoints 100 (active_automatic 1500 example_shop) [] = 5400"
  "computeEarnedPoints (57 / 100) (active_automatic 1500 example_shop) [] = 30"
proof -
  have "Math_round (divide_d (57 / 100) (1 / 4)) = 2"
    by code_simp
  then show "computeEarnedPoints (57 / 100) (active_automatic 1500 example_shop) [] = 30"
    using double_product_example(3)
    by (simp add: computeEarnedPoints_def promotion_bonus_def active_automatic_def
        isActivePromo_def example_shop_def)
  show "computeEarnedPoints 100 (active_automatic 1500 example_shop) [] = 5400"
    by (simp add: computeEarnedPoints_def promotion_bonus_def active_automatic_def
        isActivePromo_def example_shop_def times_d_def divide_d_def Math_round_def)
qed

theorem purchase_earned_points_witness:
  "fst (purchase Cashier 2 (purchase_body ''alice001'' 100 [] False) 1500 example_shop)
     = Inr 201
   \<and> t_amount (last (transactions (snd (purchase Cashier 2
        (purchase_body ''alice001'' 100 [] False) 1500 example_shop)))) = 5400
   \<and> fst (purchase Cashier 2 (purchase_body ''alice001'' (57 / 100) [] False) 1500
        example_shop) = Inr 201
   \<and> t_amount (last (transactions (snd (purchase Cashier 2
        (purchase_body ''alice001'' (57 / 100) [] False) 1500 example_shop)))) = 30
   \<and> purchase_earned_p3 100 (active_automatic 1500 example_shop) [] = 600"
proof -
  let ?b = "purchase_body ''alice001'' 100 [] False"
  let ?c = "purchase_body ''alice001'' (57 / 100) [] False"
  let ?r = "purchase Cashier 2 ?b 1500 example_shop"
  let ?q = "purchase Cashier 2 ?c 1500 example_shop"
  have body: "r_spent ?b = Some 100" "r_promotionIds ?b = Some []"
    "r_spent ?c = Some (57 / 100)" "r_promotionIds ?c = Some []"
    by (simp_all add: purchase_body_def)
  have f: "fst ?r = Inr 201" "fst ?q = Inr 201"
    by (simp_all add: purchase_def purchase_body_def example_shop_def example_db_def
        find_user_by_utorid_def find_user_def user_exists_def usedSet_def create_tx_def
        isActivePromo_def Let_def)
  then have h: "?r = (Inr 201, snd ?r)" "?q = (Inr 201, snd ?q)"
    by (metis prod.collapse)+
  note pe = purchase_earned_points
  from pe [THEN conjunct1, rule_format, OF h(1)] body
  have w1: "t_amount (last (transactions (snd ?r))) = 5400"
    by (auto simp: example_earned)
  from pe [THEN conjunct1, rule_format, OF h(2)]
  obtain s raws and user :: user and chosen where
    x: "r_spent ?c = Some s" "r_promotionIds ?c = Some raws"
       "list_all2 (names_unused (active_onetime 1500 example_shop)
          (usedSet (u_id user) example_shop)) raws chosen"
       "t_amount (last (transactions (snd ?q)))
          = computeEarnedPoints s (active_automatic 1500 example_shop) chosen"
    by blast
  from x(1) [unfolded body(3)] have s: "s = 57 / 100"
    by (simp only: option.inject)
  from x(2,3) body(4) have "chosen = []"
    by simp
  with x(4) s have w2: "t_amount (last (transactions (snd ?q))) = 30"
    by (simp only: example_earned)
  from pe [where s = 100 and automatic = "active_automatic 1500 example_shop"
      and chosenOneTime = "[]", THEN conjunct2]
  have w3: "purchase_earned_p3 100 (active_automatic 1500 example_shop) [] = 600"
    by (simp add: active_automatic_def isActivePromo_def example_shop_def
        below_minSpending_def times_d_def divide_d_def Math_round_def)
  from f w1 w2 w3 show ?thesis by simp
qed

subsection \<open>Suspicious purchases and adjustments\<close>

text \<open>
  In the backend a purchase or an adjustment that succeeds adds one row; the row is
  suspicious when the body says so, and the owner's balance moves by the row's amount
  when the row is not suspicious and stays otherwise. No other balance moves.
\<close>

lemma backend_suspicious_not_credited:
  assumes "post_transactions authRole authId body now d = (Inr st, d')"
  shows "\<exists>eff. length (transactions d') = length (transactions d) + 1 \<and>
           t_suspicious (last (transactions d')) = Some eff \<and>
           (r_suspicious body \<longrightarrow> eff) \<and>
           (\<forall>i. balance d' i =
              (if i = t_userId (last (transactions d')) \<and> \<not> eff
               then map_option (\<lambda>b. b + t_amount (last (transactions d'))) (balance d i)
               else balance d i))"
proof (cases "r_type body = ''purchase''")
  case True
  with assms have "purchase authRole authId body now d = (Inr st, d')"
    by (simp add: post_transactions_def)
  from purchase_effect [OF this] show ?thesis
    by (auto simp: purchase_tx_def effectiveSuspicious_def
        intro!: exI [of _ "effectiveSuspicious authId body d"])
next
  case False
  with assms have "adjustment authRole authId body d = (Inr st, d')"
    by (simp add: post_transactions_def split: if_splits)
  from adjustment_success [OF this] obtain amount user rel where
    "d' = commit_adjustment authId user (Math_trunc amount) (r_remark body) rel
            (effectiveSuspicious authId body d) d"
    by blast
  with commit_adjustment_effect [of authId user "Math_trunc amount" "r_remark body" rel
      "effectiveSuspicious authId body d" d]
  show ?thesis
    by (auto simp: effectiveSuspicious_def
        intro!: exI [of _ "effectiveSuspicious authId body d"])
qed

text \<open>
  C4 holds of the backend (\<open>backend_suspicious_not_credited\<close>) and fails in the second
  copy's adjustment, which stores the body's flag and credits all the same. A manager
  (user 2 with a manager's token) records an adjustment of 25 for Alice flagged
  suspicious: the second copy's row is suspicious and Alice's balance goes from 100 to
  125; in the backend it stays 100, as it does after a purchase of 100 flagged
  suspicious. The second copy's purchase has the same unguarded credit in its text, but
  does not complete (\<open>purchase_p3_refused\<close>).
\<close>

theorem second_copy_credits_suspicious:
  "fst (post_transactions_p3 Manager 2 (adjustment_body ''alice001'' 25 True) 1500
      example_shop) = Inr 201
   \<and> t_suspicious (last (transactions (snd (post_transactions_p3 Manager 2
        (adjustment_body ''alice001'' 25 True) 1500 example_shop)))) = Some True
   \<and> balance (snd (post_transactions_p3 Manager 2 (adjustment_body ''alice001'' 25 True)
        1500 example_shop)) 1 = Some 125
   \<and> t_suspicious (last (transactions (snd (post_transactions Cashier 2
        (purchase_body ''alice001'' 100 [] True) 1500 example_shop)))) = Some True
   \<and> balance (snd (post_transactions Cashier 2 (purchase_body ''alice001'' 100 [] True)
        1500 example_shop)) 1 = Some 100
   \<and> balance (snd (post_transactions Manager 2 (adjustment_body ''alice001'' 25 True)
        1500 example_shop)) 1 = Some 100
   \<and> post_transactions_p3 Cashier 2 (purchase_body ''alice001'' 100 [] True) 1500
        example_shop = (Inl InternalError, example_shop)"
proof -
  have "post_transactions_p3 Cashier 2 (purchase_body ''alice001'' 100 [] True) 1500
        example_shop = (Inl InternalError, example_shop)"
    by (simp add: post_transactions_p3_def purchase_p3_def purchase_body_def
        earned_is_no_column find_user_by_utorid_def example_shop_def example_db_def Let_def)
  then show ?thesis
    by (simp add: purchase_eval)
qed

subsection \<open>A one-time promotion below its minimum spend\<close>

lemma add_extras_skip:
  "below_minSpending s p \<Longrightarrow> add_extras s (ps1 @ p # ps2) x = add_extras s (ps1 @ ps2) x"
  by (induction ps1 arbitrary: x) (simp_all add: Let_def)

lemma add_extras_p3_skip:
  "below_minSpending s p \<Longrightarrow>
     add_extras_p3 s b (ps1 @ p # ps2) x = add_extras_p3 s b (ps1 @ ps2) x"
  by (induction ps1 arbitrary: x) (simp_all add: Let_def)

lemma chosen_member:
  assumes "list_all2 (names_unused onetime used) raws chosen" and "Some q \<in> set raws"
    and "oneTimeMap_get onetime \<lfloor>q\<rfloor> = Some p"
  shows "p \<in> set chosen"
proof -
  from assms(2) obtain i where i: "i < length raws" "raws ! i = Some q"
    by (auto simp: in_set_conv_nth)
  with assms(1) have "names_unused onetime used (Some q) (chosen ! i)" "i < length chosen"
    by (auto simp: list_all2_conv_all_nth)
  with assms(3) show ?thesis
    by (auto simp: names_unused_def)
qed

lemma selected_is_consumed:
  assumes c: "choose_onetime (active_onetime now d) used raws = Inr chosen"
    and q: "Some q \<in> set raws" and p: "oneTimeMap_get (active_onetime now d) \<lfloor>q\<rfloor> = Some p"
  shows "p \<in> set chosen \<and> p_type p = Onetime \<and> p_id p = \<lfloor>q\<rfloor>"
proof -
  from choose_onetime_Inr [OF c] q p have "p \<in> set chosen"
    by (rule chosen_member)
  moreover from oneTimeMap_get_Some [OF p] have "p \<in> set (active_onetime now d)" "p_id p = \<lfloor>q\<rfloor>"
    by simp_all
  ultimately show ?thesis
    by (auto dest: active_onetime_mem)
qed

text \<open>The second copy's loop over the promotions, lines 1237-1248.\<close>

lemma link_promotions_p3_fields:
  "link_promotions_p3 k u ps d = Some d1 \<Longrightarrow>
     txPromotions d1 = txPromotions d @ map (\<lambda>p. (k, p_id p)) ps \<and>
     set (usages d1) = set (usages d) \<union> {(u, p_id p) | p. p \<in> set ps \<and> p_type p = Onetime}"
proof (induction ps arbitrary: d)
  case Nil
  then show ?case by simp
next
  case (Cons p ps)
  let ?d1 = "d\<lparr>txPromotions := txPromotions d @ [(k, p_id p)]\<rparr>"
  let ?d2 = "if p_type p = Onetime then upsert_usage u (p_id p) ?d1 else ?d1"
  from Cons.prems have "link_promotions_p3 k u ps ?d2 = Some d1"
    by (simp add: Let_def split: if_splits)
  from Cons.IH [OF this] show ?case
    by (auto simp: set_usages_upsert_usage)
qed

text \<open>Leaving out a promotion that is below its minimum spend does not change the sum.\<close>

lemma bonus_sum_without:
  "below_minSpending s p \<Longrightarrow>
     sum_list (map (promotion_bonus s) ps)
       = sum_list (map (promotion_bonus s) (filter (\<lambda>r. r \<noteq> p) ps))"
  by (induction ps) (simp_all add: promotion_bonus_below)

lemma computeEarnedPoints_without:
  "below_minSpending s p \<Longrightarrow>
     computeEarnedPoints s automatic chosen
       = computeEarnedPoints s automatic (filter (\<lambda>r. r \<noteq> p) chosen)"
  using bonus_sum_without [of s p chosen] by (simp add: computeEarnedPoints_def)

text \<open>
  C9. A purchase of the backend that succeeds and names a one-time promotion whose
  minimum spend is set and above the spend.
  \<^item> The promotion is among those chosen, and it adds nothing: the amount of the row
    written, and the credit to the user's balance when the row is not suspicious, are the
    points of the formula with that promotion left out of the promotions chosen. The loop
    that adds the bonuses passes it over wherever it stands.
  \<^item> The same step that writes the transaction row (whose key is the next in sequence)
    writes the association of that transaction with the promotion and the usage row of
    the user.
  \<^item> After any further requests, a purchase for that user that names the promotion is
    refused and writes nothing.

  In the second copy the computation of the points passes the promotion over in the same
  way (lines 1217-1221), and the loop over the promotions (lines 1237-1248) writes the
  association and the usage row of every one-time promotion it is given, whatever the
  spend; its purchase does not complete (\<open>purchase_p3_refused\<close>), so that in the end
  nothing is associated or marked there.
\<close>

theorem onetime_below_minimum_consumed:
  "(purchase authRole authId body now d = (Inr st, d') \<and> r_spent body = Some s \<and>
    r_promotionIds body = Some raws \<and> Some q \<in> set raws \<and>
    find_user_by_utorid (r_utorid body) d = Some user \<and>
    oneTimeMap_get (active_onetime now d) \<lfloor>q\<rfloor> = Some p \<and> below_minSpending s p \<longrightarrow>
      (\<exists>chosen.
          list_all2 (names_unused (active_onetime now d) (usedSet (u_id user) d)) raws chosen \<and>
          p \<in> set chosen \<and>
          t_amount (last (transactions d'))
            = computeEarnedPoints s (active_automatic now d) (filter (\<lambda>r. r \<noteq> p) chosen) \<and>
          (\<forall>i. balance d' i =
             (if i = u_id user \<and> \<not> effectiveSuspicious authId body d
              then map_option
                     (\<lambda>b. b + computeEarnedPoints s (active_automatic now d)
                                (filter (\<lambda>r. r \<noteq> p) chosen))
                     (balance d i)
              else balance d i))) \<and>
      (\<forall>ps1 ps2 x. add_extras s (ps1 @ p # ps2) x = add_extras s (ps1 @ ps2) x) \<and>
      promotion_bonus s p = 0 \<and>
      t_id (last (transactions d')) = tx_seq d \<and>
      (tx_seq d, p_id p) \<in> set (txPromotions d') \<and>
      (u_id user, p_id p) \<in> set (usages d') \<and>
      (\<forall>rs role2 auth2 body2 now2 raws2 q2 user2.
         r_promotionIds body2 = Some raws2 \<and> Some q2 \<in> set raws2 \<and> \<lfloor>q2\<rfloor> = p_id p \<and>
         find_user_by_utorid (r_utorid body2) (run rs d') = Some user2 \<and>
         u_id user2 = u_id user \<longrightarrow>
         (\<exists>err. purchase role2 auth2 body2 now2 (run rs d') = (Inl err, run rs d'))))
   \<and> (below_minSpending s p \<longrightarrow>
        purchase_earned_p3 s automatic (ps1 @ p # ps2) = purchase_earned_p3 s automatic (ps1 @ ps2))
   \<and> (link_promotions_p3 k u ps d = Some d1 \<and> p \<in> set ps \<and> p_type p = Onetime \<longrightarrow>
        (k, p_id p) \<in> set (txPromotions d1) \<and> (u, p_id p) \<in> set (usages d1))"
proof (intro conjI impI)
  assume a: "purchase authRole authId body now d = (Inr st, d') \<and> r_spent body = Some s \<and>
    r_promotionIds body = Some raws \<and> Some q \<in> set raws \<and>
    find_user_by_utorid (r_utorid body) d = Some user \<and>
    oneTimeMap_get (active_onetime now d) \<lfloor>q\<rfloor> = Some p \<and> below_minSpending s p"
  then have h: "purchase authRole authId body now d = (Inr st, d')" by simp
  from purchase_effect [OF h] a obtain chosen where
    c: "choose_onetime (active_onetime now d) (usedSet (u_id user) d) raws = Inr chosen"
    and t: "transactions d' = transactions d @
             [(purchase_tx (u_id user)
                 (purchase_earned s (active_automatic now d) chosen) s
                 (r_remark body) (effectiveSuspicious authId body d) authId)
              \<lparr>t_id := tx_seq d\<rparr>]"
    and bal: "\<forall>i. balance d' i =
              (if i = u_id user \<and> \<not> effectiveSuspicious authId body d
               then map_option
                      (\<lambda>b. b + purchase_earned s (active_automatic now d) chosen)
                      (balance d i)
               else balance d i)"
    and tp: "txPromotions d' = txPromotions d @
             map (\<lambda>p. (tx_seq d, p_id p)) (active_automatic now d @ chosen)"
    and us: "set (usages d') = set (usages d) \<union>
             {(u_id user, p_id p) | p. p \<in> set chosen \<and> p_type p = Onetime}"
    by auto
  from a selected_is_consumed [OF c, of q p]
  have m: "p \<in> set chosen" "p_type p = Onetime" "p_id p = \<lfloor>q\<rfloor>"
    by simp_all
  have e: "purchase_earned s (active_automatic now d) chosen
      = computeEarnedPoints s (active_automatic now d) (filter (\<lambda>r. r \<noteq> p) chosen)"
    using a computeEarnedPoints_without [of s p "active_automatic now d" chosen]
    by (simp add: purchase_earned_formula)
  have am: "t_amount (last (transactions d'))
      = computeEarnedPoints s (active_automatic now d) (filter (\<lambda>r. r \<noteq> p) chosen)"
    using t e by (simp add: purchase_tx_def)
  from choose_onetime_Inr [OF c] m(1) am bal
  show "\<exists>chosen.
          list_all2 (names_unused (active_onetime now d) (usedSet (u_id user) d)) raws chosen \<and>
          p \<in> set chosen \<and>
          t_amount (last (transactions d'))
            = computeEarnedPoints s (active_automatic now d) (filter (\<lambda>r. r \<noteq> p) chosen) \<and>
          (\<forall>i. balance d' i =
             (if i = u_id user \<and> \<not> effectiveSuspicious authId body d
              then map_option
                     (\<lambda>b. b + computeEarnedPoints s (active_automatic now d)
                                (filter (\<lambda>r. r \<noteq> p) chosen))
                     (balance d i)
              else balance d i))"
    unfolding e
    by (intro exI [of _ chosen] conjI) simp_all
  show "\<forall>ps1 ps2 x. add_extras s (ps1 @ p # ps2) x = add_extras s (ps1 @ ps2) x"
    using a by (simp add: add_extras_skip)
  show "promotion_bonus s p = 0"
    using a by (simp add: promotion_bonus_below)
  show "t_id (last (transactions d')) = tx_seq d"
    using t by simp
  have "(tx_seq d, p_id p) \<in> (\<lambda>p. (tx_seq d, p_id p)) ` set chosen"
    using m(1) by (rule imageI)
  then show "(tx_seq d, p_id p) \<in> set (txPromotions d')"
    by (simp add: tp)
  show used: "(u_id user, p_id p) \<in> set (usages d')"
    unfolding us using m(1,2) by blast
  show "\<forall>rs role2 auth2 body2 now2 raws2 q2 user2.
         r_promotionIds body2 = Some raws2 \<and> Some q2 \<in> set raws2 \<and> \<lfloor>q2\<rfloor> = p_id p \<and>
         find_user_by_utorid (r_utorid body2) (run rs d') = Some user2 \<and>
         u_id user2 = u_id user \<longrightarrow>
         (\<exists>err. purchase role2 auth2 body2 now2 (run rs d') = (Inl err, run rs d'))"
  proof (intro allI impI)
    fix rs role2 auth2 and body2 :: tx_body and now2 raws2 and q2 :: rat and user2 :: user
    assume b: "r_promotionIds body2 = Some raws2 \<and> Some q2 \<in> set raws2 \<and> \<lfloor>q2\<rfloor> = p_id p \<and>
         find_user_by_utorid (r_utorid body2) (run rs d') = Some user2 \<and>
         u_id user2 = u_id user"
    with used usages_run [of d' rs] have "(u_id user2, \<lfloor>q2\<rfloor>) \<in> set (usages (run rs d'))"
      by auto
    with b show "\<exists>err. purchase role2 auth2 body2 now2 (run rs d') = (Inl err, run rs d')"
      by (intro purchase_used_fails [of body2 _ user2 raws2 q2]) simp_all
  qed
next
  assume "below_minSpending s p"
  then show "purchase_earned_p3 s automatic (ps1 @ p # ps2)
      = purchase_earned_p3 s automatic (ps1 @ ps2)"
    by (simp add: purchase_earned_p3_def add_extras_p3_skip Let_def)
next
  assume a: "link_promotions_p3 k u ps d = Some d1 \<and> p \<in> set ps \<and> p_type p = Onetime"
  then have l: "link_promotions_p3 k u ps d = Some d1" by simp
  note f = link_promotions_p3_fields [OF l]
  have "(k, p_id p) \<in> (\<lambda>p. (k, p_id p)) ` set ps"
    using a by (intro imageI) simp
  then show "(k, p_id p) \<in> set (txPromotions d1)"
    using f by simp
  show "(u, p_id p) \<in> set (usages d1)"
    using f a by blast
qed

lemma example_shop_onetime:
  "oneTimeMap_get (active_onetime 1500 example_shop) \<lfloor>2 :: rat\<rfloor>
     = Some (promotions example_shop ! 1)"
  "below_minSpending 10 (promotions example_shop ! 1)"
  "p_id (promotions example_shop ! 1) = 2"
  "find_user_by_utorid ''alice001'' example_shop = Some (users example_db ! 0)"
  "u_id (users example_db ! 0) = 1"
  "tx_seq example_shop = 4"
  "\<not> effectiveSuspicious 2 (purchase_body ''alice001'' 10 [Some 2] False) example_shop"
  by (simp_all add: purchase_eval effectiveSuspicious_def)

text \<open>
  A cashier records a purchase of 10 by Alice that names promotion 2, whose minimum
  spend is 50 and whose flat bonus is 100: the row's amount is 40 + 500 and Alice's
  balance rises from 100 by 540, not by 640.
\<close>

theorem onetime_below_minimum_consumed_witness:
  "fst (purchase Cashier 2 (purchase_body ''alice001'' 10 [Some 2] False) 1500 example_shop)
     = Inr 201
   \<and> t_amount (last (transactions (snd (purchase Cashier 2
        (purchase_body ''alice001'' 10 [Some 2] False) 1500 example_shop)))) = 540
   \<and> balance (snd (purchase Cashier 2
        (purchase_body ''alice001'' 10 [Some 2] False) 1500 example_shop)) 1 = Some 640
   \<and> (4, 2) \<in> set (txPromotions (snd (purchase Cashier 2
        (purchase_body ''alice001'' 10 [Some 2] False) 1500 example_shop)))
   \<and> (1, 2) \<in> set (usages (snd (purchase Cashier 2
        (purchase_body ''alice001'' 10 [Some 2] False) 1500 example_shop)))
   \<and> fst (purchase Cashier 2 (purchase_body ''alice001'' 100 [Some 2] False) 1600
        (snd (purchase Cashier 2 (purchase_body ''alice001'' 10 [Some 2] False) 1500
          example_shop))) = Inl BadRequest
   \<and> map_option (\<lambda>d1. ((4, 2) \<in> set (txPromotions d1), (1, 2) \<in> set (usages d1)))
        (link_promotions_p3 4 1 (promotions example_shop) example_shop) = Some (True, True)"
proof -
  let ?b = "purchase_body ''alice001'' 10 [Some 2] False"
  let ?r = "purchase Cashier 2 ?b 1500 example_shop"
  obtain d1 where l: "link_promotions_p3 4 1 (promotions example_shop) example_shop = Some d1"
    by (simp add: example_shop_def example_db_def upsert_usage_def Let_def)
  have pr: "promotions example_shop ! 1 \<in> set (promotions example_shop)"
    "p_type (promotions example_shop ! 1) = Onetime"
    by (simp_all add: example_shop_def)
  from onetime_below_minimum_consumed
    [where k = 4 and u = 1 and ps = "promotions example_shop" and d = example_shop
      and ?d1.0 = d1 and p = "promotions example_shop ! 1",
      THEN conjunct2, THEN conjunct2] l pr
  have w3: "(4, 2) \<in> set (txPromotions d1)" "(1, 2) \<in> set (usages d1)"
    by (simp_all add: example_shop_def)
  have body: "r_spent ?b = Some 10" "r_promotionIds ?b = Some [Some 2]"
    "r_utorid ?b = ''alice001''"
    by (simp_all add: purchase_body_def)
  have f: "fst ?r = Inr 201"
    by (simp add: purchase_eval)
  then have h: "?r = (Inr 201, snd ?r)"
    by (metis prod.collapse)
  have ev: "fst (purchase Cashier 2 (purchase_body ''alice001'' 100 [Some 2] False) 1600 (snd ?r))
       = Inl BadRequest"
    by (simp add: purchase_eval)
  note c = onetime_below_minimum_consumed
    [where body = ?b and s = 10 and raws = "[Some 2]" and q = 2 and now = 1500
      and d = example_shop and user = "users example_db ! 0"
      and p = "promotions example_shop ! 1" and authRole = Cashier and authId = 2
      and st = 201 and d' = "snd ?r", THEN conjunct1]
  from c h body example_shop_onetime
  have w: "(4, 2) \<in> set (txPromotions (snd ?r))" "(1, 2) \<in> set (usages (snd ?r))"
    by simp_all
  from c h body example_shop_onetime obtain chosen where
    ch: "list_all2 (names_unused (active_onetime 1500 example_shop)
           (usedSet 1 example_shop)) [Some 2] chosen"
    and am: "t_amount (last (transactions (snd ?r)))
      = computeEarnedPoints 10 (active_automatic 1500 example_shop)
          (filter (\<lambda>r. r \<noteq> promotions example_shop ! 1) chosen)"
    and bal: "balance (snd ?r) 1
      = map_option
          (\<lambda>b. b + computeEarnedPoints 10 (active_automatic 1500 example_shop)
                     (filter (\<lambda>r. r \<noteq> promotions example_shop ! 1) chosen))
          (balance example_shop 1)"
    by auto
  from ch example_shop_onetime(1) have "chosen = [promotions example_shop ! 1]"
    by (auto simp: list_all2_Cons1 names_unused_def)
  with am bal example_shop_facts
  have w2: "t_amount (last (transactions (snd ?r))) = 540" "balance (snd ?r) 1 = Some 640"
    by (simp_all add: computeEarnedPoints_def promotion_bonus_def active_automatic_def
        isActivePromo_def example_shop_def times_d_def divide_d_def Math_round_def)
  from f ev w w2 w3 l show ?thesis
    by simp
qed

subsection \<open>What an event award checks\<close>

lemma award_guests_known:
  "\<forall>g \<in> set gs. find_user g d \<noteq> None \<Longrightarrow>
     award_guests gs award remark eid actor d \<noteq> None"
proof (induction gs arbitrary: d)
  case Nil
  show ?case by simp
next
  case (Cons g gs)
  let ?d = "increment_points g award (create_tx (event_row g award remark eid actor) d)"
  from Cons.prems have "\<forall>h \<in> set gs. find_user h ?d \<noteq> None"
    by (simp add: find_user_increment_points)
  from Cons.IH [OF this] Cons.prems show ?case
    by (auto split: option.splits)
qed

lemmas award_eval =
  post_events_id_transactions_def post_events_id_transactions_p3_def example_shop_def
  example_db_def find_event_def find_user_def find_user_by_utorid_def is_organizer_def
  is_guest_def guests_of_def spend_budget_def update_event_def create_tx_def user_exists_def
  increment_points_def event_row_def Number_isInteger_def ceilInt_def Math_trunc_def Let_def

text \<open>No award is answered Gone.\<close>

lemma award_never_gone:
  "fst (post_events_id_transactions authRole authId eventId type utorid amount remark d)
     \<noteq> Inl Gone"
  "fst (post_events_id_transactions_p3 authRole authId eventId utorid allGuests amount remark d)
     \<noteq> Inl Gone"
  by (simp_all add: post_events_id_transactions_def post_events_id_transactions_p3_def Let_def
      split: option.splits)

text \<open>
  The published flags and the end times of the events are carried through an award
  untouched and unread: the handler commutes with any change of them.
\<close>

lemma reschedule_fields [simp]:
  "users (reschedule pub ends d) = users d"
  "guests (reschedule pub ends d) = guests d"
  "organizers (reschedule pub ends d) = organizers d"
  by (simp_all add: reschedule_def)

lemma reschedule_lookups [simp]:
  "find_user i (reschedule pub ends d) = find_user i d"
  "find_user_by_utorid s (reschedule pub ends d) = find_user_by_utorid s d"
  "user_exists i (reschedule pub ends d) = user_exists i d"
  "is_organizer e i (reschedule pub ends d) = is_organizer e i d"
  "is_guest e i (reschedule pub ends d) = is_guest e i d"
  "guests_of e (reschedule pub ends d) = guests_of e d"
  by (simp_all add: find_user_def find_user_by_utorid_def user_exists_def is_organizer_def
      is_guest_def guests_of_def)

lemma find_event_reschedule:
  "find_event i (reschedule pub ends d) =
     map_option (\<lambda>e. e\<lparr>e_published := pub (e_id e), e_endTime := ends (e_id e)\<rparr>)
       (find_event i d)"
  unfolding find_event_def reschedule_def
  by (simp add: find_map_same)

lemma create_tx_reschedule:
  "create_tx t (reschedule pub ends d) = reschedule pub ends (create_tx t d)"
  by (simp add: create_tx_def reschedule_def)

lemma increment_points_reschedule:
  "increment_points i n (reschedule pub ends d) = reschedule pub ends (increment_points i n d)"
  by (simp add: increment_points_def reschedule_def)

lemma spend_budget_reschedule:
  "spend_budget i n (reschedule pub ends d) = reschedule pub ends (spend_budget i n d)"
  by (simp add: spend_budget_def update_event_def reschedule_def)

lemma award_guests_reschedule:
  "award_guests gs award remark eid actor (reschedule pub ends d) =
     map_option (reschedule pub ends) (award_guests gs award remark eid actor d)"
  by (induction gs arbitrary: d)
     (simp_all add: create_tx_reschedule increment_points_reschedule split: option.splits)

lemma award_reschedule:
  "post_events_id_transactions authRole authId eventId type utorid amount remark
     (reschedule pub ends d) =
   (fst (post_events_id_transactions authRole authId eventId type utorid amount remark d),
    reschedule pub ends
      (snd (post_events_id_transactions authRole authId eventId type utorid amount remark d)))"
  unfolding post_events_id_transactions_def
  by (cases "award_guests (guests_of (the eventId) d) \<lfloor>the amount\<rfloor> remark (the eventId)
         authId d")
     (auto simp: Let_def find_event_reschedule award_guests_reschedule create_tx_reschedule
        increment_points_reschedule spend_budget_reschedule split: option.splits)

lemma award_reschedule_p3:
  "post_events_id_transactions_p3 authRole authId eventId utorid allGuests amount remark
     (reschedule pub ends d) =
   (fst (post_events_id_transactions_p3 authRole authId eventId utorid allGuests amount remark
      d),
    reschedule pub ends
      (snd (post_events_id_transactions_p3 authRole authId eventId utorid allGuests amount
         remark d)))"
  unfolding post_events_id_transactions_p3_def
  by (cases "award_guests (guests_of (the eventId) d) (ceilInt (the amount)) remark
         (the eventId) authId d")
     (auto simp: Let_def find_event_reschedule award_guests_reschedule create_tx_reschedule
        increment_points_reschedule spend_budget_reschedule split: option.splits)

text \<open>
  C8, as the claim states it, fails: the handler has no clock and never reads the event's
  published flag or end time. Event 1 of \<open>example_shop\<close> is unpublished and ended at time
  1000; its organizer (Carol, a regular user) and a manager (user 2 with a manager's
  token) award points all the same, in the backend and in the second copy, and no reply is
  Gone.
\<close>

theorem award_on_ended_unpublished_event_counterexample:
  "map_option e_published (find_event 1 example_shop) = Some False
   \<and> map_option e_endTime (find_event 1 example_shop) = Some 1000
   \<and> is_organizer 1 3 example_shop
   \<and> fst (post_events_id_transactions Regular 3 (Some 1) ''event'' ''alice001'' (Some 5) []
        example_shop) = Inr 201
   \<and> fst (post_events_id_transactions Manager 2 (Some 1) ''event'' [] (Some 5) []
        example_shop) = Inr 200
   \<and> fst (post_events_id_transactions_p3 Regular 3 (Some 1) ''alice001'' False (Some 5) []
        example_shop) = Inr 200
   \<and> fst (post_events_id_transactions_p3 Manager 2 (Some 1) [] True (Some 5) []
        example_shop) = Inr 200
   \<and> balance (snd (post_events_id_transactions Regular 3 (Some 1) ''event'' ''alice001''
        (Some 5) [] example_shop)) 1 = Some 105"
  by (simp add: award_eval balance_def)

text \<open>
  C8, amended. For a well-formed request on an existing event, an award fails with
  Forbidden when the actor is neither a manager nor an organizer of the event. An amount
  that is not positive is answered BadRequest. The award does not depend on the event's
  published flag or end time: a manager or an organizer (a user with a row) who awards to
  an RSVPed guest, or to all guests, within the remaining budget succeeds, whatever the
  flag and the end time are; no award is answered Gone; and changing the published flags
  and the end times of the events at will changes neither the answer nor anything else
  that the award leaves in the store.
\<close>

theorem event_award_checks:
  "(eventId = Some eid \<and> 0 < eid \<and> type = ''event'' \<and> amount = Some a \<and>
    Number_isInteger a \<and> 0 < a \<and> find_event eid d = Some e \<and>
    ORDER authRole < ORDER Manager \<and> \<not> is_organizer eid authId d \<longrightarrow>
      post_events_id_transactions authRole authId eventId type utorid amount remark d
        = (Inl Forbidden, d))
   \<and> (eventId = Some eid \<and> amount = Some a \<and> 0 < a \<and> find_event eid d = Some e \<and>
    ORDER authRole < ORDER Manager \<and> \<not> is_organizer eid authId d \<longrightarrow>
      post_events_id_transactions_p3 authRole authId eventId utorid allGuests amount remark d
        = (Inl Forbidden, d))
   \<and> (eventId = Some eid \<and> 0 < eid \<and> type = ''event'' \<and> amount = Some a \<and> a \<le> 0 \<longrightarrow>
      post_events_id_transactions authRole authId eventId type utorid amount remark d
        = (Inl BadRequest, d))
   \<and> (amount = Some a \<and> a \<le> 0 \<longrightarrow>
      post_events_id_transactions_p3 authRole authId eventId utorid allGuests amount remark d
        = (Inl BadRequest, d))
   \<and> (eventId = Some eid \<and> 0 < eid \<and> type = ''event'' \<and> amount = Some a \<and>
    Number_isInteger a \<and> 0 < a \<and> find_event eid d = Some e \<and>
    (ORDER Manager \<le> ORDER authRole \<or> is_organizer eid authId d) \<and> user_exists authId d \<and>
    utorid \<noteq> [] \<and> find_user_by_utorid utorid d = Some u \<and> is_guest eid (u_id u) d \<and>
    \<lfloor>a\<rfloor> \<le> e_pointsRemain e \<longrightarrow>
      fst (post_events_id_transactions authRole authId eventId type utorid amount remark d)
        = Inr 201)
   \<and> (eventId = Some eid \<and> 0 < eid \<and> type = ''event'' \<and> amount = Some a \<and>
    Number_isInteger a \<and> 0 < a \<and> find_event eid d = Some e \<and>
    (ORDER Manager \<le> ORDER authRole \<or> is_organizer eid authId d) \<and> user_exists authId d \<and>
    (\<forall>g \<in> set (guests_of eid d). find_user g d \<noteq> None) \<and>
    \<lfloor>a\<rfloor> * int (length (guests_of eid d)) \<le> e_pointsRemain e \<longrightarrow>
      fst (post_events_id_transactions authRole authId eventId type [] amount remark d)
        = Inr 200)
   \<and> (eventId = Some eid \<and> amount = Some a \<and> 0 < a \<and> find_event eid d = Some e \<and>
    (ORDER Manager \<le> ORDER authRole \<or> is_organizer eid authId d) \<and> user_exists authId d \<and>
    utorid \<noteq> [] \<and> find_user_by_utorid utorid d = Some u \<and> is_guest eid (u_id u) d \<and>
    ceilInt a \<le> e_pointsRemain e \<longrightarrow>
      fst (post_events_id_transactions_p3 authRole authId eventId utorid False amount remark d)
        = Inr 200)
   \<and> (eventId = Some eid \<and> amount = Some a \<and> 0 < a \<and> find_event eid d = Some e \<and>
    (ORDER Manager \<le> ORDER authRole \<or> is_organizer eid authId d) \<and> user_exists authId d \<and>
    (\<forall>g \<in> set (guests_of eid d). find_user g d \<noteq> None) \<and>
    ceilInt a * int (length (guests_of eid d)) \<le> e_pointsRemain e \<longrightarrow>
      fst (post_events_id_transactions_p3 authRole authId eventId utorid True amount remark d)
        = Inr 200)
   \<and> fst (post_events_id_transactions authRole authId eventId type utorid amount remark d)
       \<noteq> Inl Gone
   \<and> fst (post_events_id_transactions_p3 authRole authId eventId utorid allGuests amount
        remark d) \<noteq> Inl Gone
   \<and> post_events_id_transactions authRole authId eventId type utorid amount remark
       (reschedule pub ends d) =
     (fst (post_events_id_transactions authRole authId eventId type utorid amount remark d),
      reschedule pub ends
        (snd (post_events_id_transactions authRole authId eventId type utorid amount remark
           d)))
   \<and> post_events_id_transactions_p3 authRole authId eventId utorid allGuests amount remark
       (reschedule pub ends d) =
     (fst (post_events_id_transactions_p3 authRole authId eventId utorid allGuests amount
        remark d),
      reschedule pub ends
        (snd (post_events_id_transactions_p3 authRole authId eventId utorid allGuests amount
           remark d)))"
proof (intro conjI impI)
  assume a: "eventId = Some eid \<and> 0 < eid \<and> type = ''event'' \<and> amount = Some a \<and>
    Number_isInteger a \<and> 0 < a \<and> find_event eid d = Some e \<and>
    (ORDER Manager \<le> ORDER authRole \<or> is_organizer eid authId d) \<and> user_exists authId d \<and>
    (\<forall>g \<in> set (guests_of eid d). find_user g d \<noteq> None) \<and>
    \<lfloor>a\<rfloor> * int (length (guests_of eid d)) \<le> e_pointsRemain e"
  then have "award_guests (guests_of eid d) \<lfloor>a\<rfloor> remark eid authId d \<noteq> None"
    by (intro award_guests_known) simp
  with a show "fst (post_events_id_transactions authRole authId eventId type [] amount
      remark d) = Inr 200"
    by (auto simp: post_events_id_transactions_def Let_def split: option.splits)
next
  assume a: "eventId = Some eid \<and> amount = Some a \<and> 0 < a \<and> find_event eid d = Some e \<and>
    (ORDER Manager \<le> ORDER authRole \<or> is_organizer eid authId d) \<and> user_exists authId d \<and>
    (\<forall>g \<in> set (guests_of eid d). find_user g d \<noteq> None) \<and>
    ceilInt a * int (length (guests_of eid d)) \<le> e_pointsRemain e"
  then have "award_guests (guests_of eid d) (ceilInt a) remark eid authId d \<noteq> None"
    by (intro award_guests_known) simp
  with a show "fst (post_events_id_transactions_p3 authRole authId eventId utorid True amount
      remark d) = Inr 200"
    by (auto simp: post_events_id_transactions_p3_def Let_def split: option.splits)
next
  show "fst (post_events_id_transactions authRole authId eventId type utorid amount remark d)
       \<noteq> Inl Gone"
    by (rule award_never_gone)
next
  show "fst (post_events_id_transactions_p3 authRole authId eventId utorid allGuests amount
        remark d) \<noteq> Inl Gone"
    by (rule award_never_gone)
next
  show "post_events_id_transactions authRole authId eventId type utorid amount remark
       (reschedule pub ends d) =
     (fst (post_events_id_transactions authRole authId eventId type utorid amount remark d),
      reschedule pub ends
        (snd (post_events_id_transactions authRole authId eventId type utorid amount remark
           d)))"
    by (rule award_reschedule)
next
  show "post_events_id_transactions_p3 authRole authId eventId utorid allGuests amount remark
       (reschedule pub ends d) =
     (fst (post_events_id_transactions_p3 authRole authId eventId utorid allGuests amount
        remark d),
      reschedule pub ends
        (snd (post_events_id_transactions_p3 authRole authId eventId utorid allGuests amount
           remark d)))"
    by (rule award_reschedule_p3)
qed (auto simp: post_events_id_transactions_def post_events_id_transactions_p3_def Let_def)

theorem event_award_checks_witness:
  "post_events_id_transactions Regular 2 (Some 1) ''event'' ''alice001'' (Some 5) []
     example_shop = (Inl Forbidden, example_shop)
   \<and> post_events_id_transactions_p3 Cashier 2 (Some 1) ''alice001'' False (Some 5) []
       example_shop = (Inl Forbidden, example_shop)
   \<and> post_events_id_transactions Manager 2 (Some 1) ''event'' ''alice001'' (Some 0) []
       example_shop = (Inl BadRequest, example_shop)
   \<and> post_events_id_transactions_p3 Manager 2 (Some 1) ''alice001'' False (Some (- 3)) []
       example_shop = (Inl BadRequest, example_shop)
   \<and> fst (post_events_id_transactions Regular 3 (Some 1) ''event'' ''alice001'' (Some 5) []
        example_shop) = Inr 201
   \<and> fst (post_events_id_transactions Manager 2 (Some 1) ''event'' [] (Some 50) []
        example_shop) = Inr 200
   \<and> fst (post_events_id_transactions_p3 Regular 3 (Some 1) ''alice001'' False (Some (11 / 2))
        [] example_shop) = Inr 200
   \<and> fst (post_events_id_transactions_p3 Superuser 2 (Some 1) [] True (Some (101 / 2)) []
        example_shop) = Inr 200
   \<and> fst (post_events_id_transactions Regular 3 (Some 1) ''event'' ''alice001'' (Some 5) []
        (reschedule (\<lambda>i. True) (\<lambda>i. 9000) example_shop)) = Inr 201"
proof -
  have ev: "find_event 1 example_shop = Some (events example_shop ! 0)"
    "e_pointsRemain (events example_shop ! 0) = 100"
    "guests_of 1 example_shop = [1, 2]"
    "is_organizer 1 3 example_shop" "\<not> is_organizer 1 2 example_shop"
    "is_guest 1 1 example_shop"
    "find_user_by_utorid ''alice001'' example_shop = Some (users example_db ! 0)"
    "u_id (users example_db ! 0) = 1"
    "find_user 1 example_shop \<noteq> None" "find_user 2 example_shop \<noteq> None"
    "user_exists 2 example_shop" "user_exists 3 example_shop"
    by (simp_all add: find_event_def example_shop_def example_db_def guests_of_def
        is_organizer_def is_guest_def find_user_by_utorid_def find_user_def user_exists_def)
  have nums: "Number_isInteger 5" "Number_isInteger 50" "ceilInt (11 / 2) = 5"
    "ceilInt (101 / 2) = 50"
    by (simp_all add: Number_isInteger_def ceilInt_def Math_trunc_def)
  note c = event_award_checks [where eventId = "Some 1" and eid = 1 and type = "''event''"
      and d = example_shop and e = "events example_shop ! 0" and remark = "[]"
      and u = "users example_db ! 0"]
  from c [where amount = "Some 5" and a = 5 and authRole = Regular and authId = 2
      and utorid = "''alice001''", THEN conjunct1] ev nums
  have w1: "post_events_id_transactions Regular 2 (Some 1) ''event'' ''alice001'' (Some 5) []
     example_shop = (Inl Forbidden, example_shop)"
    by simp
  from c [where amount = "Some 5" and a = 5 and authRole = Cashier and authId = 2
      and utorid = "''alice001''" and allGuests = False, THEN conjunct2, THEN conjunct1] ev
  have w2: "post_events_id_transactions_p3 Cashier 2 (Some 1) ''alice001'' False (Some 5) []
       example_shop = (Inl Forbidden, example_shop)"
    by simp
  from c [where amount = "Some 0" and a = 0 and authRole = Manager and authId = 2
      and utorid = "''alice001''", THEN conjunct2, THEN conjunct2, THEN conjunct1]
  have w3: "post_events_id_transactions Manager 2 (Some 1) ''event'' ''alice001'' (Some 0) []
       example_shop = (Inl BadRequest, example_shop)"
    by simp
  from c [where amount = "Some (- 3)" and a = "- 3" and authRole = Manager and authId = 2
      and utorid = "''alice001''" and allGuests = False,
      THEN conjunct2, THEN conjunct2, THEN conjunct2, THEN conjunct1]
  have w4: "post_events_id_transactions_p3 Manager 2 (Some 1) ''alice001'' False (Some (- 3)) []
       example_shop = (Inl BadRequest, example_shop)"
    by simp
  from c [where amount = "Some 5" and a = 5 and authRole = Regular and authId = 3
      and utorid = "''alice001''",
      THEN conjunct2, THEN conjunct2, THEN conjunct2, THEN conjunct2, THEN conjunct1] ev nums
  have w5: "fst (post_events_id_transactions Regular 3 (Some 1) ''event'' ''alice001'' (Some 5)
      [] example_shop) = Inr 201"
    by simp
  from c [where amount = "Some 50" and a = 50 and authRole = Manager and authId = 2,
      THEN conjunct2, THEN conjunct2, THEN conjunct2, THEN conjunct2, THEN conjunct2,
      THEN conjunct1] ev nums
  have w6: "fst (post_events_id_transactions Manager 2 (Some 1) ''event'' [] (Some 50) []
        example_shop) = Inr 200"
    by simp
  from c [where amount = "Some (11 / 2)" and a = "11 / 2" and authRole = Regular and authId = 3
      and utorid = "''alice001''",
      THEN conjunct2, THEN conjunct2, THEN conjunct2, THEN conjunct2, THEN conjunct2,
      THEN conjunct2, THEN conjunct1] ev nums
  have w7: "fst (post_events_id_transactions_p3 Regular 3 (Some 1) ''alice001'' False
      (Some (11 / 2)) [] example_shop) = Inr 200"
    by simp
  from c [where amount = "Some (101 / 2)" and a = "101 / 2" and authRole = Superuser
      and authId = 2 and utorid = "[]",
      THEN conjunct2, THEN conjunct2, THEN conjunct2, THEN conjunct2, THEN conjunct2,
      THEN conjunct2, THEN conjunct2, THEN conjunct1] ev nums
  have w8: "fst (post_events_id_transactions_p3 Superuser 2 (Some 1) [] True (Some (101 / 2)) []
        example_shop) = Inr 200"
    by simp
  from c [where amount = "Some 5" and authRole = Regular and authId = 3
      and utorid = "''alice001''" and pub = "\<lambda>i. True" and ends = "\<lambda>i. 9000",
      THEN conjunct2, THEN conjunct2, THEN conjunct2, THEN conjunct2, THEN conjunct2,
      THEN conjunct2, THEN conjunct2, THEN conjunct2, THEN conjunct2, THEN conjunct2,
      THEN conjunct1] w5
  have w9: "fst (post_events_id_transactions Regular 3 (Some 1) ''event'' ''alice001'' (Some 5)
      [] (reschedule (\<lambda>i. True) (\<lambda>i. 9000) example_shop)) = Inr 201"
    by simp
  from w1 w2 w3 w4 w5 w6 w7 w8 w9 show ?thesis
    by simp
qed

end
